theory Spec2Isabelle
  imports Complex_Main "HOL-Library.Log_Nat"
begin

section \<open>Errors\<close>

text \<open>
  Every exception the code can raise is a value. \<open>ValueError\<close> carries its message;
  \<open>UnknownTimeZoneError\<close> carries the zone name the catalog was asked for and
  \<open>KeyError\<close> the key missing from a table.
\<close>

datatype error =
    IndexError
  | ValueError string
  | OverflowError
  | ZeroDivisionError
  | KeyError string
  | AttributeError
  | UnknownTimeZoneError string

text \<open>Sequencing of two fallible steps: an exception of the first is the result.\<close>

definition and_then :: "error + 'a \<Rightarrow> ('a \<Rightarrow> error + 'b) \<Rightarrow> error + 'b" where
  "and_then r f = (case r of Inl e \<Rightarrow> Inl e | Inr x \<Rightarrow> f x)"

section \<open>Calendar dates\<close>

text \<open>
  The library type \<^verbatim>\<open>datetime.date\<close> is represented by its proleptic Gregorian ordinal
  (\<^verbatim>\<open>date.toordinal()\<close>): 1 is 0001-01-01 and \<open>MAXORDINAL\<close> is 9999-12-31. All operations
  the repository uses on dates (adding a \<^verbatim>\<open>timedelta\<close>, \<^verbatim>\<open>isoweekday\<close>) are defined by the
  library through this ordinal.
\<close>

type_synonym date = int

definition MAXORDINAL :: int where
  "MAXORDINAL = 3652059"

definition is_leap :: "int \<Rightarrow> bool" where
  "is_leap year \<longleftrightarrow> year mod 4 = 0 \<and> (year mod 100 \<noteq> 0 \<or> year mod 400 = 0)"

definition days_before_year :: "int \<Rightarrow> int" where
  "days_before_year year =
     (let y = year - 1 in y * 365 + y div 4 - y div 100 + y div 400)"

definition days_in_month :: "int \<Rightarrow> int \<Rightarrow> int" where
  "days_in_month year month =
     (if month = 2 \<and> is_leap year then 29
      else [31, 28, 31, 30, 31, 30, 31, 31, 30, 31, 30, 31] ! nat (month - 1))"

definition days_before_month :: "int \<Rightarrow> int \<Rightarrow> int" where
  "days_before_month year month =
     [0, 31, 59, 90, 120, 151, 181, 212, 243, 273, 304, 334] ! nat (month - 1)
       + (if month > 2 \<and> is_leap year then 1 else 0)"

text \<open>The ordinal of a valid year, month (1..12) and day, as \<^verbatim>\<open>date(y, m, d).toordinal()\<close>.\<close>

definition ymd2ord :: "int \<Rightarrow> int \<Rightarrow> int \<Rightarrow> date" where
  "ymd2ord year month day = days_before_year year + days_before_month year month + day"

text \<open>\<^verbatim>\<open>date + timedelta(days=n)\<close>: the library raises \<^verbatim>\<open>OverflowError\<close> outside 1..MAXORDINAL.\<close>

definition date_add :: "date \<Rightarrow> int \<Rightarrow> error + date" where
  "date_add d n =
     (let ord = d + n in
      if 0 < ord \<and> ord \<le> MAXORDINAL then Inr ord else Inl OverflowError)"

text \<open>\<^verbatim>\<open>date.isoweekday()\<close>: Monday is 1, Sunday is 7; the library computes
  \<^verbatim>\<open>self.toordinal() % 7 or 7\<close>.\<close>

definition isoweekday :: "date \<Rightarrow> int" where
  "isoweekday d = (if d mod 7 = 0 then 7 else d mod 7)"

section \<open>Business-day stepping\<close>

text \<open>\<^verbatim>\<open>timedelta(datetime_obj, **kwargs)\<close> for a date and the keyword \<^verbatim>\<open>days\<close>, the only
  way the stepping functions call it.\<close>

definition timedelta :: "date \<Rightarrow> int \<Rightarrow> error + date" where
  "timedelta datetime_obj days = date_add datetime_obj days"

definition is_business_day :: "date \<Rightarrow> bool" where
  "is_business_day date_obj =
     (let iso_business_days = [1, 2, 3, 4, 5]
      in isoweekday date_obj \<in> set iso_business_days)"

text \<open>
  The \<^verbatim>\<open>while\<close> loop of \<^verbatim>\<open>_get_next_timedelta\<close>. It may run forever for an arbitrary
  predicate, so it is a partial function: \<open>None\<close> is the loop that never returns,
  \<open>Some (Inl e)\<close> an exception of the increment, \<open>Some (Inr d)\<close> the returned day.
\<close>

partial_function (option) next_timedelta_loop ::
  "('a \<Rightarrow> error + 'a) \<Rightarrow> ('a \<Rightarrow> bool) \<Rightarrow> 'a \<Rightarrow> (error + 'a) option" where
  "next_timedelta_loop increment_fn predicate_fn next_day =
     (if \<not> predicate_fn next_day then
        (case increment_fn next_day of
           Inl e \<Rightarrow> Some (Inl e)
         | Inr d \<Rightarrow> next_timedelta_loop increment_fn predicate_fn d)
      else Some (Inr next_day))"

definition get_next_timedelta ::
  "'a \<Rightarrow> ('a \<Rightarrow> error + 'a) \<Rightarrow> ('a \<Rightarrow> bool) \<Rightarrow> (error + 'a) option" where
  "get_next_timedelta start_date_obj increment_fn predicate_fn =
     (case increment_fn start_date_obj of
        Inl e \<Rightarrow> Some (Inl e)
      | Inr next_day \<Rightarrow> next_timedelta_loop increment_fn predicate_fn next_day)"

definition get_next_business_day :: "date \<Rightarrow> (error + date) option" where
  "get_next_business_day date_obj =
     get_next_timedelta date_obj (\<lambda>d. timedelta d 1) is_business_day"

definition get_previous_business_day :: "date \<Rightarrow> (error + date) option" where
  "get_previous_business_day date_obj =
     get_next_timedelta date_obj (\<lambda>d. timedelta d (- 1)) is_business_day"

section \<open>Time zones\<close>

text \<open>
  A \<^verbatim>\<open>tzinfo\<close> object is \<^verbatim>\<open>pytz.utc\<close>, a fixed offset built by \<^verbatim>\<open>tzoffset(None, seconds)\<close>, or
  a named zone of the catalog. The zone database of \<^verbatim>\<open>pytz\<close> and the table of
  platform-native names (\<^verbatim>\<open>windows_tz.win_tz\<close>) are external data; both are parameters:
  \<open>catalog name\<close> is the zone the database holds under a name (looked up as the library
  does, ignoring case), \<open>None\<close> when it holds none, and \<open>win_tz name = None\<close> is the table
  raising \<^verbatim>\<open>KeyError\<close>.
\<close>

datatype tzinfo = UTC | TzOffset int | Zone string

datatype tz_arg = TzName string | TzObj tzinfo

text \<open>\<^verbatim>\<open>s.replace(old, new)\<close>: the occurrences of \<open>old\<close> are replaced from left to right, without
  overlap; an empty \<open>old\<close> occurs before every character and at the end.\<close>

fun str_replace :: "string \<Rightarrow> string \<Rightarrow> string \<Rightarrow> string" where
  "str_replace old new [] = (if old = [] then new else [])"
| "str_replace old new (c # cs) =
     (if old = [] then new @ c # str_replace old new cs
      else if take (length old) (c # cs) = old
      then new @ str_replace old new (drop (length old) (c # cs))
      else c # str_replace old new cs)"

text \<open>The steps of \<^verbatim>\<open>pytz.timezone(zone)\<close> that decide its outcome for a string.
  \<^verbatim>\<open>zone.upper() == 'UTC'\<close>: among the code points below 256 only the letters themselves, in
  either case, become \<^verbatim>\<open>U\<close>, \<^verbatim>\<open>T\<close> and \<^verbatim>\<open>C\<close>.\<close>

definition ascii_upper :: "char \<Rightarrow> char" where
  "ascii_upper c =
     (let n = (of_char c :: nat) in if 97 \<le> n \<and> n \<le> 122 then char_of (n - 32) else c)"

definition is_utc_name :: "string \<Rightarrow> bool" where
  "is_utc_name zone \<longleftrightarrow> map ascii_upper zone = ''UTC''"

definition is_ascii :: "string \<Rightarrow> bool" where
  "is_ascii zone \<longleftrightarrow> list_all (\<lambda>c. (of_char c :: nat) < 128) zone"

text \<open>\<^verbatim>\<open>_unmunge_zone\<close>: \<^verbatim>\<open>zone.replace('_plus_', '+').replace('_minus_', '-')\<close>.\<close>

definition unmunge_zone :: "string \<Rightarrow> string" where
  "unmunge_zone zone = str_replace ''_minus_'' ''-'' (str_replace ''_plus_'' ''+'' zone)"

text \<open>
  \<^verbatim>\<open>pytz.timezone\<close>: a name that is \<^verbatim>\<open>UTC\<close> in any case is \<^verbatim>\<open>pytz.utc\<close>; a name that is not ASCII
  raises \<^verbatim>\<open>UnknownTimeZoneError\<close> with the name as given; otherwise the name is rewritten by
  \<^verbatim>\<open>_unmunge_zone\<close> and looked up, and a miss raises \<^verbatim>\<open>UnknownTimeZoneError\<close> with the
  rewritten name.
\<close>

definition pytz_timezone :: "(string \<rightharpoonup> tzinfo) \<Rightarrow> string \<Rightarrow> error + tzinfo" where
  "pytz_timezone catalog zone =
     (if is_utc_name zone then Inr UTC
      else if \<not> is_ascii zone then Inl (UnknownTimeZoneError zone)
      else let zone = unmunge_zone zone
           in case catalog zone of
                None \<Rightarrow> Inl (UnknownTimeZoneError zone)
              | Some z \<Rightarrow> Inr z)"

definition microsoft_timezone_to_timezone :: "(string \<rightharpoonup> string) \<Rightarrow> string \<Rightarrow> error + string" where
  "microsoft_timezone_to_timezone win_tz tz =
     (case win_tz tz of
        None \<Rightarrow> Inl (KeyError tz)
      | Some t \<Rightarrow> Inr t)"

text \<open>
  \<^verbatim>\<open>ensure_tz_object\<close>: the \<^verbatim>\<open>except\<close> clause catches \<^verbatim>\<open>UnknownTimeZoneError\<close> only, the inner
  one \<^verbatim>\<open>KeyError\<close> only, and the retry \<^verbatim>\<open>pytz.timezone(tz)\<close> stands outside both. \<^verbatim>\<open>raise e\<close>
  raises again the exception of the first lookup, with the name that lookup gave it.
\<close>

definition ensure_tz_object ::
  "(string \<rightharpoonup> tzinfo) \<Rightarrow> (string \<rightharpoonup> string) \<Rightarrow> tz_arg \<Rightarrow> error + tzinfo" where
  "ensure_tz_object catalog win_tz tz_string_or_tz_obj =
     (case tz_string_or_tz_obj of
        TzObj z \<Rightarrow> Inr z
      | TzName name \<Rightarrow>
          (case pytz_timezone catalog name of
             Inr z \<Rightarrow> Inr z
           | Inl (UnknownTimeZoneError n) \<Rightarrow>
               (case microsoft_timezone_to_timezone win_tz name of
                  Inl (KeyError k) \<Rightarrow> Inl (UnknownTimeZoneError n)
                | Inl e' \<Rightarrow> Inl e'
                | Inr tz \<Rightarrow> pytz_timezone catalog tz)
           | Inl e \<Rightarrow> Inl e))"

section \<open>Instants and grid rounding\<close>

text \<open>
  For arithmetic a \<^verbatim>\<open>datetime\<close> is represented by its wall-clock value, counted in
  microseconds from \<^verbatim>\<open>datetime.min\<close> (0001-01-01T00:00:00), together with its \<^verbatim>\<open>tzinfo\<close>
  (\<open>None\<close> for a naive value); a \<^verbatim>\<open>timedelta\<close> is a number of microseconds. This is how
  the library itself adds a \<^verbatim>\<open>timedelta\<close> and takes the difference of two values that
  carry the same \<^verbatim>\<open>tzinfo\<close> object: on the wall clock, without consulting the offset.
\<close>

record instant =
  wall_us :: int
  zone :: "tzinfo option"

type_synonym py_timedelta = int

definition US_PER_DAY :: int where
  "US_PER_DAY = 86400000000"

definition MAX_US :: int where
  "MAX_US = MAXORDINAL * US_PER_DAY - 1"

definition valid_instant :: "instant \<Rightarrow> bool" where
  "valid_instant x \<longleftrightarrow> 0 \<le> wall_us x \<and> wall_us x \<le> MAX_US"

text \<open>\<^verbatim>\<open>datetime + timedelta\<close>: \<^verbatim>\<open>OverflowError\<close> outside \<^verbatim>\<open>datetime.min .. datetime.max\<close>.\<close>

definition instant_add :: "instant \<Rightarrow> py_timedelta \<Rightarrow> error + instant" where
  "instant_add x td =
     (let us = wall_us x + td in
      if 0 \<le> us \<and> us \<le> MAX_US then Inr (x\<lparr>wall_us := us\<rparr>) else Inl OverflowError)"

text \<open>\<^verbatim>\<open>datetime - timedelta\<close> is \<^verbatim>\<open>datetime + (-timedelta)\<close>.\<close>

definition instant_sub :: "instant \<Rightarrow> py_timedelta \<Rightarrow> error + instant" where
  "instant_sub x td = instant_add x (- td)"

text \<open>\<^verbatim>\<open>a - b\<close> for two values with the same \<^verbatim>\<open>tzinfo\<close>: the wall-clock difference.\<close>

definition instant_diff :: "instant \<Rightarrow> instant \<Rightarrow> py_timedelta" where
  "instant_diff a b = wall_us a - wall_us b"

text \<open>\<^verbatim>\<open>timedelta % timedelta\<close>: integer remainder of the microsecond counts with the sign of
  the divisor, as \<open>mod\<close> on \<open>int\<close>; \<^verbatim>\<open>ZeroDivisionError\<close> for a zero divisor.\<close>

definition timedelta_mod :: "py_timedelta \<Rightarrow> py_timedelta \<Rightarrow> error + py_timedelta" where
  "timedelta_mod a b = (if b = 0 then Inl ZeroDivisionError else Inr (a mod b))"

text \<open>\<^verbatim>\<open>delta or datetime.timedelta(**delta_kwargs)\<close>: a missing or zero \<open>delta\<close> is falsy.
  \<open>kw_delta\<close> is the value of \<^verbatim>\<open>datetime.timedelta(**delta_kwargs)\<close>.\<close>

definition delta_or :: "py_timedelta option \<Rightarrow> py_timedelta \<Rightarrow> py_timedelta" where
  "delta_or delta kw_delta =
     (case delta of
        None \<Rightarrow> kw_delta
      | Some d \<Rightarrow> if d = 0 then kw_delta else d)"

text \<open>\<^verbatim>\<open>datetime.min\<close>, or \<^verbatim>\<open>datetime.min.replace(tzinfo=datetime_obj.tzinfo)\<close> for an aware
  value: the epoch of the grid, in the input's own zone.\<close>

definition min_datetime_for :: "instant \<Rightarrow> instant" where
  "min_datetime_for datetime_obj =
     (if zone datetime_obj = None then \<lparr>wall_us = 0, zone = None\<rparr>
      else \<lparr>wall_us = 0, zone = zone datetime_obj\<rparr>)"

definition ceil_datetime :: "instant \<Rightarrow> py_timedelta option \<Rightarrow> py_timedelta \<Rightarrow> error + instant" where
  "ceil_datetime datetime_obj delta kw_delta =
     (let delta = delta_or delta kw_delta;
          min_datetime = min_datetime_for datetime_obj
      in case timedelta_mod (instant_diff min_datetime datetime_obj) delta of
           Inl e \<Rightarrow> Inl e
         | Inr m \<Rightarrow> instant_add datetime_obj m)"

definition floor_datetime :: "instant \<Rightarrow> py_timedelta option \<Rightarrow> py_timedelta \<Rightarrow> error + instant" where
  "floor_datetime datetime_obj delta kw_delta =
     (let delta = delta_or delta kw_delta;
          min_datetime = min_datetime_for datetime_obj
      in case timedelta_mod (instant_diff datetime_obj min_datetime) delta of
           Inl e \<Rightarrow> Inl e
         | Inr m \<Rightarrow> instant_sub datetime_obj m)"

definition get_next_even_15_minutes :: "instant \<Rightarrow> error + instant" where
  "get_next_even_15_minutes datetime_obj =
     ceil_datetime datetime_obj (Some (15 * 60 * 1000000)) 0"

text \<open>An instant is on the grid of a non-zero duration when its distance from the epoch is
  a multiple of the duration. (For a zero duration the remainder raises, and no instant is
  on the grid.)\<close>

definition on_grid :: "instant \<Rightarrow> py_timedelta \<Rightarrow> bool" where
  "on_grid x d \<longleftrightarrow> d \<noteq> 0 \<and> instant_diff x (min_datetime_for x) mod d = 0"

section \<open>Strings and integer literals\<close>

text \<open>
  A Python string is a list of characters; a character is a code point below 256.
  Indexing outside the string raises \<^verbatim>\<open>IndexError\<close>, a negative index counts from the end, and
  slicing never raises: its bounds are clamped to the string.
\<close>

definition py_index :: "string \<Rightarrow> int \<Rightarrow> error + char" where
  "py_index s i =
     (let n = int (length s); j = (if i < 0 then n + i else i)
      in if 0 \<le> j \<and> j < n then Inr (s ! nat j) else Inl IndexError)"

definition slice_bound :: "string \<Rightarrow> int \<Rightarrow> nat" where
  "slice_bound s i =
     (let n = int (length s) in nat (if i < 0 then max (n + i) 0 else min i n))"

text \<open>\<^verbatim>\<open>s[i:j]\<close> and \<^verbatim>\<open>s[i:]\<close>.\<close>

definition py_slice :: "string \<Rightarrow> int \<Rightarrow> int \<Rightarrow> string" where
  "py_slice s i j = take (slice_bound s j - slice_bound s i) (drop (slice_bound s i) s)"

definition py_slice_from :: "string \<Rightarrow> int \<Rightarrow> string" where
  "py_slice_from s i = drop (slice_bound s i) s"

definition is_digit :: "char \<Rightarrow> bool" where
  "is_digit c \<longleftrightarrow> c \<in> set ''0123456789''"

definition digit_val :: "char \<Rightarrow> int" where
  "digit_val c = int (of_char c) - 48"

text \<open>The characters \<^verbatim>\<open>int()\<close> strips from both ends of its argument: tab, line feed,
  vertical tab, form feed, carriage return, space, and of the code points from 128 to 255 the
  next-line character and the no-break space. (The separators 28 to 31 are not stripped.)\<close>

definition is_space :: "char \<Rightarrow> bool" where
  "is_space c \<longleftrightarrow>
     (of_char c :: nat) \<in> {9, 10, 11, 12, 13, 32, 133, 160}"

definition strip :: "string \<Rightarrow> string" where
  "strip s = rev (dropWhile is_space (rev (dropWhile is_space s)))"

text \<open>The digits of an integer literal after its first digit: single underscores may
  stand between digits. \<open>pending\<close> says that the previous character was an underscore.\<close>

fun int_digits :: "int \<Rightarrow> bool \<Rightarrow> string \<Rightarrow> int option" where
  "int_digits acc pending [] = (if pending then None else Some acc)"
| "int_digits acc pending (c # cs) =
     (if is_digit c then int_digits (acc * 10 + digit_val c) False cs
      else if c = CHR ''_'' \<and> \<not> pending then int_digits acc True cs
      else None)"

definition int_body :: "string \<Rightarrow> int option" where
  "int_body s =
     (case s of
        [] \<Rightarrow> None
      | c # cs \<Rightarrow> if is_digit c then int_digits (digit_val c) False cs else None)"

text \<open>
  \<^verbatim>\<open>repr(s)\<close> of a string, which the library's error messages quote: the string between
  single quotes, or between double quotes when it contains a single quote and no double
  quote; the backslash and the enclosing quote are escaped, tab, line feed and carriage
  return are written \<^verbatim>\<open>\t\<close>, \<^verbatim>\<open>\n\<close>, \<^verbatim>\<open>\r\<close>, and every other non-printable code point as
  \<^verbatim>\<open>\x\<close> and two hexadecimal digits.
\<close>

definition is_printable :: "char \<Rightarrow> bool" where
  "is_printable c \<longleftrightarrow>
     (let n = (of_char c :: nat) in (32 \<le> n \<and> n < 127) \<or> (160 < n \<and> n \<noteq> 173))"

definition hex_digit :: "nat \<Rightarrow> char" where
  "hex_digit n = ''0123456789abcdef'' ! n"

definition repr_char :: "char \<Rightarrow> char \<Rightarrow> string" where
  "repr_char quote c =
     (if c = quote \<or> c = CHR 0x5C then [CHR 0x5C, c]
      else if c = CHR 0x09 then [CHR 0x5C, CHR ''t'']
      else if c = CHR 0x0A then [CHR 0x5C, CHR ''n'']
      else if c = CHR 0x0D then [CHR 0x5C, CHR ''r'']
      else if \<not> is_printable c then
        [CHR 0x5C, CHR ''x'', hex_digit (of_char c div 16), hex_digit (of_char c mod 16)]
      else [c])"

definition py_repr :: "string \<Rightarrow> string" where
  "py_repr s =
     (let quote = (if CHR 0x27 \<in> set s \<and> CHR 0x22 \<notin> set s then CHR 0x22 else CHR 0x27)
      in quote # concat (map (repr_char quote) s) @ [quote])"

text \<open>\<^verbatim>\<open>int(s)\<close> for a string, base 10: optional surrounding white space, an optional sign,
  digits. Anything else raises \<^verbatim>\<open>ValueError\<close>; its message quotes at most 200 characters of
  \<^verbatim>\<open>repr(s)\<close>.\<close>

definition py_int :: "string \<Rightarrow> error + int" where
  "py_int s =
     (let t = strip s;
          r = (case t of
                 [] \<Rightarrow> None
               | c # cs \<Rightarrow>
                   if c = CHR ''+'' then int_body cs
                   else if c = CHR ''-'' then map_option uminus (int_body cs)
                   else int_body t)
      in case r of
           None \<Rightarrow> Inl (ValueError (''invalid literal for int() with base 10: '' @ take 200 (py_repr s)))
         | Some v \<Rightarrow> Inr v)"

section \<open>The datetime constructor\<close>

record datetime =
  year :: int
  month :: int
  day :: int
  hour :: int
  minute :: int
  second :: int
  microsecond :: int
  tzinfo :: "tzinfo option"

text \<open>\<^verbatim>\<open>datetime.datetime(year, month, day, hour, minute, second, microsecond, tzinfo=...)\<close>:
  the library checks the date fields, then the time fields, and raises \<^verbatim>\<open>ValueError\<close> for
  the first one out of range. (The library's message for the year also names the year.)\<close>

definition datetime_new ::
  "int \<Rightarrow> int \<Rightarrow> int \<Rightarrow> int \<Rightarrow> int \<Rightarrow> int \<Rightarrow> int \<Rightarrow> tzinfo option \<Rightarrow> error + datetime" where
  "datetime_new y m d hh mm ss us tz =
     (if \<not> (1 \<le> y \<and> y \<le> 9999) then Inl (ValueError ''year is out of range'')
      else if \<not> (1 \<le> m \<and> m \<le> 12) then Inl (ValueError ''month must be in 1..12'')
      else if \<not> (1 \<le> d \<and> d \<le> days_in_month y m) then
        Inl (ValueError ''day is out of range for month'')
      else if \<not> (0 \<le> hh \<and> hh \<le> 23) then Inl (ValueError ''hour must be in 0..23'')
      else if \<not> (0 \<le> mm \<and> mm \<le> 59) then Inl (ValueError ''minute must be in 0..59'')
      else if \<not> (0 \<le> ss \<and> ss \<le> 59) then Inl (ValueError ''second must be in 0..59'')
      else if \<not> (0 \<le> us \<and> us \<le> 999999) then
        Inl (ValueError ''microsecond must be in 0..999999'')
      else Inr \<lparr>year = y, month = m, day = d, hour = hh, minute = mm, second = ss,
                microsecond = us, tzinfo = tz\<rparr>)"

text \<open>The wall-clock value of a datetime as an instant.\<close>

definition to_instant :: "datetime \<Rightarrow> instant" where
  "to_instant dt =
     \<lparr>wall_us = (ymd2ord (year dt) (month dt) (day dt) - 1) * US_PER_DAY
                  + ((hour dt * 60 + minute dt) * 60 + second dt) * 1000000 + microsecond dt,
      zone = tzinfo dt\<rparr>"

section \<open>The fast timestamp parser\<close>

text \<open>The seconds of \<^verbatim>\<open>_fromisoformat\<close>: the \<^verbatim>\<open>try\<close> catches the \<^verbatim>\<open>IndexError\<close> of
  \<^verbatim>\<open>datetime_str[16]\<close>; a \<^verbatim>\<open>ValueError\<close> of \<^verbatim>\<open>int\<close> escapes it.\<close>

definition seconds_part :: "string \<Rightarrow> error + int" where
  "seconds_part datetime_str =
     (case py_index datetime_str 16 of
        Inl e \<Rightarrow> Inr 0
      | Inr c \<Rightarrow>
          if c = CHR '':'' then py_int (py_slice datetime_str 17 19) else Inr 0)"

text \<open>The fragment of a second, in microseconds.\<close>

definition fragment_digits :: "string \<Rightarrow> string" where
  "fragment_digits datetime_str = takeWhile is_digit (py_slice_from datetime_str 20)"

definition ms_part :: "string \<Rightarrow> error + int" where
  "ms_part datetime_str =
     (case py_index datetime_str 19 of
        Inl e \<Rightarrow> Inr 0
      | Inr c \<Rightarrow>
          if c = CHR ''.'' then
            (let fff = fragment_digits datetime_str in
             if length fff = 3 then and_then (py_int fff) (\<lambda>v. Inr (v * 1000))
             else if length fff = 6 then py_int fff
             else Inl (ValueError ''Invalid fragment size''))
          else Inr 0)"

text \<open>\<^verbatim>\<open>tzoffset(None, sign * (hours * 3600 + minutes * 60))\<close>, the operands converted from
  left to right.\<close>

definition tz_offset_of :: "char \<Rightarrow> string \<Rightarrow> string \<Rightarrow> error + tzinfo option" where
  "tz_offset_of sign_char hours minutes =
     and_then (py_int [sign_char, CHR ''1'']) (\<lambda>sg.
     and_then (py_int hours) (\<lambda>h.
     and_then (py_int minutes) (\<lambda>m.
       Inr (Some (TzOffset (sg * (h * 3600 + m * 60)))))))"

definition tz_part :: "string \<Rightarrow> error + tzinfo option" where
  "tz_part datetime_str =
     and_then (py_index datetime_str (- 1)) (\<lambda>c1.
       if c1 = CHR ''Z'' then Inr (Some UTC)
       else and_then (py_index datetime_str (- 6)) (\<lambda>c6.
         if c6 \<in> {CHR ''+'', CHR ''-''} then
           tz_offset_of c6 (py_slice datetime_str (- 5) (- 3)) (py_slice_from datetime_str (- 2))
         else and_then (py_index datetime_str (- 5)) (\<lambda>c5.
           if c5 \<in> {CHR ''+'', CHR ''-''} then
             tz_offset_of c5 (py_slice datetime_str (- 4) (- 2)) (py_slice_from datetime_str (- 2))
           else Inr None)))"

text \<open>The fixed-position check \<^verbatim>\<open>s[4] == s[7] == '-' and s[10] == 'T' and s[13] == ':'\<close>:
  both characters of the chained comparison are read before they are compared, and the
  later ones only when the earlier comparisons hold.\<close>

definition structure_check :: "string \<Rightarrow> error + bool" where
  "structure_check datetime_str =
     and_then (py_index datetime_str 4) (\<lambda>c4.
     and_then (py_index datetime_str 7) (\<lambda>c7.
       if \<not> (c4 = c7 \<and> c7 = CHR ''-'') then Inr False
       else and_then (py_index datetime_str 10) (\<lambda>c10.
         if c10 \<noteq> CHR ''T'' then Inr False
         else and_then (py_index datetime_str 13) (\<lambda>c13. Inr (c13 = CHR '':'')))))"

text \<open>\<^verbatim>\<open>_fromisoformat\<close>. The arguments of the constructor are converted from left to
  right, after the seconds, the fragment and the zone.\<close>

definition fromisoformat :: "string \<Rightarrow> error + datetime" where
  "fromisoformat datetime_str =
     and_then (structure_check datetime_str) (\<lambda>ok.
       if ok then
         and_then (seconds_part datetime_str) (\<lambda>seconds.
         and_then (ms_part datetime_str) (\<lambda>ms.
         and_then (tz_part datetime_str) (\<lambda>tz.
         and_then (py_int (py_slice datetime_str 0 4)) (\<lambda>y.
         and_then (py_int (py_slice datetime_str 5 7)) (\<lambda>mo.
         and_then (py_int (py_slice datetime_str 8 10)) (\<lambda>d.
         and_then (py_int (py_slice datetime_str 11 13)) (\<lambda>hh.
         and_then (py_int (py_slice datetime_str 14 16)) (\<lambda>mi.
           datetime_new (max 1 y) (max 1 mo) (max 1 d) hh mi seconds ms tz))))))))
       else Inl (ValueError (datetime_str @ '' is not in ISO 8601 format'')))"

text \<open>\<^verbatim>\<open>tz.localize(datetime_obj)\<close> of a catalog zone: it refuses a value that already has a
  \<^verbatim>\<open>tzinfo\<close>; a \<^verbatim>\<open>tzoffset\<close> object has no such method.\<close>

definition tz_localize :: "tzinfo \<Rightarrow> datetime \<Rightarrow> error + datetime" where
  "tz_localize tz datetime_obj =
     (case tz of
        TzOffset n \<Rightarrow> Inl AttributeError
      | _ \<Rightarrow>
          if tzinfo datetime_obj \<noteq> None then
            Inl (ValueError ''Not naive datetime (tzinfo is already set)'')
          else Inr (datetime_obj\<lparr>tzinfo := Some tz\<rparr>))"

definition localize ::
  "(string \<rightharpoonup> tzinfo) \<Rightarrow> (string \<rightharpoonup> string) \<Rightarrow> datetime \<Rightarrow> tz_arg \<Rightarrow> bool \<Rightarrow> error + datetime" where
  "localize catalog win_tz datetime_obj tz_string_or_tz_obj overwrite =
     and_then (ensure_tz_object catalog win_tz tz_string_or_tz_obj) (\<lambda>tz.
       if overwrite then tz_localize tz (datetime_obj\<lparr>tzinfo := None\<rparr>)
       else tz_localize tz datetime_obj)"

definition ensure_tz_info ::
  "(string \<rightharpoonup> tzinfo) \<Rightarrow> (string \<rightharpoonup> string) \<Rightarrow> datetime \<Rightarrow> tz_arg \<Rightarrow> error + datetime" where
  "ensure_tz_info catalog win_tz datetime_obj default_tz =
     (if tzinfo datetime_obj \<noteq> None then Inr datetime_obj
      else localize catalog win_tz datetime_obj default_tz False)"

text \<open>
  \<^verbatim>\<open>datetime_parse\<close>. The generic parser \<^verbatim>\<open>dateutil.parser.parse\<close> is external: it is the
  parameter \<open>parse_any\<close>. The result of the library's own \<^verbatim>\<open>fromisoformat\<close> is overwritten
  or its exception swallowed, so it has no effect. \<^verbatim>\<open>except Exception\<close> catches every
  error of \<open>fromisoformat\<close>. A missing or empty \<open>default_tz\<close> is falsy.
\<close>

definition datetime_parse ::
  "(string \<rightharpoonup> tzinfo) \<Rightarrow> (string \<rightharpoonup> string) \<Rightarrow> (string \<Rightarrow> error + datetime)
     \<Rightarrow> string \<Rightarrow> tz_arg option \<Rightarrow> error + datetime" where
  "datetime_parse catalog win_tz parse_any datetime_str default_tz =
     and_then (case fromisoformat datetime_str of
                 Inl e \<Rightarrow> parse_any datetime_str
               | Inr dt \<Rightarrow> Inr dt) (\<lambda>dt.
       if default_tz = None \<or> default_tz = Some (TzName []) then Inr dt
       else ensure_tz_info catalog win_tz dt (the default_tz))"

text \<open>The offset of a fixed zone in seconds, and the UTC-equivalent of an aware value with a
  fixed offset, in microseconds from \<^verbatim>\<open>datetime.min\<close>. A named zone needs the rules of the
  catalog and has no fixed offset.\<close>

definition fixed_utcoffset :: "tzinfo \<Rightarrow> int option" where
  "fixed_utcoffset tz = (case tz of UTC \<Rightarrow> Some 0 | TzOffset n \<Rightarrow> Some n | Zone z \<Rightarrow> None)"

definition utc_equivalent :: "datetime \<Rightarrow> int option" where
  "utc_equivalent dt =
     (case tzinfo dt of
        None \<Rightarrow> None
      | Some tz \<Rightarrow>
          (case fixed_utcoffset tz of
             None \<Rightarrow> None
           | Some off \<Rightarrow> Some (wall_us (to_instant dt) - off * 1000000)))"

text \<open>The value of a string of decimal digits.\<close>

definition digits_value :: "string \<Rightarrow> int" where
  "digits_value ds = foldl (\<lambda>acc c. acc * 10 + digit_val c) 0 ds"

text \<open>
  The timestamp profile without its zone suffix:
  \<^verbatim>\<open>YYYY-MM-DDThh:mm\<close>, optionally \<^verbatim>\<open>:ss\<close>, optionally \<^verbatim>\<open>.fff\<close> or \<^verbatim>\<open>.ffffff\<close>.
\<close>

definition minute_core :: "string \<Rightarrow> bool" where
  "minute_core c \<longleftrightarrow>
     length c = 16
     \<and> list_all (\<lambda>i. is_digit (c ! i)) [0, 1, 2, 3, 5, 6, 8, 9, 11, 12, 14, 15]
     \<and> c ! 4 = CHR ''-'' \<and> c ! 7 = CHR ''-'' \<and> c ! 10 = CHR ''T'' \<and> c ! 13 = CHR '':''"

definition fraction_tail :: "string \<Rightarrow> bool" where
  "fraction_tail f \<longleftrightarrow>
     (case f of
        [] \<Rightarrow> False
      | p # ds \<Rightarrow> p = CHR ''.'' \<and> list_all is_digit ds \<and> (length ds = 3 \<or> length ds = 6))"

definition seconds_tail :: "string \<Rightarrow> bool" where
  "seconds_tail r \<longleftrightarrow>
     (case r of
        p # s1 # s2 # f \<Rightarrow>
          p = CHR '':'' \<and> is_digit s1 \<and> is_digit s2 \<and> (f = [] \<or> fraction_tail f)
      | _ \<Rightarrow> False)"

definition profile_core :: "string \<Rightarrow> bool" where
  "profile_core c \<longleftrightarrow>
     minute_core (take 16 c) \<and> (drop 16 c = [] \<or> seconds_tail (drop 16 c))"

text \<open>The offset in seconds that a sign, two hour digits and two minute digits denote.\<close>

definition offset_seconds :: "char \<Rightarrow> string \<Rightarrow> string \<Rightarrow> int" where
  "offset_seconds sg hh mm =
     (if sg = CHR ''-'' then - 1 else 1) * (digits_value hh * 3600 + digits_value mm * 60)"

section \<open>Numbers\<close>

text \<open>
  A Python \<^verbatim>\<open>float\<close> is a binary64 value: a rational that the format represents, an
  infinity or a NaN. The two zeros are not distinguished (they are equal in Python).
  \<open>binary64\<close> rounds a rational to the nearest representable value, ties to the even
  significand: with \<open>e\<close> the exponent of the leading bit (not below \<open>- 1022\<close>, which
  gives gradual underflow), the value is rounded to a multiple \<open>m\<close> of \<open>2 powi (e - 52)\<close>,
  and it overflows to an infinity when the rounded value reaches \<open>2 powi 1024\<close>. Every
  arithmetic operation of the format is the exact operation followed by this rounding.
\<close>

datatype pyfloat = Fin rat | PosInf | NegInf | NaN

text \<open>The exponent of the leading bit of a positive rational.\<close>

definition floor_log2 :: "rat \<Rightarrow> int" where
  "floor_log2 a =
     (let (n, d) = quotient_of a; k = bitlen n - bitlen d
      in if 2 powi k \<le> a then k else k - 1)"

definition round_half_even :: "rat \<Rightarrow> int" where
  "round_half_even t =
     (let f = \<lfloor>t\<rfloor>; r = t - of_int f
      in if r < 1 / 2 then f else if 1 / 2 < r then f + 1 else if even f then f else f + 1)"

definition binary64 :: "rat \<Rightarrow> pyfloat" where
  "binary64 q =
     (if q = 0 then Fin 0
      else let a = \<bar>q\<bar>;
               e = max (floor_log2 a) (- 1022);
               m = round_half_even (a / 2 powi (e - 52))
           in if 1024 \<le> e \<or> (e = 1023 \<and> 2 ^ 53 \<le> m)
              then (if q < 0 then NegInf else PosInf)
              else Fin ((if q < 0 then - 1 else 1) * (of_int m * 2 powi (e - 52))))"

definition fneg :: "pyfloat \<Rightarrow> pyfloat" where
  "fneg x = (case x of Fin q \<Rightarrow> Fin (- q) | PosInf \<Rightarrow> NegInf | NegInf \<Rightarrow> PosInf | NaN \<Rightarrow> NaN)"

definition fadd :: "pyfloat \<Rightarrow> pyfloat \<Rightarrow> pyfloat" where
  "fadd x y =
     (case (x, y) of
        (Fin a, Fin b) \<Rightarrow> binary64 (a + b)
      | (NaN, _) \<Rightarrow> NaN
      | (_, NaN) \<Rightarrow> NaN
      | (PosInf, NegInf) \<Rightarrow> NaN
      | (NegInf, PosInf) \<Rightarrow> NaN
      | (PosInf, _) \<Rightarrow> PosInf
      | (NegInf, _) \<Rightarrow> NegInf
      | (_, PosInf) \<Rightarrow> PosInf
      | (_, NegInf) \<Rightarrow> NegInf)"

definition fsub :: "pyfloat \<Rightarrow> pyfloat \<Rightarrow> pyfloat" where
  "fsub x y = fadd x (fneg y)"

definition fmul :: "pyfloat \<Rightarrow> pyfloat \<Rightarrow> pyfloat" where
  "fmul x y =
     (case (x, y) of
        (Fin a, Fin b) \<Rightarrow> binary64 (a * b)
      | (NaN, _) \<Rightarrow> NaN
      | (_, NaN) \<Rightarrow> NaN
      | (Fin a, PosInf) \<Rightarrow> (if a = 0 then NaN else if 0 < a then PosInf else NegInf)
      | (Fin a, NegInf) \<Rightarrow> (if a = 0 then NaN else if 0 < a then NegInf else PosInf)
      | (PosInf, Fin b) \<Rightarrow> (if b = 0 then NaN else if 0 < b then PosInf else NegInf)
      | (NegInf, Fin b) \<Rightarrow> (if b = 0 then NaN else if 0 < b then NegInf else PosInf)
      | (PosInf, PosInf) \<Rightarrow> PosInf
      | (NegInf, NegInf) \<Rightarrow> PosInf
      | (PosInf, NegInf) \<Rightarrow> NegInf
      | (NegInf, PosInf) \<Rightarrow> NegInf)"

text \<open>\<^verbatim>\<open>x / y\<close> for floats: \<^verbatim>\<open>ZeroDivisionError\<close> for a zero divisor.\<close>

definition fdiv :: "pyfloat \<Rightarrow> pyfloat \<Rightarrow> error + pyfloat" where
  "fdiv x y =
     (case (x, y) of
        (Fin a, Fin b) \<Rightarrow> if b = 0 then Inl ZeroDivisionError else Inr (binary64 (a / b))
      | (NaN, Fin b) \<Rightarrow> if b = 0 then Inl ZeroDivisionError else Inr NaN
      | (PosInf, Fin b) \<Rightarrow>
          if b = 0 then Inl ZeroDivisionError else Inr (if 0 < b then PosInf else NegInf)
      | (NegInf, Fin b) \<Rightarrow>
          if b = 0 then Inl ZeroDivisionError else Inr (if 0 < b then NegInf else PosInf)
      | (Fin a, NaN) \<Rightarrow> Inr NaN
      | (Fin a, _) \<Rightarrow> Inr (Fin 0)
      | (_, _) \<Rightarrow> Inr NaN)"

text \<open>A Python number is an \<^verbatim>\<open>int\<close> or a \<^verbatim>\<open>float\<close>.\<close>

datatype pynum = PyInt int | PyFloat pyfloat

text \<open>The conversion of an \<^verbatim>\<open>int\<close> operand of mixed arithmetic: correctly rounded,
  \<^verbatim>\<open>OverflowError\<close> when the integer is too large.\<close>

definition float_of_int :: "int \<Rightarrow> error + pyfloat" where
  "float_of_int i =
     (case binary64 (of_int i) of
        Fin q \<Rightarrow> Inr (Fin q)
      | _ \<Rightarrow> Inl OverflowError)"

definition to_float :: "pynum \<Rightarrow> error + pyfloat" where
  "to_float x = (case x of PyInt i \<Rightarrow> float_of_int i | PyFloat f \<Rightarrow> Inr f)"

definition py_add :: "pynum \<Rightarrow> pynum \<Rightarrow> error + pynum" where
  "py_add x y =
     (case (x, y) of
        (PyInt a, PyInt b) \<Rightarrow> Inr (PyInt (a + b))
      | _ \<Rightarrow> and_then (to_float x) (\<lambda>a. and_then (to_float y) (\<lambda>b. Inr (PyFloat (fadd a b)))))"

definition py_sub :: "pynum \<Rightarrow> pynum \<Rightarrow> error + pynum" where
  "py_sub x y =
     (case (x, y) of
        (PyInt a, PyInt b) \<Rightarrow> Inr (PyInt (a - b))
      | _ \<Rightarrow> and_then (to_float x) (\<lambda>a. and_then (to_float y) (\<lambda>b. Inr (PyFloat (fsub a b)))))"

definition py_mul :: "pynum \<Rightarrow> pynum \<Rightarrow> error + pynum" where
  "py_mul x y =
     (case (x, y) of
        (PyInt a, PyInt b) \<Rightarrow> Inr (PyInt (a * b))
      | _ \<Rightarrow> and_then (to_float x) (\<lambda>a. and_then (to_float y) (\<lambda>b. Inr (PyFloat (fmul a b)))))"

text \<open>Truncation of a rational toward zero.\<close>

definition trunc :: "rat \<Rightarrow> int" where
  "trunc q = (if 0 \<le> q then \<lfloor>q\<rfloor> else \<lceil>q\<rceil>)"

text \<open>\<^verbatim>\<open>int(x)\<close> for a number: a float is truncated toward zero; an infinity raises
  \<^verbatim>\<open>OverflowError\<close> and a NaN \<^verbatim>\<open>ValueError\<close>.\<close>

definition int_of_num :: "pynum \<Rightarrow> error + int" where
  "int_of_num x =
     (case x of
        PyInt i \<Rightarrow> Inr i
      | PyFloat (Fin q) \<Rightarrow> Inr (trunc q)
      | PyFloat NaN \<Rightarrow> Inl (ValueError ''cannot convert float NaN to integer'')
      | PyFloat _ \<Rightarrow> Inl OverflowError)"

text \<open>\<^verbatim>\<open>i == x\<close> for an \<^verbatim>\<open>int\<close> and a number: the comparison is exact.\<close>

definition int_eq_num :: "int \<Rightarrow> pynum \<Rightarrow> bool" where
  "int_eq_num i x =
     (case x of
        PyInt j \<Rightarrow> i = j
      | PyFloat (Fin q) \<Rightarrow> of_int i = q
      | PyFloat _ \<Rightarrow> False)"

text \<open>
  \<^verbatim>\<open>float(s)\<close> for a decimal numeral: digits, optionally a point and digits (one of the
  two digit strings may be empty). The value is the numeral's, correctly rounded. These
  are the only strings the duration grammar hands to \<^verbatim>\<open>float\<close>; the further forms that
  Python accepts (sign, exponent, underscores, \<^verbatim>\<open>inf\<close>, \<^verbatim>\<open>nan\<close>, surrounding white space)
  are outside this model, which answers \<^verbatim>\<open>ValueError\<close> for them.
\<close>

definition float_of_decimal :: "string \<Rightarrow> error + pyfloat" where
  "float_of_decimal s =
     (let ip = takeWhile is_digit s; rest = dropWhile is_digit s
      in case rest of
           [] \<Rightarrow> if ip = []
                 then Inl (ValueError (''could not convert string to float: '' @ py_repr s))
                 else Inr (binary64 (of_int (digits_value ip)))
         | p # fp \<Rightarrow>
             if p = CHR ''.'' \<and> list_all is_digit fp \<and> \<not> (ip = [] \<and> fp = []) then
               Inr (binary64 (of_int (digits_value (ip @ fp)) / 10 ^ length fp))
             else Inl (ValueError (''could not convert string to float: '' @ py_repr s)))"

section \<open>Regular expressions\<close>

text \<open>
  The part of Python's \<^verbatim>\<open>re\<close> that the duration grammar uses: literals, character
  classes, a greedy \<^verbatim>\<open>+\<close> on a class, sequencing, the greedy optional \<^verbatim>\<open>?\<close>, named groups,
  \<^verbatim>\<open>^\<close>, \<^verbatim>\<open>$\<close>, \<^verbatim>\<open>\b\<close> and negative lookahead. (An unnamed group does not appear in
  \<^verbatim>\<open>groupdict()\<close> and is its content.)
\<close>

datatype regex =
    Eps
  | Chr char
  | Cls "char list"
  | ClsPlus "char list"
  | Seq regex regex
  | Opt regex
  | Grp string regex
  | Bol
  | Eol
  | WordBoundary
  | NegLookahead regex

text \<open>A word character of \<^verbatim>\<open>\b\<close> among the code points below 256: alphanumeric or the
  underscore.\<close>

definition is_word :: "char \<Rightarrow> bool" where
  "is_word c \<longleftrightarrow>
     (let n = (of_char c :: nat) in
        (48 \<le> n \<and> n \<le> 57) \<or> (65 \<le> n \<and> n \<le> 90) \<or> n = 95 \<or> (97 \<le> n \<and> n \<le> 122)
      \<or> n = 170 \<or> n = 178 \<or> n = 179 \<or> n = 181 \<or> n = 185 \<or> n = 186
      \<or> (188 \<le> n \<and> n \<le> 190) \<or> (192 \<le> n \<and> n \<le> 214) \<or> (216 \<le> n \<and> n \<le> 246)
      \<or> (248 \<le> n \<and> n \<le> 255))"

text \<open>
  A backtracking matcher in continuation style. The position is the character before
  it (\<open>None\<close> at the start of the text) and the rest of the text; the continuation matches
  what follows and returns the named groups of a successful match. Alternatives are
  tried in Python's order: a greedy repetition or option first with more, then with less.
\<close>

type_synonym position = "char option \<times> string"

type_synonym groups = "(string \<times> string) list"

fun star_cls :: "char list \<Rightarrow> (position \<Rightarrow> groups option) \<Rightarrow> char option \<Rightarrow> string \<Rightarrow> groups option" where
  "star_cls cs k p [] = k (p, [])"
| "star_cls cs k p (x # xs) =
     (if x \<in> set cs then
        (case star_cls cs k (Some x) xs of
           Some g \<Rightarrow> Some g
         | None \<Rightarrow> k (p, x # xs))
      else k (p, x # xs))"

primrec rmatch :: "regex \<Rightarrow> position \<Rightarrow> (position \<Rightarrow> groups option) \<Rightarrow> groups option" where
  "rmatch Eps st k = k st"
| "rmatch (Chr c) st k =
     (case snd st of
        [] \<Rightarrow> None
      | x # xs \<Rightarrow> if x = c then k (Some x, xs) else None)"
| "rmatch (Cls cs) st k =
     (case snd st of
        [] \<Rightarrow> None
      | x # xs \<Rightarrow> if x \<in> set cs then k (Some x, xs) else None)"
| "rmatch (ClsPlus cs) st k =
     (case snd st of
        [] \<Rightarrow> None
      | x # xs \<Rightarrow> if x \<in> set cs then star_cls cs k (Some x) xs else None)"
| "rmatch (Seq a b) st k = rmatch a st (\<lambda>st'. rmatch b st' k)"
| "rmatch (Opt r) st k =
     (case rmatch r st k of
        Some g \<Rightarrow> Some g
      | None \<Rightarrow> k st)"
| "rmatch (Grp name r) st k =
     rmatch r st (\<lambda>st'.
       map_option ((#) (name, take (length (snd st) - length (snd st')) (snd st))) (k st'))"
| "rmatch Bol st k = (if fst st = None then k st else None)"
| "rmatch Eol st k = (if snd st = [] \<or> snd st = [CHR 0x0A] then k st else None)"
| "rmatch WordBoundary st k =
     (let word_before = (case fst st of None \<Rightarrow> False | Some c \<Rightarrow> is_word c);
          word_after = (case snd st of [] \<Rightarrow> False | c # cs \<Rightarrow> is_word c)
      in if word_before \<noteq> word_after then k st else None)"
| "rmatch (NegLookahead r) st k =
     (case rmatch r st (\<lambda>st'. Some []) of
        Some g \<Rightarrow> None
      | None \<Rightarrow> k st)"

text \<open>\<^verbatim>\<open>pattern.match(text)\<close>: a match at the start of the text, as its named groups.\<close>

definition regex_match :: "regex \<Rightarrow> string \<Rightarrow> groups option" where
  "regex_match r s = rmatch r (None, s) (\<lambda>st. Some [])"

definition seqs :: "regex list \<Rightarrow> regex" where
  "seqs rs = foldr Seq rs Eps"

section \<open>The duration grammar\<close>

text \<open>\<^verbatim>\<open>[0-9]+([,.][0-9]+)?\<close>\<close>

definition number :: regex where
  "number = Seq (ClsPlus ''0123456789'') (Opt (Seq (Cls '',.'') (ClsPlus ''0123456789'')))"

text \<open>\<^verbatim>\<open>(?P<name>[0-9]+([,.][0-9]+)?U)?\<close> for a unit letter \<open>U\<close>.\<close>

definition field :: "string \<Rightarrow> char \<Rightarrow> regex" where
  "field name unit = Opt (Grp name (Seq number (Chr unit)))"

text \<open>The grammar after the optional sign: \<^verbatim>\<open>P(?!\b)\<close>, the date fields, the optional time
  section, \<^verbatim>\<open>$\<close>.\<close>

definition duration_body :: regex where
  "duration_body =
     seqs [Chr CHR ''P'', NegLookahead WordBoundary,
           field ''years'' CHR ''Y'', field ''months'' CHR ''M'',
           field ''weeks'' CHR ''W'', field ''days'' CHR ''D'',
           Opt (seqs [Grp ''separator'' (Chr CHR ''T''),
                      field ''hours'' CHR ''H'', field ''minutes'' CHR ''M'',
                      field ''seconds'' CHR ''S'']),
           Eol]"

definition ISO8601_DURATION :: regex where
  "ISO8601_DURATION = Seq Bol (Seq (Opt (Grp ''sign'' (Cls ''+-''))) duration_body)"

text \<open>The names of the groups of a regular expression.\<close>

primrec group_names :: "regex \<Rightarrow> string set" where
  "group_names Eps = {}"
| "group_names (Chr c) = {}"
| "group_names (Cls cs) = {}"
| "group_names (ClsPlus cs) = {}"
| "group_names (Seq a b) = group_names a \<union> group_names b"
| "group_names (Opt r) = group_names r"
| "group_names (Grp name r) = insert name (group_names r)"
| "group_names Bol = {}"
| "group_names Eol = {}"
| "group_names WordBoundary = {}"
| "group_names (NegLookahead r) = {}"

section \<open>The duration parser\<close>

text \<open>
  The keyword arguments of the call \<^verbatim>\<open>relativedelta(years=..., months=..., days=...,
  weeks=..., hours=..., minutes=..., seconds=...)\<close>. What the library's constructor makes
  of them is outside the repository.
\<close>

record relativedelta =
  years :: pynum
  months :: pynum
  days :: pynum
  weeks :: pynum
  hours :: pynum
  minutes :: pynum
  seconds :: pynum

text \<open>\<^verbatim>\<open>val[:-1].replace(',', '.')\<close>\<close>

definition unit_stripped :: "string \<Rightarrow> string" where
  "unit_stripped val = map (\<lambda>c. if c = CHR '','' then CHR ''.'' else c) (butlast val)"

definition parse_single_duration_value :: "string option \<Rightarrow> error + pynum" where
  "parse_single_duration_value val =
     (case val of
        None \<Rightarrow> Inr (PyInt 0)
      | Some v \<Rightarrow> and_then (float_of_decimal (unit_stripped v)) (\<lambda>f. Inr (PyFloat f)))"

definition parse_duration_years :: "string option \<Rightarrow> error + pynum \<times> pynum" where
  "parse_duration_years year_val =
     (case year_val of
        None \<Rightarrow> Inr (PyInt 0, PyInt 0)
      | Some v \<Rightarrow>
          and_then (parse_single_duration_value year_val) (\<lambda>val.
          and_then (int_of_num val) (\<lambda>years.
            if int_eq_num years val then Inr (PyInt years, PyInt 0)
            else
              and_then (py_sub val (PyInt years)) (\<lambda>fracs.
              and_then (py_mul fracs (PyInt 12)) (\<lambda>months.
              and_then (int_of_num months) (\<lambda>whole.
                if \<not> int_eq_num whole months then
                  Inl (ValueError (''Decimal reprecentation \"'' @ v
                         @ ''\" of year is ambiguous, and not supported''))
                else Inr (PyInt years, months)))))))"

definition parse_duration_months :: "string option \<Rightarrow> error + pynum" where
  "parse_duration_months month_val =
     (case month_val of
        None \<Rightarrow> Inr (PyInt 0)
      | Some v \<Rightarrow>
          and_then (parse_single_duration_value month_val) (\<lambda>val.
          and_then (int_of_num val) (\<lambda>whole.
            if \<not> int_eq_num whole val then
              Inl (ValueError (''Non-integer month \"'' @ v
                     @ ''\" is ambiguous, and not supported.''))
            else Inr (PyInt whole))))"

text \<open>The delta that the fallback builds from the fields of a parsed date-time.\<close>

definition delta_of_datetime :: "datetime \<Rightarrow> relativedelta" where
  "delta_of_datetime dt =
     \<lparr>years = PyInt (year dt), months = PyInt (month dt), days = PyInt (day dt),
      weeks = PyInt 0, hours = PyInt (hour dt), minutes = PyInt (minute dt),
      seconds = PyInt (second dt)\<rparr>"

text \<open>\<^verbatim>\<open>sign * _parse_single_duration_value(matches[name])\<close>\<close>

definition signed_value :: "int \<Rightarrow> string option \<Rightarrow> error + pynum" where
  "signed_value sign val =
     and_then (parse_single_duration_value val) (\<lambda>v. py_mul (PyInt sign) v)"

text \<open>
  The \<^verbatim>\<open>return relativedelta(...)\<close> of \<^verbatim>\<open>parse_iso_duration\<close> for the groups of a match. The
  arguments are evaluated in the order they are written, after the years.
\<close>

definition matched_delta :: "int \<Rightarrow> (string \<rightharpoonup> string) \<Rightarrow> error + relativedelta" where
  "matched_delta sign matches =
     and_then (parse_duration_years (matches ''years'')) (\<lambda>(years, extra_months).
     and_then (py_mul (PyInt sign) years) (\<lambda>a_years.
     and_then (parse_duration_months (matches ''months'')) (\<lambda>ms.
     and_then (py_add ms extra_months) (\<lambda>total_months.
     and_then (py_mul (PyInt sign) total_months) (\<lambda>a_months.
     and_then (signed_value sign (matches ''days'')) (\<lambda>a_days.
     and_then (signed_value sign (matches ''weeks'')) (\<lambda>a_weeks.
     and_then (signed_value sign (matches ''hours'')) (\<lambda>a_hours.
     and_then (signed_value sign (matches ''minutes'')) (\<lambda>a_minutes.
     and_then (signed_value sign (matches ''seconds'')) (\<lambda>a_seconds.
       Inr \<lparr>years = a_years, months = a_months, days = a_days, weeks = a_weeks,
             hours = a_hours, minutes = a_minutes, seconds = a_seconds\<rparr>))))))))))"

text \<open>
  \<^verbatim>\<open>parse_iso_duration\<close>. In the fallback every exception is swallowed and replaced by
  the final \<^verbatim>\<open>ValueError\<close>.
\<close>

definition parse_iso_duration ::
  "(string \<rightharpoonup> tzinfo) \<Rightarrow> (string \<rightharpoonup> string) \<Rightarrow> (string \<Rightarrow> error + datetime)
     \<Rightarrow> string \<Rightarrow> error + relativedelta" where
  "parse_iso_duration catalog win_tz parse_any duration_str =
     (case regex_match ISO8601_DURATION duration_str of
        None \<Rightarrow>
          (if take 1 duration_str = ''P''
           then (case datetime_parse catalog win_tz parse_any (py_slice_from duration_str 1) None of
                   Inr dt \<Rightarrow> Inr (delta_of_datetime dt)
                 | Inl e \<Rightarrow> Inl (ValueError (''Could not parse '' @ duration_str)))
           else Inl (ValueError (''Could not parse '' @ duration_str)))
      | Some m \<Rightarrow>
          (let matches = map_of m;
               sign = (if matches ''sign'' = Some ''-'' then - 1 else 1)
           in matched_delta sign matches))"

text \<open>The negation of a number and of every component of a delta.\<close>

definition py_neg :: "pynum \<Rightarrow> pynum" where
  "py_neg x = (case x of PyInt i \<Rightarrow> PyInt (- i) | PyFloat f \<Rightarrow> PyFloat (fneg f))"

definition delta_neg :: "relativedelta \<Rightarrow> relativedelta" where
  "delta_neg d =
     \<lparr>years = py_neg (years d), months = py_neg (months d), days = py_neg (days d),
      weeks = py_neg (weeks d), hours = py_neg (hours d), minutes = py_neg (minutes d),
      seconds = py_neg (seconds d)\<rparr>"

text \<open>The all-zero delta.\<close>

definition zero_delta :: relativedelta where
  "zero_delta =
     \<lparr>years = PyInt 0, months = PyInt 0, days = PyInt 0, weeks = PyInt 0,
      hours = PyInt 0, minutes = PyInt 0, seconds = PyInt 0\<rparr>"

section \<open>The current offset in hours\<close>

text \<open>\<^verbatim>\<open>timedelta.total_seconds()\<close>: the microseconds divided by \<^verbatim>\<open>10**6\<close>, a true division
  of integers, correctly rounded.\<close>

definition total_seconds :: "py_timedelta \<Rightarrow> pyfloat" where
  "total_seconds td = binary64 (of_int td / 1000000)"

text \<open>
  \<^verbatim>\<open>get_current_utc_offset\<close>. The rules of a zone are external: \<open>utcoffset tz now\<close> is the
  \<^verbatim>\<open>timedelta\<close> (or the exception) of \<^verbatim>\<open>tz.utcoffset(now)\<close>, and \<open>utcnow\<close> is the value of
  \<^verbatim>\<open>datetime.datetime.utcnow()\<close>. The quotient is a float division by the integer 3600,
  and \<^verbatim>\<open>int\<close> truncates it.
\<close>

definition get_current_utc_offset ::
  "(string \<rightharpoonup> tzinfo) \<Rightarrow> (string \<rightharpoonup> string) \<Rightarrow> (tzinfo \<Rightarrow> instant \<Rightarrow> error + py_timedelta)
     \<Rightarrow> instant \<Rightarrow> tz_arg \<Rightarrow> error + int" where
  "get_current_utc_offset catalog win_tz utcoffset utcnow tz_string_or_tz_obj =
     and_then (ensure_tz_object catalog win_tz tz_string_or_tz_obj) (\<lambda>tz.
     and_then (utcoffset tz utcnow) (\<lambda>off.
     and_then (float_of_int 3600) (\<lambda>d.
     and_then (fdiv (total_seconds off) d) (\<lambda>hours.
       int_of_num (PyFloat hours)))))"

text \<open>An instance of the parameter \<open>utcoffset\<close> for the zones whose offset does not depend
  on rules: \<^verbatim>\<open>pytz.utc\<close> and the \<^verbatim>\<open>tzoffset\<close> objects, in microseconds. It holds no rules of named
  zones and answers with an error for them.\<close>

definition fixed_zone_utcoffset :: "tzinfo \<Rightarrow> instant \<Rightarrow> error + py_timedelta" where
  "fixed_zone_utcoffset tz now =
     (case fixed_utcoffset tz of
        None \<Rightarrow> Inl (ValueError ''no rules for a named zone'')
      | Some secs \<Rightarrow> Inr (secs * 1000000))"

section \<open>Business-day stepping: proofs\<close>

lemma bd_iff: "is_business_day d \<longleftrightarrow> d mod 7 \<in> {1,2,3,4,5}"
  unfolding is_business_day_def isoweekday_def Let_def by auto

lemma loop_found:
  "p d \<Longrightarrow> next_timedelta_loop inc p d = Some (Inr d)"
  by (subst next_timedelta_loop.simps) simp

lemma loop_step:
  "\<not> p d \<Longrightarrow> inc d = Inr d' \<Longrightarrow> next_timedelta_loop inc p d = next_timedelta_loop inc p d'"
  by (subst next_timedelta_loop.simps) simp

lemma loop_forward:
  "p (d + int n) \<Longrightarrow> \<forall>k<n. \<not> p (d + int k) \<Longrightarrow> 0 < d \<Longrightarrow> d + int n \<le> MAXORDINAL
   \<Longrightarrow> next_timedelta_loop (\<lambda>d. timedelta d 1) p d = Some (Inr (d + int n))"
proof (induction n arbitrary: d)
  case 0
  then show ?case by (simp add: loop_found)
next
  case (Suc n)
  have np: "\<not> p d" using Suc.prems(2) by force
  have inc: "timedelta d 1 = Inr (d + 1)"
    using Suc.prems(3,4) by (simp add: timedelta_def date_add_def)
  have "next_timedelta_loop (\<lambda>d. timedelta d 1) p (d + 1) = Some (Inr (d + 1 + int n))"
  proof (rule Suc.IH)
    show "p (d + 1 + int n)" using Suc.prems(1) by (simp add: add.commute add.left_commute)
    show "\<forall>k<n. \<not> p (d + 1 + int k)"
    proof (intro allI impI)
      fix k assume "k < n"
      then have "\<not> p (d + int (Suc k))" using Suc.prems(2) by blast
      then show "\<not> p (d + 1 + int k)" by (simp add: add.commute add.left_commute)
    qed
    show "0 < d + 1" using Suc.prems(3) by simp
    show "d + 1 + int n \<le> MAXORDINAL" using Suc.prems(4) by simp
  qed
  then show ?case using loop_step[of p d "\<lambda>d. timedelta d 1" "d + 1", OF np inc]
    by (simp add: add.commute add.left_commute)
qed

lemma loop_backward:
  "p (d - int n) \<Longrightarrow> \<forall>k<n. \<not> p (d - int k) \<Longrightarrow> d \<le> MAXORDINAL \<Longrightarrow> 0 < d - int n
   \<Longrightarrow> next_timedelta_loop (\<lambda>d. timedelta d (- 1)) p d = Some (Inr (d - int n))"
proof (induction n arbitrary: d)
  case 0
  then show ?case by (simp add: loop_found)
next
  case (Suc n)
  have np: "\<not> p d" using Suc.prems(2) by force
  have inc: "timedelta d (- 1) = Inr (d - 1)"
    using Suc.prems(3,4) by (simp add: timedelta_def date_add_def)
  have "next_timedelta_loop (\<lambda>d. timedelta d (- 1)) p (d - 1) = Some (Inr (d - 1 - int n))"
  proof (rule Suc.IH)
    show "p (d - 1 - int n)" using Suc.prems(1) by (simp add: algebra_simps)
    show "\<forall>k<n. \<not> p (d - 1 - int k)"
    proof (intro allI impI)
      fix k assume "k < n"
      then have "\<not> p (d - int (Suc k))" using Suc.prems(2) by blast
      then show "\<not> p (d - 1 - int k)" by (simp add: algebra_simps)
    qed
    show "d - 1 \<le> MAXORDINAL" using Suc.prems(3) by simp
    show "0 < d - 1 - int n" using Suc.prems(4) by simp
  qed
  then show ?case using loop_step[of p d "\<lambda>d. timedelta d (- 1)" "d - 1", OF np inc]
    by (simp add: algebra_simps)
qed

lemma bd_shift: "is_business_day (d + k) \<longleftrightarrow> (d mod 7 + k) mod 7 \<in> {1,2,3,4,5}"
  by (simp add: bd_iff mod_add_left_eq)

lemma mod7_cases:
  fixes d :: int
  obtains "d mod 7 \<in> {1,2,3,4,5}" | "d mod 7 = 0" | "d mod 7 = 6"
proof -
  have "d mod 7 = 0 \<or> d mod 7 = 1 \<or> d mod 7 = 2 \<or> d mod 7 = 3 \<or> d mod 7 = 4
      \<or> d mod 7 = 5 \<or> d mod 7 = 6"
    by presburger
  then show ?thesis using that by auto
qed

lemma weekend_gap_forward:
  "\<exists>n<3. is_business_day (d + int n) \<and> (\<forall>k<n. \<not> is_business_day (d + int k))"
proof (cases d rule: mod7_cases)
  case 1
  then have "is_business_day (d + int 0)" by (simp add: bd_iff)
  then show ?thesis by (intro exI[of _ 0]) simp
next
  case 2
  then have "\<not> is_business_day d" "is_business_day (d + int 1)"
    by (simp_all add: bd_shift[of d "int 0", simplified] bd_shift[of d "int 1", simplified] bd_shift[of d "int 2", simplified])
  then show ?thesis by (intro exI[of _ 1]) simp
next
  case 3
  then have "\<not> is_business_day (d + int 0)" "\<not> is_business_day (d + int 1)" "is_business_day (d + int 2)"
    by (simp_all add: bd_shift[of d "int 0", simplified] bd_shift[of d "int 1", simplified] bd_shift[of d "int 2", simplified])
  then show ?thesis by (intro exI[of _ 2]) (auto simp: less_Suc_eq numeral_2_eq_2)
qed

lemma bd_shift_back: "is_business_day (d - k) \<longleftrightarrow> (d mod 7 - k) mod 7 \<in> {1,2,3,4,5}"
  by (simp add: bd_iff mod_diff_left_eq)

lemma weekend_gap_backward:
  "\<exists>n<3. is_business_day (d - int n) \<and> (\<forall>k<n. \<not> is_business_day (d - int k))"
proof (cases d rule: mod7_cases)
  case 1
  then have "is_business_day (d - int 0)" by (simp add: bd_iff)
  then show ?thesis by (intro exI[of _ 0]) simp
next
  case 2
  then have "\<not> is_business_day (d - int 0)" "\<not> is_business_day (d - int 1)" "is_business_day (d - int 2)"
    by (simp_all add: bd_shift_back[of d "int 0", simplified] bd_shift_back[of d "int 1", simplified] bd_shift_back[of d "int 2", simplified])
  then show ?thesis by (intro exI[of _ 2]) (auto simp: less_Suc_eq numeral_2_eq_2)
next
  case 3
  then have "\<not> is_business_day d" "is_business_day (d - int 1)"
    by (simp_all add: bd_shift_back[of d "int 0", simplified] bd_shift_back[of d "int 1", simplified] bd_shift_back[of d "int 2", simplified])
  then show ?thesis by (intro exI[of _ 1]) simp
qed

lemma MAXORDINAL_friday: "MAXORDINAL mod 7 = 5"
  by (simp add: MAXORDINAL_def)

lemma next_business_day_found:
  assumes "1 \<le> d" "d < MAXORDINAL"
  shows "\<exists>r. get_next_business_day d = Some (Inr r) \<and> d < r \<and> r \<le> d + 3 \<and> r \<le> MAXORDINAL
     \<and> is_business_day r \<and> (\<forall>k. d < k \<and> k < r \<longrightarrow> \<not> is_business_day k)"
proof -
  obtain n where n: "n < 3" "is_business_day (d + 1 + int n)"
      "\<forall>k<n. \<not> is_business_day (d + 1 + int k)"
    using weekend_gap_forward[of "d + 1"] by blast
  have le: "d + 1 + int n \<le> MAXORDINAL"
  proof (rule ccontr)
    assume "\<not> d + 1 + int n \<le> MAXORDINAL"
    then have "nat (MAXORDINAL - d - 1) < n" "d + 1 + int (nat (MAXORDINAL - d - 1)) = MAXORDINAL"
      using assms(2) by auto
    then have "\<not> is_business_day MAXORDINAL" using n(3) by metis
    then show False using MAXORDINAL_friday by (simp add: bd_iff)
  qed
  have inc: "timedelta d 1 = Inr (d + 1)"
    using assms by (simp add: timedelta_def date_add_def)
  have "next_timedelta_loop (\<lambda>d. timedelta d 1) is_business_day (d + 1) = Some (Inr (d + 1 + int n))"
    using loop_forward[OF n(2) n(3) _ le] assms(1) by simp
  then have res: "get_next_business_day d = Some (Inr (d + 1 + int n))"
    by (simp add: get_next_business_day_def get_next_timedelta_def inc)
  have gap: "\<forall>k. d < k \<and> k < d + 1 + int n \<longrightarrow> \<not> is_business_day k"
  proof (intro allI impI)
    fix k assume k: "d < k \<and> k < d + 1 + int n"
    then have "nat (k - d - 1) < n" "k = d + 1 + int (nat (k - d - 1))" by auto
    then show "\<not> is_business_day k" using n(3) by metis
  qed
  show ?thesis using res n le gap by (intro exI[of _ "d + 1 + int n"]) auto
qed


lemma previous_business_day_found:
  assumes "1 < d" "d \<le> MAXORDINAL"
  shows "\<exists>r. get_previous_business_day d = Some (Inr r) \<and> r < d \<and> d - 3 \<le> r \<and> 1 \<le> r
     \<and> is_business_day r \<and> (\<forall>k. r < k \<and> k < d \<longrightarrow> \<not> is_business_day k)"
proof -
  obtain n where n: "n < 3" "is_business_day (d - 1 - int n)"
      "\<forall>k<n. \<not> is_business_day (d - 1 - int k)"
    using weekend_gap_backward[of "d - 1"] by blast
  have ge: "0 < d - 1 - int n"
  proof (rule ccontr)
    assume "\<not> 0 < d - 1 - int n"
    then have "nat (d - 2) < n" "d - 1 - int (nat (d - 2)) = 1"
      using assms(1) by auto
    then have "\<not> is_business_day 1" using n(3) by metis
    then show False by (simp add: bd_iff)
  qed
  have inc: "timedelta d (- 1) = Inr (d - 1)"
    using assms by (simp add: timedelta_def date_add_def)
  have "next_timedelta_loop (\<lambda>d. timedelta d (- 1)) is_business_day (d - 1)
          = Some (Inr (d - 1 - int n))"
    using loop_backward[OF n(2) n(3) _ ge] assms(2) by simp
  then have res: "get_previous_business_day d = Some (Inr (d - 1 - int n))"
    by (simp add: get_previous_business_day_def get_next_timedelta_def inc)
  have gap: "\<forall>k. d - 1 - int n < k \<and> k < d \<longrightarrow> \<not> is_business_day k"
  proof (intro allI impI)
    fix k assume k: "d - 1 - int n < k \<and> k < d"
    then have "nat (d - 1 - k) < n" "k = d - 1 - int (nat (d - 1 - k))" by auto
    then show "\<not> is_business_day k" using n(3) by metis
  qed
  show ?thesis using res n ge gap by (intro exI[of _ "d - 1 - int n"]) auto
qed

lemma next_business_day_overflow:
  "get_next_business_day MAXORDINAL = Some (Inl OverflowError)"
  by (simp add: get_next_business_day_def get_next_timedelta_def timedelta_def date_add_def)

lemma previous_business_day_overflow:
  "get_previous_business_day 1 = Some (Inl OverflowError)"
  by (simp add: get_previous_business_day_def get_next_timedelta_def timedelta_def date_add_def)

lemma weekday_cases: "isoweekday d \<in> {1, 2, 3, 4, 5, 6, 7}"
  unfolding isoweekday_def by (cases d rule: mod7_cases) auto

lemma not_business_day_weekend: "\<not> is_business_day d \<longleftrightarrow> isoweekday d \<in> {6, 7}"
  using weekday_cases[of d] by (auto simp: is_business_day_def)

text \<open>
  Claim C7 (amended). For every date \<open>d\<close> other than the last representable date
  9999-12-31, \<open>get_next_business_day d\<close> returns the first Monday-to-Friday date strictly
  later than \<open>d\<close>: every date strictly between is a Saturday or a Sunday, so the result is
  at most three days away, and it is never \<open>d\<close> itself. For every date other than the first
  representable date 0001-01-01, \<open>get_previous_business_day d\<close> returns the last
  Monday-to-Friday date strictly earlier than \<open>d\<close>. At the two boundary dates the first
  one-day step leaves the range of dates and the call raises \<open>OverflowError\<close>.
\<close>

theorem business_day_stepping:
  assumes "1 \<le> d" and "d \<le> MAXORDINAL"
  shows "(d < MAXORDINAL \<longrightarrow>
            (\<exists>r. get_next_business_day d = Some (Inr r) \<and> d < r \<and> r \<le> d + 3
               \<and> isoweekday r \<in> {1, 2, 3, 4, 5}
               \<and> (\<forall>k. d < k \<and> k < r \<longrightarrow> isoweekday k \<in> {6, 7})))
       \<and> (d = MAXORDINAL \<longrightarrow> get_next_business_day d = Some (Inl OverflowError))
       \<and> (1 < d \<longrightarrow>
            (\<exists>r. get_previous_business_day d = Some (Inr r) \<and> r < d \<and> d - 3 \<le> r
               \<and> isoweekday r \<in> {1, 2, 3, 4, 5}
               \<and> (\<forall>k. r < k \<and> k < d \<longrightarrow> isoweekday k \<in> {6, 7})))
       \<and> (d = 1 \<longrightarrow> get_previous_business_day d = Some (Inl OverflowError))"
proof (intro conjI impI)
  assume "d < MAXORDINAL"
  from next_business_day_found[OF assms(1) this]
  show "\<exists>r. get_next_business_day d = Some (Inr r) \<and> d < r \<and> r \<le> d + 3
          \<and> isoweekday r \<in> {1, 2, 3, 4, 5}
          \<and> (\<forall>k. d < k \<and> k < r \<longrightarrow> isoweekday k \<in> {6, 7})"
    unfolding not_business_day_weekend[symmetric]
    by (auto simp: is_business_day_def)
next
  assume "d = MAXORDINAL"
  then show "get_next_business_day d = Some (Inl OverflowError)"
    by (simp add: next_business_day_overflow)
next
  assume "1 < d"
  from previous_business_day_found[OF this assms(2)]
  show "\<exists>r. get_previous_business_day d = Some (Inr r) \<and> r < d \<and> d - 3 \<le> r
          \<and> isoweekday r \<in> {1, 2, 3, 4, 5}
          \<and> (\<forall>k. r < k \<and> k < d \<longrightarrow> isoweekday k \<in> {6, 7})"
    unfolding not_business_day_weekend[symmetric]
    by (auto simp: is_business_day_def)
next
  assume "d = 1"
  then show "get_previous_business_day d = Some (Inl OverflowError)"
    by (simp add: previous_business_day_overflow)
qed

lemma ord_2018_02_16: "ymd2ord 2018 2 16 = 736741"
  by (simp add: ymd2ord_def days_before_year_def days_before_month_def is_leap_def)

theorem business_day_stepping_witness:
  "1 \<le> ymd2ord 2018 2 16 \<and> ymd2ord 2018 2 16 \<le> MAXORDINAL \<and> ymd2ord 2018 2 16 < MAXORDINAL
   \<and> 1 < ymd2ord 2018 2 16
   \<and> (\<exists>r. get_next_business_day (ymd2ord 2018 2 16) = Some (Inr r)
          \<and> ymd2ord 2018 2 16 < r \<and> r \<le> ymd2ord 2018 2 16 + 3
          \<and> isoweekday r \<in> {1, 2, 3, 4, 5})
   \<and> (\<exists>r. get_previous_business_day (ymd2ord 2018 2 16) = Some (Inr r)
          \<and> r < ymd2ord 2018 2 16 \<and> ymd2ord 2018 2 16 - 3 \<le> r
          \<and> isoweekday r \<in> {1, 2, 3, 4, 5})"
proof -
  have r: "1 \<le> ymd2ord 2018 2 16" "ymd2ord 2018 2 16 \<le> MAXORDINAL"
    "ymd2ord 2018 2 16 < MAXORDINAL" "1 < ymd2ord 2018 2 16"
    by (simp_all add: ord_2018_02_16 MAXORDINAL_def)
  show ?thesis
    using r business_day_stepping[OF r(1) r(2)] by blast
qed

text \<open>
  The claim as stated fails at the last date: 9999-12-31 is a Friday, the step to the
  next day raises, and no date is returned. Likewise for the step back from 0001-01-01.
\<close>

theorem business_day_stepping_counterexample:
  "ymd2ord 9999 12 31 = MAXORDINAL
   \<and> get_next_business_day (ymd2ord 9999 12 31) = Some (Inl OverflowError)
   \<and> get_previous_business_day (ymd2ord 1 1 1) = Some (Inl OverflowError)"
proof -
  have a: "ymd2ord 9999 12 31 = MAXORDINAL"
    by (simp add: ymd2ord_def days_before_year_def days_before_month_def is_leap_def MAXORDINAL_def)
  have b: "ymd2ord 1 1 1 = 1"
    by (simp add: ymd2ord_def days_before_year_def days_before_month_def is_leap_def)
  show ?thesis
    by (simp add: a b next_business_day_overflow previous_business_day_overflow)
qed

section \<open>Zone resolution: proofs\<close>

lemma ensure_tz_object_obj: "ensure_tz_object catalog win_tz (TzObj z) = Inr z"
  by (simp add: ensure_tz_object_def)

lemma pytz_timezone_error:
  assumes "pytz_timezone catalog zn = Inl e"
  shows "e = UnknownTimeZoneError (if is_ascii zn then unmunge_zone zn else zn)"
  using assms by (auto simp: pytz_timezone_def Let_def split: if_splits option.splits)

lemma pytz_timezone_Inr_iff:
  "pytz_timezone catalog zn = Inr z \<longleftrightarrow>
     (is_utc_name zn \<and> z = UTC)
     \<or> (\<not> is_utc_name zn \<and> is_ascii zn \<and> catalog (unmunge_zone zn) = Some z)"
  by (auto simp: pytz_timezone_def Let_def split: if_splits option.splits)

lemma pytz_timezone_Inl_iff:
  "(\<exists>e. pytz_timezone catalog zn = Inl e) \<longleftrightarrow>
     \<not> is_utc_name zn \<and> (\<not> is_ascii zn \<or> catalog (unmunge_zone zn) = None)"
  by (auto simp: pytz_timezone_def Let_def split: if_splits option.splits)

lemma ensure_tz_object_hit:
  "pytz_timezone catalog name = Inr z \<Longrightarrow> ensure_tz_object catalog win_tz (TzName name) = Inr z"
  by (simp add: ensure_tz_object_def)

lemma ensure_tz_object_miss_miss:
  assumes "pytz_timezone catalog name = Inl e" and "win_tz name = None"
  shows "ensure_tz_object catalog win_tz (TzName name) = Inl e"
  using assms pytz_timezone_error[OF assms(1)]
  by (simp add: ensure_tz_object_def microsoft_timezone_to_timezone_def)

lemma ensure_tz_object_miss_hit:
  assumes "pytz_timezone catalog name = Inl e" and "win_tz name = Some t"
  shows "ensure_tz_object catalog win_tz (TzName name) = pytz_timezone catalog t"
  using assms pytz_timezone_error[OF assms(1)]
  by (simp add: ensure_tz_object_def microsoft_timezone_to_timezone_def)

text \<open>
  Claim C8 (amended). For every string identifier, \<open>ensure_tz_object\<close> first looks it up
  in the primary catalog (\<open>pytz_timezone\<close>) and returns the hit. On a miss it translates
  the identifier through the platform-native-name table. When the table has no entry
  either, it fails with the \<open>UnknownTimeZoneError\<close> of the first lookup, which carries the
  identifier as the catalog looked it up: with \<^verbatim>\<open>_plus_\<close> and \<^verbatim>\<open>_minus_\<close> rewritten to the
  signs (the identifier as given when it is not ASCII, or has neither). When the table
  gives a translation, the result is the primary catalog's answer for the translation:
  the zone found or, on a second miss, \<open>UnknownTimeZoneError\<close> carrying the translated
  identifier (rewritten likewise). So the call fails exactly when the primary lookup
  misses and either the table lookup or the retry misses. The primary lookup itself
  answers \<^verbatim>\<open>pytz.utc\<close> for \<^verbatim>\<open>UTC\<close> in any case and otherwise what the database holds under
  the rewritten ASCII name.
\<close>

theorem ensure_tz_object_lookup_order:
  "(\<forall>z. pytz_timezone catalog name = Inr z \<longrightarrow>
        ensure_tz_object catalog win_tz (TzName name) = Inr z)
   \<and> ((\<exists>e. pytz_timezone catalog name = Inl e) \<and> win_tz name = None \<longrightarrow>
        ensure_tz_object catalog win_tz (TzName name)
          = Inl (UnknownTimeZoneError (if is_ascii name then unmunge_zone name else name)))
   \<and> (\<forall>t z. (\<exists>e. pytz_timezone catalog name = Inl e) \<and> win_tz name = Some t
            \<and> pytz_timezone catalog t = Inr z \<longrightarrow>
        ensure_tz_object catalog win_tz (TzName name) = Inr z)
   \<and> (\<forall>t. (\<exists>e. pytz_timezone catalog name = Inl e) \<and> win_tz name = Some t
          \<and> (\<exists>e. pytz_timezone catalog t = Inl e) \<longrightarrow>
        ensure_tz_object catalog win_tz (TzName name)
          = Inl (UnknownTimeZoneError (if is_ascii t then unmunge_zone t else t)))
   \<and> ((\<exists>e. ensure_tz_object catalog win_tz (TzName name) = Inl e) \<longleftrightarrow>
        (\<exists>e. pytz_timezone catalog name = Inl e)
        \<and> (win_tz name = None \<or> (\<exists>t e. win_tz name = Some t \<and> pytz_timezone catalog t = Inl e)))
   \<and> (\<forall>z. pytz_timezone catalog name = Inr z \<longleftrightarrow>
          (is_utc_name name \<and> z = UTC)
          \<or> (\<not> is_utc_name name \<and> is_ascii name \<and> catalog (unmunge_zone name) = Some z))
   \<and> ((\<exists>e. pytz_timezone catalog name = Inl e) \<longleftrightarrow>
          \<not> is_utc_name name \<and> (\<not> is_ascii name \<or> catalog (unmunge_zone name) = None))"
proof (intro conjI allI impI)
  fix z assume "pytz_timezone catalog name = Inr z"
  then show "ensure_tz_object catalog win_tz (TzName name) = Inr z"
    by (rule ensure_tz_object_hit)
next
  assume a: "(\<exists>e. pytz_timezone catalog name = Inl e) \<and> win_tz name = None"
  then obtain e where e: "pytz_timezone catalog name = Inl e" by blast
  show "ensure_tz_object catalog win_tz (TzName name)
          = Inl (UnknownTimeZoneError (if is_ascii name then unmunge_zone name else name))"
    using ensure_tz_object_miss_miss[OF e] a pytz_timezone_error[OF e] by simp
next
  fix t z
  assume a: "(\<exists>e. pytz_timezone catalog name = Inl e) \<and> win_tz name = Some t
            \<and> pytz_timezone catalog t = Inr z"
  then obtain e where e: "pytz_timezone catalog name = Inl e" by blast
  show "ensure_tz_object catalog win_tz (TzName name) = Inr z"
    using ensure_tz_object_miss_hit[OF e] a by simp
next
  fix t
  assume a: "(\<exists>e. pytz_timezone catalog name = Inl e) \<and> win_tz name = Some t
          \<and> (\<exists>e. pytz_timezone catalog t = Inl e)"
  then obtain e where e: "pytz_timezone catalog name = Inl e" by blast
  from a obtain e' where e': "pytz_timezone catalog t = Inl e'" by blast
  show "ensure_tz_object catalog win_tz (TzName name)
          = Inl (UnknownTimeZoneError (if is_ascii t then unmunge_zone t else t))"
    using ensure_tz_object_miss_hit[OF e] a e' pytz_timezone_error[OF e'] by simp
next
  show "(\<exists>e. ensure_tz_object catalog win_tz (TzName name) = Inl e) \<longleftrightarrow>
        (\<exists>e. pytz_timezone catalog name = Inl e)
        \<and> (win_tz name = None \<or> (\<exists>t e. win_tz name = Some t \<and> pytz_timezone catalog t = Inl e))"
  proof (cases "pytz_timezone catalog name")
    case (Inr z)
    then show ?thesis by (simp add: ensure_tz_object_hit)
  next
    case (Inl e)
    note miss = this
    show ?thesis
    proof (cases "win_tz name")
      case None
      then show ?thesis using miss by (simp add: ensure_tz_object_miss_miss[OF miss])
    next
      case (Some t)
      then show ?thesis using miss by (simp add: ensure_tz_object_miss_hit[OF miss])
    qed
  qed
next
  fix z
  show "pytz_timezone catalog name = Inr z \<longleftrightarrow>
          (is_utc_name name \<and> z = UTC)
          \<or> (\<not> is_utc_name name \<and> is_ascii name \<and> catalog (unmunge_zone name) = Some z)"
    by (rule pytz_timezone_Inr_iff)
next
  show "(\<exists>e. pytz_timezone catalog name = Inl e) \<longleftrightarrow>
          \<not> is_utc_name name \<and> (\<not> is_ascii name \<or> catalog (unmunge_zone name) = None)"
    by (rule pytz_timezone_Inl_iff)
qed

text \<open>The catalog and the table of the repository's own tests: \<^verbatim>\<open>FLE Standard Time\<close> is not a
  catalog name and translates to \<^verbatim>\<open>Europe/Kiev\<close>; \<^verbatim>\<open>asd asd\<close> is in neither. With a table that
  translates to an unknown name, the error carries the translation.\<close>

theorem ensure_tz_object_lookup_order_witness:
  "pytz_timezone [''Europe/Kiev'' \<mapsto> Zone ''Europe/Kiev''] ''Europe/Kiev'' = Inr (Zone ''Europe/Kiev'')
   \<and> ensure_tz_object [''Europe/Kiev'' \<mapsto> Zone ''Europe/Kiev''] [''FLE Standard Time'' \<mapsto> ''Europe/Kiev'']
      (TzName ''Europe/Kiev'') = Inr (Zone ''Europe/Kiev'')
   \<and> pytz_timezone [''Europe/Kiev'' \<mapsto> Zone ''Europe/Kiev''] ''FLE Standard Time''
      = Inl (UnknownTimeZoneError ''FLE Standard Time'')
   \<and> ensure_tz_object [''Europe/Kiev'' \<mapsto> Zone ''Europe/Kiev''] [''FLE Standard Time'' \<mapsto> ''Europe/Kiev'']
      (TzName ''FLE Standard Time'') = Inr (Zone ''Europe/Kiev'')
   \<and> pytz_timezone [''Europe/Kiev'' \<mapsto> Zone ''Europe/Kiev''] ''asd asd''
      = Inl (UnknownTimeZoneError ''asd asd'')
   \<and> ensure_tz_object [''Europe/Kiev'' \<mapsto> Zone ''Europe/Kiev''] [''FLE Standard Time'' \<mapsto> ''Europe/Kiev'']
      (TzName ''asd asd'') = Inl (UnknownTimeZoneError ''asd asd'')
   \<and> pytz_timezone [''Europe/Kiev'' \<mapsto> Zone ''Europe/Kiev''] ''Europe/Kyiv''
      = Inl (UnknownTimeZoneError ''Europe/Kyiv'')
   \<and> ensure_tz_object [''Europe/Kiev'' \<mapsto> Zone ''Europe/Kiev''] [''FLE Standard Time'' \<mapsto> ''Europe/Kyiv'']
      (TzName ''FLE Standard Time'') = Inl (UnknownTimeZoneError ''Europe/Kyiv'')"
proof -
  let ?c = "[''Europe/Kiev'' \<mapsto> Zone ''Europe/Kiev'']"
  let ?w = "[''FLE Standard Time'' \<mapsto> ''Europe/Kiev'']"
  let ?w' = "[''FLE Standard Time'' \<mapsto> ''Europe/Kyiv'']"
  have p1: "pytz_timezone ?c ''Europe/Kiev'' = Inr (Zone ''Europe/Kiev'')" by code_simp
  have p2: "pytz_timezone ?c ''FLE Standard Time'' = Inl (UnknownTimeZoneError ''FLE Standard Time'')"
    by code_simp
  have p3: "pytz_timezone ?c ''asd asd'' = Inl (UnknownTimeZoneError ''asd asd'')" by code_simp
  have p4: "pytz_timezone ?c ''Europe/Kyiv'' = Inl (UnknownTimeZoneError ''Europe/Kyiv'')"
    by code_simp
  have n3: "(if is_ascii ''asd asd'' then unmunge_zone ''asd asd'' else ''asd asd'') = ''asd asd''"
    by code_simp
  have n4: "(if is_ascii ''Europe/Kyiv'' then unmunge_zone ''Europe/Kyiv'' else ''Europe/Kyiv'')
              = ''Europe/Kyiv''"
    by code_simp
  have w1: "?w ''FLE Standard Time'' = Some ''Europe/Kiev''" by simp
  have w2: "?w ''asd asd'' = None" by simp
  have w3: "?w' ''FLE Standard Time'' = Some ''Europe/Kyiv''" by simp
  have b: "(\<exists>e. pytz_timezone ?c ''FLE Standard Time'' = Inl e) \<and> ?w ''FLE Standard Time'' = Some ''Europe/Kiev''
             \<and> pytz_timezone ?c ''Europe/Kiev'' = Inr (Zone ''Europe/Kiev'')"
    by (intro conjI exI, rule p2, rule w1, rule p1)
  have c: "(\<exists>e. pytz_timezone ?c ''asd asd'' = Inl e) \<and> ?w ''asd asd'' = None"
    by (intro conjI exI, rule p3, rule w2)
  have d: "(\<exists>e. pytz_timezone ?c ''FLE Standard Time'' = Inl e) \<and> ?w' ''FLE Standard Time'' = Some ''Europe/Kyiv''
             \<and> (\<exists>e. pytz_timezone ?c ''Europe/Kyiv'' = Inl e)"
    by (intro conjI exI, rule p2, rule w3, rule p4)
  note t1 = ensure_tz_object_lookup_order[of ?c "''Europe/Kiev''" ?w, THEN conjunct1,
      THEN spec, THEN mp, OF p1]
  note t2 = ensure_tz_object_lookup_order[of ?c "''FLE Standard Time''" ?w, THEN conjunct2,
      THEN conjunct2, THEN conjunct1, THEN spec, THEN spec, THEN mp, OF b]
  note t3 = ensure_tz_object_lookup_order[of ?c "''asd asd''" ?w, THEN conjunct2,
      THEN conjunct1, THEN mp, OF c, unfolded n3]
  note t4 = ensure_tz_object_lookup_order[of ?c "''FLE Standard Time''" ?w', THEN conjunct2,
      THEN conjunct2, THEN conjunct2, THEN conjunct1, THEN spec, THEN mp, OF d, unfolded n4]
  show ?thesis
    by (intro conjI, rule p1, rule t1, rule p2, rule t2, rule p3, rule t3, rule p4, rule t4)
qed

text \<open>
  The claim as stated fails in two ways. When the table translates the identifier to a
  name the catalog does not have, the call fails although the table lookup succeeded,
  and the error carries the translated identifier. And when both lookups fail, the error
  carries the identifier as the catalog rewrote it, which is not the original one for
  \<^verbatim>\<open>asd_plus_asd\<close>.
\<close>

theorem ensure_tz_object_lookup_order_counterexample:
  "[''FLE Standard Time'' \<mapsto> ''Europe/Kyiv''] ''FLE Standard Time'' = Some ''Europe/Kyiv''
   \<and> ensure_tz_object [''Europe/Kiev'' \<mapsto> Zone ''Europe/Kiev''] [''FLE Standard Time'' \<mapsto> ''Europe/Kyiv'']
        (TzName ''FLE Standard Time'') = Inl (UnknownTimeZoneError ''Europe/Kyiv'')
   \<and> ensure_tz_object [''Europe/Kiev'' \<mapsto> Zone ''Europe/Kiev''] [''FLE Standard Time'' \<mapsto> ''Europe/Kyiv'']
        (TzName ''FLE Standard Time'') \<noteq> Inl (UnknownTimeZoneError ''FLE Standard Time'')
   \<and> [''Europe/Kiev'' \<mapsto> Zone ''Europe/Kiev''] ''asd_plus_asd'' = None
   \<and> [''FLE Standard Time'' \<mapsto> ''Europe/Kiev''] ''asd_plus_asd'' = None
   \<and> ensure_tz_object [''Europe/Kiev'' \<mapsto> Zone ''Europe/Kiev''] [''FLE Standard Time'' \<mapsto> ''Europe/Kiev'']
        (TzName ''asd_plus_asd'') = Inl (UnknownTimeZoneError ''asd+asd'')
   \<and> ensure_tz_object [''Europe/Kiev'' \<mapsto> Zone ''Europe/Kiev''] [''FLE Standard Time'' \<mapsto> ''Europe/Kiev'']
        (TzName ''asd_plus_asd'') \<noteq> Inl (UnknownTimeZoneError ''asd_plus_asd'')"
proof -
  let ?c = "[''Europe/Kiev'' \<mapsto> Zone ''Europe/Kiev'']"
  let ?w = "[''FLE Standard Time'' \<mapsto> ''Europe/Kiev'']"
  let ?w' = "[''FLE Standard Time'' \<mapsto> ''Europe/Kyiv'']"
  have a: "ensure_tz_object ?c ?w' (TzName ''FLE Standard Time'')
             = Inl (UnknownTimeZoneError ''Europe/Kyiv'')"
    by code_simp
  have b: "ensure_tz_object ?c ?w (TzName ''asd_plus_asd'') = Inl (UnknownTimeZoneError ''asd+asd'')"
    by code_simp
  show ?thesis
    unfolding a b by simp
qed
section \<open>Grid rounding: proofs\<close>

lemma instant_add_zero: "valid_instant x \<Longrightarrow> instant_add x 0 = Inr x"
  by (simp add: instant_add_def valid_instant_def)

lemma min_datetime_for_eq: "min_datetime_for x = \<lparr>wall_us = 0, zone = zone x\<rparr>"
  by (simp add: min_datetime_for_def)

lemma ceil_datetime_formula:
  "delta_or delta kw \<noteq> 0 \<Longrightarrow>
   ceil_datetime x delta kw =
     instant_add x (instant_diff (min_datetime_for x) x mod delta_or delta kw)"
  by (simp add: ceil_datetime_def timedelta_mod_def Let_def)

lemma floor_datetime_formula:
  "delta_or delta kw \<noteq> 0 \<Longrightarrow>
   floor_datetime x delta kw =
     instant_sub x (instant_diff x (min_datetime_for x) mod delta_or delta kw)"
  by (simp add: floor_datetime_def timedelta_mod_def Let_def)

lemma on_grid_neg_mod:
  assumes "on_grid x d"
  shows "instant_diff (min_datetime_for x) x mod d = 0"
proof -
  have "instant_diff x (min_datetime_for x) mod d = 0" using assms by (simp add: on_grid_def)
  then have "d dvd instant_diff x (min_datetime_for x)" by (simp add: mod_eq_0_iff_dvd)
  then have "d dvd - instant_diff x (min_datetime_for x)" by simp
  moreover have "- instant_diff x (min_datetime_for x) = instant_diff (min_datetime_for x) x"
    by (simp add: instant_diff_def)
  ultimately show ?thesis by (simp add: mod_eq_0_iff_dvd)
qed

lemma ceil_on_grid:
  "valid_instant x \<Longrightarrow> on_grid x d \<Longrightarrow> ceil_datetime x (Some d) kw = Inr x"
  using on_grid_neg_mod[of x d]
  by (simp add: ceil_datetime_formula delta_or_def on_grid_def instant_add_zero)

lemma floor_on_grid:
  "valid_instant x \<Longrightarrow> on_grid x d \<Longrightarrow> floor_datetime x (Some d) kw = Inr x"
  by (simp add: floor_datetime_formula delta_or_def on_grid_def instant_sub_def instant_add_zero)

text \<open>The results in wall-clock microseconds.\<close>

lemma instant_update: "x\<lparr>wall_us := u\<rparr> = \<lparr>wall_us = u, zone = zone x\<rparr>"
  by (cases x) simp

lemma ceil_datetime_value:
  assumes "d \<noteq> 0"
  shows "ceil_datetime x (Some d) kw =
           (if 0 \<le> wall_us x + (- wall_us x) mod d \<and> wall_us x + (- wall_us x) mod d \<le> MAX_US
            then Inr \<lparr>wall_us = wall_us x + (- wall_us x) mod d, zone = zone x\<rparr>
            else Inl OverflowError)"
  using assms
  by (simp add: ceil_datetime_def timedelta_mod_def delta_or_def instant_diff_def
      min_datetime_for_def instant_add_def instant_update Let_def)

lemma floor_datetime_value:
  assumes "d \<noteq> 0"
  shows "floor_datetime x (Some d) kw =
           (if 0 \<le> wall_us x - wall_us x mod d \<and> wall_us x - wall_us x mod d \<le> MAX_US
            then Inr \<lparr>wall_us = wall_us x - wall_us x mod d, zone = zone x\<rparr>
            else Inl OverflowError)"
  using assms
  by (simp add: floor_datetime_def timedelta_mod_def delta_or_def instant_diff_def
      min_datetime_for_def instant_sub_def instant_add_def instant_update Let_def)

lemma ceil_mod_eq: "(w :: int) + (- w) mod d = - ((- w) div d * d)"
proof -
  have "(- w) div d * d + (- w) mod d = - w" by simp
  then show ?thesis by linarith
qed

lemma floor_mod_eq: "(w :: int) - w mod d = w div d * d"
  by (simp add: minus_mod_eq_div_mult)

lemma floor_datetime_pos:
  assumes "valid_instant x" and "0 < d"
  shows "floor_datetime x (Some d) kw = Inr \<lparr>wall_us = wall_us x div d * d, zone = zone x\<rparr>"
proof -
  have m: "0 \<le> wall_us x mod d" "wall_us x mod d \<le> wall_us x"
    using assms by (simp_all add: valid_instant_def zmod_le_nonneg_dividend)
  have v: "0 \<le> wall_us x" "wall_us x \<le> MAX_US" using assms(1) by (simp_all add: valid_instant_def)
  have "0 \<le> wall_us x - wall_us x mod d \<and> wall_us x - wall_us x mod d \<le> MAX_US"
    using m v by linarith
  then show ?thesis
    using assms(2) floor_datetime_value[of d x kw] by (simp add: floor_mod_eq)
qed

lemma ceil_result:
  assumes "d \<noteq> 0" and "ceil_datetime x (Some d) kw = Inr r"
  shows "r = \<lparr>wall_us = - ((- wall_us x) div d * d), zone = zone x\<rparr>"
    and "valid_instant r" and "on_grid r d"
proof -
  have c: "0 \<le> wall_us x + (- wall_us x) mod d \<and> wall_us x + (- wall_us x) mod d \<le> MAX_US"
    using assms ceil_datetime_value[OF assms(1), of x kw] by (auto split: if_splits)
  then have r: "r = \<lparr>wall_us = wall_us x + (- wall_us x) mod d, zone = zone x\<rparr>"
    using assms ceil_datetime_value[OF assms(1), of x kw] by simp
  show r': "r = \<lparr>wall_us = - ((- wall_us x) div d * d), zone = zone x\<rparr>"
    using r by (simp add: ceil_mod_eq)
  show "valid_instant r" using c r by (simp add: valid_instant_def)
  show "on_grid r d"
    using assms(1) by (simp add: on_grid_def r' instant_diff_def min_datetime_for_def)
qed

lemma floor_result:
  assumes "d \<noteq> 0" and "floor_datetime x (Some d) kw = Inr r"
  shows "r = \<lparr>wall_us = wall_us x div d * d, zone = zone x\<rparr>"
    and "valid_instant r" and "on_grid r d"
proof -
  have c: "0 \<le> wall_us x - wall_us x mod d \<and> wall_us x - wall_us x mod d \<le> MAX_US"
    using assms floor_datetime_value[OF assms(1), of x kw] by (auto split: if_splits)
  then have r: "r = \<lparr>wall_us = wall_us x - wall_us x mod d, zone = zone x\<rparr>"
    using assms floor_datetime_value[OF assms(1), of x kw] by simp
  show r': "r = \<lparr>wall_us = wall_us x div d * d, zone = zone x\<rparr>"
    using r by (simp add: floor_mod_eq)
  show "valid_instant r" using c r by (simp add: valid_instant_def)
  show "on_grid r d"
    using assms(1) by (simp add: on_grid_def r' instant_diff_def min_datetime_for_def)
qed

lemma ceil_of_floor:
  assumes "d \<noteq> 0"
  shows "and_then (floor_datetime x (Some d) kw) (\<lambda>y. ceil_datetime y (Some d) kw)
           = floor_datetime x (Some d) kw"
proof (cases "floor_datetime x (Some d) kw")
  case (Inl e)
  then show ?thesis by (simp add: and_then_def)
next
  case (Inr r)
  have "ceil_datetime r (Some d) kw = Inr r"
    by (rule ceil_on_grid[OF floor_result(2)[OF assms Inr] floor_result(3)[OF assms Inr]])
  then show ?thesis using Inr by (simp add: and_then_def)
qed

lemma floor_of_ceil:
  assumes "d \<noteq> 0"
  shows "and_then (ceil_datetime x (Some d) kw) (\<lambda>y. floor_datetime y (Some d) kw)
           = ceil_datetime x (Some d) kw"
proof (cases "ceil_datetime x (Some d) kw")
  case (Inl e)
  then show ?thesis by (simp add: and_then_def)
next
  case (Inr r)
  have "floor_datetime r (Some d) kw = Inr r"
    by (rule floor_on_grid[OF ceil_result(2)[OF assms Inr] ceil_result(3)[OF assms Inr]])
  then show ?thesis using Inr by (simp add: and_then_def)
qed

text \<open>
  Claim C6. For a non-zero grid duration \<open>d\<close>, \<open>ceil_datetime x\<close> is
  \<open>x + ((epoch - x) mod d)\<close> and \<open>floor_datetime x\<close> is \<open>x - ((x - epoch) mod d)\<close>, where the
  epoch is \<^verbatim>\<open>datetime.min\<close> carrying the \<^verbatim>\<open>tzinfo\<close> of \<open>x\<close> itself. On the wall clock, counted
  in microseconds \<open>w\<close> from the epoch, the ceiling is \<open>w + (- w) mod d\<close> and the floor is
  \<open>w - w mod d\<close>, in the zone of \<open>x\<close> (\<open>OverflowError\<close> when that leaves the range of
  \<^verbatim>\<open>datetime\<close>). For a positive \<open>d\<close> the floor always returns: it is the last grid point not
  after \<open>x\<close>, less than \<open>d\<close> before it; the ceiling, when it returns, is the first grid
  point not before \<open>x\<close>, less than \<open>d\<close> after it. Every result is on the grid. An instant
  that is on the grid is returned unchanged by both, and the ceiling of the floor is the
  floor and the floor of the ceiling is the ceiling (for every instant, so also for one
  on the grid).
\<close>

theorem ceil_floor_grid:
  assumes "valid_instant x" and "d \<noteq> 0"
  shows "min_datetime_for x = \<lparr>wall_us = 0, zone = zone x\<rparr>
     \<and> ceil_datetime x (Some d) kw = instant_add x (instant_diff (min_datetime_for x) x mod d)
     \<and> floor_datetime x (Some d) kw = instant_sub x (instant_diff x (min_datetime_for x) mod d)
     \<and> (on_grid x d \<longrightarrow>
          ceil_datetime x (Some d) kw = Inr x
        \<and> floor_datetime x (Some d) kw = Inr x
        \<and> and_then (floor_datetime x (Some d) kw) (\<lambda>y. ceil_datetime y (Some d) kw)
            = floor_datetime x (Some d) kw
        \<and> and_then (ceil_datetime x (Some d) kw) (\<lambda>y. floor_datetime y (Some d) kw)
            = ceil_datetime x (Some d) kw)
     \<and> ceil_datetime x (Some d) kw =
         (if 0 \<le> wall_us x + (- wall_us x) mod d \<and> wall_us x + (- wall_us x) mod d \<le> MAX_US
          then Inr \<lparr>wall_us = wall_us x + (- wall_us x) mod d, zone = zone x\<rparr>
          else Inl OverflowError)
     \<and> floor_datetime x (Some d) kw =
         (if 0 \<le> wall_us x - wall_us x mod d \<and> wall_us x - wall_us x mod d \<le> MAX_US
          then Inr \<lparr>wall_us = wall_us x - wall_us x mod d, zone = zone x\<rparr>
          else Inl OverflowError)
     \<and> (0 < d \<longrightarrow>
          floor_datetime x (Some d) kw = Inr \<lparr>wall_us = wall_us x div d * d, zone = zone x\<rparr>
        \<and> wall_us x div d * d \<le> wall_us x \<and> wall_us x < wall_us x div d * d + d
        \<and> (\<forall>r. ceil_datetime x (Some d) kw = Inr r \<longrightarrow>
              r = \<lparr>wall_us = - ((- wall_us x) div d * d), zone = zone x\<rparr>
            \<and> wall_us x \<le> wall_us r \<and> wall_us r < wall_us x + d))
     \<and> (\<forall>r. ceil_datetime x (Some d) kw = Inr r \<or> floor_datetime x (Some d) kw = Inr r \<longrightarrow>
            on_grid r d \<and> valid_instant r \<and> zone r = zone x)
     \<and> and_then (floor_datetime x (Some d) kw) (\<lambda>y. ceil_datetime y (Some d) kw)
          = floor_datetime x (Some d) kw
     \<and> and_then (ceil_datetime x (Some d) kw) (\<lambda>y. floor_datetime y (Some d) kw)
          = ceil_datetime x (Some d) kw"
proof (intro conjI impI allI)
  show "min_datetime_for x = \<lparr>wall_us = 0, zone = zone x\<rparr>"
    by (rule min_datetime_for_eq)
  show "ceil_datetime x (Some d) kw = instant_add x (instant_diff (min_datetime_for x) x mod d)"
    using assms(2) ceil_datetime_formula[of "Some d" kw x] by (simp add: delta_or_def)
  show "floor_datetime x (Some d) kw = instant_sub x (instant_diff x (min_datetime_for x) mod d)"
    using assms(2) floor_datetime_formula[of "Some d" kw x] by (simp add: delta_or_def)
next
  assume g: "on_grid x d"
  show c: "ceil_datetime x (Some d) kw = Inr x" by (rule ceil_on_grid[OF assms(1) g])
  show f: "floor_datetime x (Some d) kw = Inr x" by (rule floor_on_grid[OF assms(1) g])
  show "and_then (floor_datetime x (Some d) kw) (\<lambda>y. ceil_datetime y (Some d) kw)
          = floor_datetime x (Some d) kw"
    by (rule ceil_of_floor[OF assms(2)])
  show "and_then (ceil_datetime x (Some d) kw) (\<lambda>y. floor_datetime y (Some d) kw)
          = ceil_datetime x (Some d) kw"
    by (rule floor_of_ceil[OF assms(2)])
next
  show "ceil_datetime x (Some d) kw =
         (if 0 \<le> wall_us x + (- wall_us x) mod d \<and> wall_us x + (- wall_us x) mod d \<le> MAX_US
          then Inr \<lparr>wall_us = wall_us x + (- wall_us x) mod d, zone = zone x\<rparr>
          else Inl OverflowError)"
    by (rule ceil_datetime_value[OF assms(2)])
  show "floor_datetime x (Some d) kw =
         (if 0 \<le> wall_us x - wall_us x mod d \<and> wall_us x - wall_us x mod d \<le> MAX_US
          then Inr \<lparr>wall_us = wall_us x - wall_us x mod d, zone = zone x\<rparr>
          else Inl OverflowError)"
    by (rule floor_datetime_value[OF assms(2)])
next
  assume p: "0 < d"
  show "floor_datetime x (Some d) kw = Inr \<lparr>wall_us = wall_us x div d * d, zone = zone x\<rparr>"
    by (rule floor_datetime_pos[OF assms(1) p])
  have m: "0 \<le> wall_us x mod d" "wall_us x mod d < d" using p by simp_all
  have e: "wall_us x div d * d = wall_us x - wall_us x mod d" by (simp add: floor_mod_eq)
  show "wall_us x div d * d \<le> wall_us x" using m e by linarith
  show "wall_us x < wall_us x div d * d + d" using m e by linarith
next
  fix r
  assume p: "0 < d" and c: "ceil_datetime x (Some d) kw = Inr r"
  show r: "r = \<lparr>wall_us = - ((- wall_us x) div d * d), zone = zone x\<rparr>"
    by (rule ceil_result(1)[OF assms(2) c])
  have m: "0 \<le> (- wall_us x) mod d" "(- wall_us x) mod d < d" using p by simp_all
  have e: "wall_us r = wall_us x + (- wall_us x) mod d" using r by (simp add: ceil_mod_eq)
  show "wall_us x \<le> wall_us r" using m e by linarith
  show "wall_us r < wall_us x + d" using m e by linarith
next
  fix r
  assume a: "ceil_datetime x (Some d) kw = Inr r \<or> floor_datetime x (Some d) kw = Inr r"
  show "on_grid r d"
    using a ceil_result(3)[OF assms(2)] floor_result(3)[OF assms(2)] by blast
  show "valid_instant r"
    using a ceil_result(2)[OF assms(2)] floor_result(2)[OF assms(2)] by blast
  show "zone r = zone x"
    using a ceil_result(1)[OF assms(2), of x kw r] floor_result(1)[OF assms(2), of x kw r]
    by auto
next
  show "and_then (floor_datetime x (Some d) kw) (\<lambda>y. ceil_datetime y (Some d) kw)
          = floor_datetime x (Some d) kw"
    by (rule ceil_of_floor[OF assms(2)])
  show "and_then (ceil_datetime x (Some d) kw) (\<lambda>y. floor_datetime y (Some d) kw)
          = ceil_datetime x (Some d) kw"
    by (rule floor_of_ceil[OF assms(2)])
qed

text \<open>The repository's test and the spec's example: in Europe/Helsinki, 2018-02-15 12:38 is
  not on the 15-minute grid; its ceiling is 12:45 and its floor is 12:30. 12:45 is on the
  grid and is returned unchanged.\<close>

theorem ceil_floor_grid_witness:
  "valid_instant \<lparr>wall_us = 63654295080000000, zone = Some (Zone ''Europe/Helsinki'')\<rparr>
   \<and> (900000000 :: int) \<noteq> 0 \<and> (0 :: int) < 900000000
   \<and> to_instant \<lparr>year = 2018, month = 2, day = 15, hour = 12, minute = 38, second = 0,
                   microsecond = 0, tzinfo = Some (Zone ''Europe/Helsinki'')\<rparr>
       = \<lparr>wall_us = 63654295080000000, zone = Some (Zone ''Europe/Helsinki'')\<rparr>
   \<and> to_instant \<lparr>year = 2018, month = 2, day = 15, hour = 12, minute = 45, second = 0,
                   microsecond = 0, tzinfo = Some (Zone ''Europe/Helsinki'')\<rparr>
       = \<lparr>wall_us = 63654295500000000, zone = Some (Zone ''Europe/Helsinki'')\<rparr>
   \<and> to_instant \<lparr>year = 2018, month = 2, day = 15, hour = 12, minute = 30, second = 0,
                   microsecond = 0, tzinfo = Some (Zone ''Europe/Helsinki'')\<rparr>
       = \<lparr>wall_us = 63654294600000000, zone = Some (Zone ''Europe/Helsinki'')\<rparr>
   \<and> \<not> on_grid \<lparr>wall_us = 63654295080000000, zone = Some (Zone ''Europe/Helsinki'')\<rparr> 900000000
   \<and> ceil_datetime \<lparr>wall_us = 63654295080000000, zone = Some (Zone ''Europe/Helsinki'')\<rparr>
         (Some 900000000) 0
       = Inr \<lparr>wall_us = 63654295500000000, zone = Some (Zone ''Europe/Helsinki'')\<rparr>
   \<and> floor_datetime \<lparr>wall_us = 63654295080000000, zone = Some (Zone ''Europe/Helsinki'')\<rparr>
         (Some 900000000) 0
       = Inr \<lparr>wall_us = 63654294600000000, zone = Some (Zone ''Europe/Helsinki'')\<rparr>
   \<and> valid_instant \<lparr>wall_us = 63654295500000000, zone = Some (Zone ''Europe/Helsinki'')\<rparr>
   \<and> on_grid \<lparr>wall_us = 63654295500000000, zone = Some (Zone ''Europe/Helsinki'')\<rparr> 900000000
   \<and> ceil_datetime \<lparr>wall_us = 63654295500000000, zone = Some (Zone ''Europe/Helsinki'')\<rparr>
         (Some 900000000) 0
       = Inr \<lparr>wall_us = 63654295500000000, zone = Some (Zone ''Europe/Helsinki'')\<rparr>
   \<and> floor_datetime \<lparr>wall_us = 63654295500000000, zone = Some (Zone ''Europe/Helsinki'')\<rparr>
         (Some 900000000) 0
       = Inr \<lparr>wall_us = 63654295500000000, zone = Some (Zone ''Europe/Helsinki'')\<rparr>"
proof -
  let ?z = "Some (Zone ''Europe/Helsinki'')"
  let ?x = "\<lparr>wall_us = 63654295080000000, zone = ?z\<rparr>"
  let ?y = "\<lparr>wall_us = 63654295500000000, zone = ?z\<rparr>"
  have o: "ymd2ord 2018 2 15 = 736740"
    by (simp add: ymd2ord_def days_before_year_def days_before_month_def is_leap_def)
  have i: "to_instant \<lparr>year = 2018, month = 2, day = 15, hour = 12, minute = 38, second = 0,
                        microsecond = 0, tzinfo = ?z\<rparr> = ?x"
    "to_instant \<lparr>year = 2018, month = 2, day = 15, hour = 12, minute = 45, second = 0,
                  microsecond = 0, tzinfo = ?z\<rparr> = ?y"
    "to_instant \<lparr>year = 2018, month = 2, day = 15, hour = 12, minute = 30, second = 0,
                  microsecond = 0, tzinfo = ?z\<rparr>
       = \<lparr>wall_us = 63654294600000000, zone = ?z\<rparr>"
    by (simp_all add: to_instant_def o US_PER_DAY_def)
  have v: "valid_instant ?x" "valid_instant ?y"
    by (simp_all add: valid_instant_def US_PER_DAY_def MAX_US_def MAXORDINAL_def)
  have n: "(900000000 :: int) \<noteq> 0" by simp
  have p: "(0 :: int) < 900000000" by simp
  have off: "\<not> on_grid ?x 900000000"
    by (simp add: on_grid_def instant_diff_def min_datetime_for_def)
  have g: "on_grid ?y 900000000"
    by (simp add: on_grid_def instant_diff_def min_datetime_for_def)
  have c: "ceil_datetime ?x (Some 900000000) 0 = Inr ?y"
    using ceil_floor_grid[OF v(1) n, of 0, THEN conjunct2, THEN conjunct2, THEN conjunct2,
        THEN conjunct2, THEN conjunct1]
    by (simp add: US_PER_DAY_def MAX_US_def MAXORDINAL_def)
  have f: "floor_datetime ?x (Some 900000000) 0 = Inr \<lparr>wall_us = 63654294600000000, zone = ?z\<rparr>"
    using ceil_floor_grid[OF v(1) n, of 0, THEN conjunct2, THEN conjunct2, THEN conjunct2,
        THEN conjunct2, THEN conjunct2, THEN conjunct2, THEN conjunct1, THEN mp, OF p,
        THEN conjunct1]
    by simp
  note r = ceil_floor_grid[OF v(2) n, of 0, THEN conjunct2, THEN conjunct2, THEN conjunct2,
      THEN conjunct1, THEN mp, OF g]
  show ?thesis
    by (intro conjI, rule v(1), rule n, rule p, rule i(1), rule i(2), rule i(3), rule off,
        rule c, rule f, rule v(2), rule g, rule r[THEN conjunct1],
        rule r[THEN conjunct2, THEN conjunct1])
qed
section \<open>The fast timestamp parser: proofs\<close>

lemma and_then_Inl [simp]: "and_then (Inl e) f = Inl e"
  by (simp add: and_then_def)

lemma and_then_Inr [simp]: "and_then (Inr x) f = f x"
  by (simp add: and_then_def)

lemma and_then_Inr_iff: "and_then r f = Inr y \<longleftrightarrow> (\<exists>x. r = Inr x \<and> f x = Inr y)"
  by (cases r) simp_all

lemma is_digit_not_space: "is_digit c \<Longrightarrow> \<not> is_space c"
  by (auto simp: is_digit_def is_space_def)

lemma is_digit_not_sign: "is_digit c \<Longrightarrow> c \<noteq> CHR ''+'' \<and> c \<noteq> CHR ''-''"
  by (auto simp: is_digit_def)

lemma is_digit_not_punct:
  "is_digit c \<Longrightarrow> c \<noteq> CHR ''.'' \<and> c \<noteq> CHR '':'' \<and> c \<noteq> CHR ''Z'' \<and> c \<noteq> CHR ''T''"
  by (auto simp: is_digit_def)

lemma int_digits_all:
  "list_all is_digit cs \<Longrightarrow>
   int_digits acc False cs = Some (foldl (\<lambda>a c. a * 10 + digit_val c) acc cs)"
  by (induction cs arbitrary: acc) simp_all

lemma strip_digits:
  assumes "list_all is_digit ds"
  shows "strip ds = ds"
proof (cases ds rule: rev_cases)
  case Nil
  then show ?thesis by (simp add: strip_def)
next
  case (snoc ys y)
  then have y: "\<not> is_space y" using assms by (simp add: is_digit_not_space)
  show ?thesis
  proof (cases ds)
    case Nil
    then show ?thesis by (simp add: strip_def)
  next
    case (Cons x xs)
    then have x: "\<not> is_space x" using assms by (simp add: is_digit_not_space)
    have "dropWhile is_space ds = ds" using Cons x by simp
    moreover have "dropWhile is_space (rev ds) = rev ds" using snoc y by simp
    ultimately show ?thesis by (simp add: strip_def)
  qed
qed

lemma py_int_digits:
  assumes "list_all is_digit ds" and "ds \<noteq> []"
  shows "py_int ds = Inr (digits_value ds)"
proof -
  obtain c cs where ds: "ds = c # cs" using assms(2) by (cases ds) auto
  have c: "is_digit c" and cs: "list_all is_digit cs" using assms(1) ds by simp_all
  have body: "int_body ds = Some (digits_value ds)"
    using c int_digits_all[OF cs, of "digit_val c"]
    by (simp add: int_body_def ds digits_value_def)
  have st: "strip (c # cs) = c # cs" using strip_digits[OF assms(1)] ds by simp
  show ?thesis
    using is_digit_not_sign[OF c] body
    by (simp add: py_int_def st ds Let_def)
qed

lemma fragment_digits_all: "list_all is_digit (fragment_digits s)"
  unfolding fragment_digits_def list_all_iff by (auto dest: set_takeWhileD)

lemma datetime_new_InrD:
  assumes "datetime_new y m d hh mm ss us tz = Inr dt"
  shows "dt = \<lparr>year = y, month = m, day = d, hour = hh, minute = mm, second = ss,
               microsecond = us, tzinfo = tz\<rparr>"
  using assms by (simp add: datetime_new_def split: if_splits)

lemma datetime_new_valid:
  assumes "1 \<le> y" "y \<le> 9999" "1 \<le> m" "m \<le> 12" "1 \<le> d" "d \<le> days_in_month y m"
    and "0 \<le> hh" "hh \<le> 23" "0 \<le> mm" "mm \<le> 59" "0 \<le> ss" "ss \<le> 59" "0 \<le> us" "us \<le> 999999"
  shows "datetime_new y m d hh mm ss us tz =
           Inr \<lparr>year = y, month = m, day = d, hour = hh, minute = mm, second = ss,
                 microsecond = us, tzinfo = tz\<rparr>"
  using assms by (simp add: datetime_new_def)

lemma days_in_month_ge:
  assumes "1 \<le> m" and "m \<le> 12"
  shows "28 \<le> days_in_month y m"
proof -
  have "m = 1 \<or> m = 2 \<or> m = 3 \<or> m = 4 \<or> m = 5 \<or> m = 6 \<or> m = 7 \<or> m = 8 \<or> m = 9
      \<or> m = 10 \<or> m = 11 \<or> m = 12"
    using assms by presburger
  then show ?thesis by (elim disjE) (simp_all add: days_in_month_def)
qed

lemma fromisoformat_parts:
  assumes "structure_check s = Inr True"
    and "py_int (py_slice s 0 4) = Inr y" and "py_int (py_slice s 5 7) = Inr mo"
    and "py_int (py_slice s 8 10) = Inr d" and "py_int (py_slice s 11 13) = Inr hh"
    and "py_int (py_slice s 14 16) = Inr mi"
    and "seconds_part s = Inr sec" and "ms_part s = Inr ms" and "tz_part s = Inr tz"
  shows "fromisoformat s = datetime_new (max 1 y) (max 1 mo) (max 1 d) hh mi sec ms tz"
  using assms by (simp add: fromisoformat_def)

lemma fromisoformat_InrD:
  assumes "fromisoformat s = Inr dt"
  obtains sec ms tz y mo d hh mi where
    "structure_check s = Inr True"
    "seconds_part s = Inr sec" "ms_part s = Inr ms" "tz_part s = Inr tz"
    "py_int (py_slice s 0 4) = Inr y" "py_int (py_slice s 5 7) = Inr mo"
    "py_int (py_slice s 8 10) = Inr d" "py_int (py_slice s 11 13) = Inr hh"
    "py_int (py_slice s 14 16) = Inr mi"
    "datetime_new (max 1 y) (max 1 mo) (max 1 d) hh mi sec ms tz = Inr dt"
proof -
  from assms obtain ok where ok: "structure_check s = Inr ok"
    and r: "(if ok then
         and_then (seconds_part s) (\<lambda>seconds.
         and_then (ms_part s) (\<lambda>ms.
         and_then (tz_part s) (\<lambda>tz.
         and_then (py_int (py_slice s 0 4)) (\<lambda>y.
         and_then (py_int (py_slice s 5 7)) (\<lambda>mo.
         and_then (py_int (py_slice s 8 10)) (\<lambda>d.
         and_then (py_int (py_slice s 11 13)) (\<lambda>hh.
         and_then (py_int (py_slice s 14 16)) (\<lambda>mi.
           datetime_new (max 1 y) (max 1 mo) (max 1 d) hh mi seconds ms tz))))))))
       else Inl (ValueError (s @ '' is not in ISO 8601 format''))) = Inr dt"
    unfolding fromisoformat_def and_then_Inr_iff by blast
  have t: "ok = True" using r by (cases ok) simp_all
  from r have "\<exists>sec ms tz y mo d hh mi.
      seconds_part s = Inr sec \<and> ms_part s = Inr ms \<and> tz_part s = Inr tz
      \<and> py_int (py_slice s 0 4) = Inr y \<and> py_int (py_slice s 5 7) = Inr mo
      \<and> py_int (py_slice s 8 10) = Inr d \<and> py_int (py_slice s 11 13) = Inr hh
      \<and> py_int (py_slice s 14 16) = Inr mi
      \<and> datetime_new (max 1 y) (max 1 mo) (max 1 d) hh mi sec ms tz = Inr dt"
    unfolding t if_True and_then_Inr_iff by blast
  then show ?thesis using that ok t by blast
qed

lemma fromisoformat_microsecond:
  assumes "fromisoformat s = Inr dt"
  shows "ms_part s = Inr (microsecond dt)"
proof -
  from assms obtain sec ms tz y mo d hh mi where
    "ms_part s = Inr ms" "datetime_new (max 1 y) (max 1 mo) (max 1 d) hh mi sec ms tz = Inr dt"
    by (rule fromisoformat_InrD)
  then show ?thesis using datetime_new_InrD by fastforce
qed

lemma fromisoformat_ms_error:
  assumes "ms_part s = Inl e"
  shows "\<exists>e'. fromisoformat s = Inl e'"
proof (cases "fromisoformat s")
  case (Inl a)
  then show ?thesis by blast
next
  case (Inr dt)
  then show ?thesis using fromisoformat_microsecond[OF Inr] assms by simp
qed

lemma datetime_parse_fallback:
  "fromisoformat s = Inl e \<Longrightarrow> datetime_parse catalog win_tz parse_any s None = parse_any s"
  by (cases "parse_any s") (simp_all add: datetime_parse_def)

lemma datetime_parse_fast:
  "fromisoformat s = Inr dt \<Longrightarrow> datetime_parse catalog win_tz parse_any s None = Inr dt"
  by (simp add: datetime_parse_def)

lemma ms_part_dot:
  assumes "py_index s 19 = Inr (CHR ''.'')"
  shows "ms_part s =
     (if length (fragment_digits s) = 3 then Inr (digits_value (fragment_digits s) * 1000)
      else if length (fragment_digits s) = 6 then Inr (digits_value (fragment_digits s))
      else Inl (ValueError ''Invalid fragment size''))"
proof -
  have "fragment_digits s \<noteq> [] \<Longrightarrow> py_int (fragment_digits s) = Inr (digits_value (fragment_digits s))"
    by (rule py_int_digits[OF fragment_digits_all])
  then have "length (fragment_digits s) = 3 \<or> length (fragment_digits s) = 6
      \<Longrightarrow> py_int (fragment_digits s) = Inr (digits_value (fragment_digits s))"
    by force
  then show ?thesis using assms by (auto simp: ms_part_def Let_def)
qed

text \<open>
  Claim C3. In the fast path, when the character at position 19 is the decimal point, the
  digits that follow it are the fragment: exactly three digits are milliseconds (the
  microsecond field is their value times 1000), exactly six digits are the microsecond
  field itself, and with any other number of digits the fast path fails with
  \<open>ValueError\<close> (\<open>datetime_parse\<close> then returns whatever the generic parser returns).
\<close>

theorem fragment_size:
  assumes "py_index s 19 = Inr (CHR ''.'')"
  shows "(length (fragment_digits s) = 3 \<longrightarrow>
            ms_part s = Inr (digits_value (fragment_digits s) * 1000)
          \<and> (\<forall>dt. fromisoformat s = Inr dt \<longrightarrow>
                 microsecond dt = digits_value (fragment_digits s) * 1000))
       \<and> (length (fragment_digits s) = 6 \<longrightarrow>
            ms_part s = Inr (digits_value (fragment_digits s))
          \<and> (\<forall>dt. fromisoformat s = Inr dt \<longrightarrow>
                 microsecond dt = digits_value (fragment_digits s)))
       \<and> (length (fragment_digits s) \<noteq> 3 \<and> length (fragment_digits s) \<noteq> 6 \<longrightarrow>
            ms_part s = Inl (ValueError ''Invalid fragment size'')
          \<and> (\<exists>e. fromisoformat s = Inl e)
          \<and> datetime_parse catalog win_tz parse_any s None = parse_any s)"
proof (intro conjI impI allI)
  assume l: "length (fragment_digits s) = 3"
  show m: "ms_part s = Inr (digits_value (fragment_digits s) * 1000)"
    using ms_part_dot[OF assms] l by simp
  fix dt assume "fromisoformat s = Inr dt"
  from fromisoformat_microsecond[OF this] m
  show "microsecond dt = digits_value (fragment_digits s) * 1000" by simp
next
  assume l: "length (fragment_digits s) = 6"
  show m: "ms_part s = Inr (digits_value (fragment_digits s))"
    using ms_part_dot[OF assms] l by simp
  fix dt assume "fromisoformat s = Inr dt"
  from fromisoformat_microsecond[OF this] m
  show "microsecond dt = digits_value (fragment_digits s)" by simp
next
  assume l: "length (fragment_digits s) \<noteq> 3 \<and> length (fragment_digits s) \<noteq> 6"
  show m: "ms_part s = Inl (ValueError ''Invalid fragment size'')"
    using ms_part_dot[OF assms] l by simp
  from fromisoformat_ms_error[OF m] obtain e where e: "fromisoformat s = Inl e" by blast
  then show "\<exists>e. fromisoformat s = Inl e" by blast
  show "datetime_parse catalog win_tz parse_any s None = parse_any s"
    by (rule datetime_parse_fallback[OF e])
qed

text \<open>The repository's tests \<^verbatim>\<open>test_datetime_parse_utc_ms\<close> (three digits) and
  \<^verbatim>\<open>test_datetime_parse_utc_micro\<close> (six digits), and a fragment of two digits.\<close>

theorem fragment_size_witness:
  "py_index ''2017-11-13T12:15:01.124Z'' 19 = Inr (CHR ''.'')
   \<and> length (fragment_digits ''2017-11-13T12:15:01.124Z'') = 3
   \<and> fromisoformat ''2017-11-13T12:15:01.124Z''
       = Inr \<lparr>year = 2017, month = 11, day = 13, hour = 12, minute = 15, second = 1,
               microsecond = 124000, tzinfo = Some UTC\<rparr>
   \<and> digits_value (fragment_digits ''2017-11-13T12:15:01.124Z'') * 1000 = 124000
   \<and> py_index ''2017-11-13T12:15:01.124000Z'' 19 = Inr (CHR ''.'')
   \<and> length (fragment_digits ''2017-11-13T12:15:01.124000Z'') = 6
   \<and> ms_part ''2017-11-13T12:15:01.124000Z'' = Inr 124000
   \<and> py_index ''2017-11-13T12:15:01.12Z'' 19 = Inr (CHR ''.'')
   \<and> length (fragment_digits ''2017-11-13T12:15:01.12Z'') = 2
   \<and> ms_part ''2017-11-13T12:15:01.12Z'' = Inl (ValueError ''Invalid fragment size'')
   \<and> datetime_parse Map.empty Map.empty (\<lambda>t. Inl (ValueError ''no parse''))
        ''2017-11-13T12:15:01.12Z'' None = Inl (ValueError ''no parse'')"
proof -
  have i3: "py_index ''2017-11-13T12:15:01.124Z'' 19 = Inr (CHR ''.'')" by code_simp
  have l3: "length (fragment_digits ''2017-11-13T12:15:01.124Z'') = 3" by code_simp
  have f3: "fromisoformat ''2017-11-13T12:15:01.124Z''
       = Inr \<lparr>year = 2017, month = 11, day = 13, hour = 12, minute = 15, second = 1,
               microsecond = 124000, tzinfo = Some UTC\<rparr>" by code_simp
  have i6: "py_index ''2017-11-13T12:15:01.124000Z'' 19 = Inr (CHR ''.'')" by code_simp
  have l6: "length (fragment_digits ''2017-11-13T12:15:01.124000Z'') = 6" by code_simp
  have v6: "digits_value (fragment_digits ''2017-11-13T12:15:01.124000Z'') = 124000" by code_simp
  have i2: "py_index ''2017-11-13T12:15:01.12Z'' 19 = Inr (CHR ''.'')" by code_simp
  have l2: "length (fragment_digits ''2017-11-13T12:15:01.12Z'') = 2" by code_simp
  have n2: "length (fragment_digits ''2017-11-13T12:15:01.12Z'') \<noteq> 3
      \<and> length (fragment_digits ''2017-11-13T12:15:01.12Z'') \<noteq> 6" using l2 by simp
  note a = fragment_size[OF i3, THEN conjunct1, THEN mp, OF l3, THEN conjunct2, THEN spec,
      THEN mp, OF f3]
  note b = fragment_size[OF i6, THEN conjunct2, THEN conjunct1, THEN mp, OF l6, THEN conjunct1]
  note c = fragment_size[OF i2, of Map.empty Map.empty "\<lambda>t. Inl (ValueError ''no parse'')",
      THEN conjunct2, THEN conjunct2, THEN mp, OF n2]
  have a': "digits_value (fragment_digits ''2017-11-13T12:15:01.124Z'') * 1000 = 124000"
    using a by simp
  have b': "ms_part ''2017-11-13T12:15:01.124000Z'' = Inr 124000" using b v6 by simp
  show ?thesis
    by (intro conjI, rule i3, rule l3, rule f3, rule a', rule i6, rule l6, rule b', rule i2,
        rule l2, rule c[THEN conjunct1], rule c[THEN conjunct2, THEN conjunct2])
qed

text \<open>
  Claim C4. When the fixed-position checks hold and every component converts, the fast
  path builds the value from the year, month and day clamped upward to 1
  (\<open>max 1\<close>), so a component that parses to zero becomes 1 and is not a reason to
  reject: with the other fields in range the fast path returns the clamped value, and
  \<open>datetime_parse\<close> returns it without consulting the generic parser.
\<close>

theorem zero_date_clamped:
  assumes "structure_check s = Inr True"
    and "py_int (py_slice s 0 4) = Inr y" and "py_int (py_slice s 5 7) = Inr mo"
    and "py_int (py_slice s 8 10) = Inr d" and "py_int (py_slice s 11 13) = Inr hh"
    and "py_int (py_slice s 14 16) = Inr mi"
    and "seconds_part s = Inr sec" and "ms_part s = Inr ms" and "tz_part s = Inr tz"
  shows "fromisoformat s = datetime_new (max 1 y) (max 1 mo) (max 1 d) hh mi sec ms tz
     \<and> (y \<le> 9999 \<and> mo \<le> 12 \<and> d \<le> days_in_month (max 1 y) (max 1 mo)
          \<and> 0 \<le> hh \<and> hh \<le> 23 \<and> 0 \<le> mi \<and> mi \<le> 59 \<and> 0 \<le> sec \<and> sec \<le> 59
          \<and> 0 \<le> ms \<and> ms \<le> 999999 \<longrightarrow>
          fromisoformat s =
            Inr \<lparr>year = max 1 y, month = max 1 mo, day = max 1 d, hour = hh, minute = mi,
                  second = sec, microsecond = ms, tzinfo = tz\<rparr>
        \<and> datetime_parse catalog win_tz parse_any s None =
            Inr \<lparr>year = max 1 y, month = max 1 mo, day = max 1 d, hour = hh, minute = mi,
                  second = sec, microsecond = ms, tzinfo = tz\<rparr>)
     \<and> (\<forall>dt. fromisoformat s = Inr dt \<longrightarrow>
          year dt = max 1 y \<and> month dt = max 1 mo \<and> day dt = max 1 d
        \<and> (y = 0 \<longrightarrow> year dt = 1) \<and> (mo = 0 \<longrightarrow> month dt = 1) \<and> (d = 0 \<longrightarrow> day dt = 1))"
proof (intro conjI impI allI)
  show eq: "fromisoformat s = datetime_new (max 1 y) (max 1 mo) (max 1 d) hh mi sec ms tz"
    by (rule fromisoformat_parts[OF assms])
  {
    assume r: "y \<le> 9999 \<and> mo \<le> 12 \<and> d \<le> days_in_month (max 1 y) (max 1 mo)
          \<and> 0 \<le> hh \<and> hh \<le> 23 \<and> 0 \<le> mi \<and> mi \<le> 59 \<and> 0 \<le> sec \<and> sec \<le> 59
          \<and> 0 \<le> ms \<and> ms \<le> 999999"
    have "datetime_new (max 1 y) (max 1 mo) (max 1 d) hh mi sec ms tz =
            Inr \<lparr>year = max 1 y, month = max 1 mo, day = max 1 d, hour = hh, minute = mi,
                  second = sec, microsecond = ms, tzinfo = tz\<rparr>"
      using r days_in_month_ge[of "max 1 mo" "max 1 y"]
      by (intro datetime_new_valid) simp_all
    then show ok: "fromisoformat s =
            Inr \<lparr>year = max 1 y, month = max 1 mo, day = max 1 d, hour = hh, minute = mi,
                  second = sec, microsecond = ms, tzinfo = tz\<rparr>"
      using eq by simp
    show "datetime_parse catalog win_tz parse_any s None =
            Inr \<lparr>year = max 1 y, month = max 1 mo, day = max 1 d, hour = hh, minute = mi,
                  second = sec, microsecond = ms, tzinfo = tz\<rparr>"
      by (rule datetime_parse_fast[OF ok])
  }
  fix dt assume "fromisoformat s = Inr dt"
  then have dt: "dt = \<lparr>year = max 1 y, month = max 1 mo, day = max 1 d, hour = hh, minute = mi,
                  second = sec, microsecond = ms, tzinfo = tz\<rparr>"
    using eq datetime_new_InrD by simp
  show "year dt = max 1 y" "month dt = max 1 mo" "day dt = max 1 d" by (simp_all add: dt)
  { assume "y = 0" then show "year dt = 1" by (simp add: dt) }
  { assume "mo = 0" then show "month dt = 1" by (simp add: dt) }
  { assume "d = 0" then show "day dt = 1" by (simp add: dt) }
qed

text \<open>The repository's test \<^verbatim>\<open>test_datetime_parse_zero_time\<close>.\<close>

theorem zero_date_clamped_witness:
  "structure_check ''0000-00-00T00:00:00.000Z'' = Inr True
   \<and> py_int (py_slice ''0000-00-00T00:00:00.000Z'' 0 4) = Inr 0
   \<and> py_int (py_slice ''0000-00-00T00:00:00.000Z'' 5 7) = Inr 0
   \<and> py_int (py_slice ''0000-00-00T00:00:00.000Z'' 8 10) = Inr 0
   \<and> py_int (py_slice ''0000-00-00T00:00:00.000Z'' 11 13) = Inr 0
   \<and> py_int (py_slice ''0000-00-00T00:00:00.000Z'' 14 16) = Inr 0
   \<and> seconds_part ''0000-00-00T00:00:00.000Z'' = Inr 0
   \<and> ms_part ''0000-00-00T00:00:00.000Z'' = Inr 0
   \<and> tz_part ''0000-00-00T00:00:00.000Z'' = Inr (Some UTC)
   \<and> fromisoformat ''0000-00-00T00:00:00.000Z'' =
       Inr \<lparr>year = 1, month = 1, day = 1, hour = 0, minute = 0, second = 0,
             microsecond = 0, tzinfo = Some UTC\<rparr>
   \<and> datetime_parse Map.empty Map.empty (\<lambda>t. Inl (ValueError ''no parse''))
        ''0000-00-00T00:00:00.000Z'' None =
       Inr \<lparr>year = 1, month = 1, day = 1, hour = 0, minute = 0, second = 0,
             microsecond = 0, tzinfo = Some UTC\<rparr>"
proof -
  let ?s = "''0000-00-00T00:00:00.000Z''"
  have h: "structure_check ?s = Inr True"
    "py_int (py_slice ?s 0 4) = Inr 0" "py_int (py_slice ?s 5 7) = Inr 0"
    "py_int (py_slice ?s 8 10) = Inr 0" "py_int (py_slice ?s 11 13) = Inr 0"
    "py_int (py_slice ?s 14 16) = Inr 0"
    "seconds_part ?s = Inr 0" "ms_part ?s = Inr 0" "tz_part ?s = Inr (Some UTC)"
    by code_simp+
  have r: "(0::int) \<le> 9999 \<and> (0::int) \<le> 12 \<and> (0::int) \<le> days_in_month (max 1 0) (max 1 0)
          \<and> (0::int) \<le> 0 \<and> (0::int) \<le> 23 \<and> (0::int) \<le> 0 \<and> (0::int) \<le> 59
          \<and> (0::int) \<le> 0 \<and> (0::int) \<le> 59 \<and> (0::int) \<le> 0 \<and> (0::int) \<le> 999999"
    by (simp add: days_in_month_def)
  note t = zero_date_clamped[OF h, of Map.empty Map.empty "\<lambda>t. Inl (ValueError ''no parse'')",
      THEN conjunct2, THEN conjunct1, THEN mp, OF r]
  have a: "fromisoformat ?s =
       Inr \<lparr>year = 1, month = 1, day = 1, hour = 0, minute = 0, second = 0,
             microsecond = 0, tzinfo = Some UTC\<rparr>"
    using t[THEN conjunct1] by simp
  have b: "datetime_parse Map.empty Map.empty (\<lambda>t. Inl (ValueError ''no parse'')) ?s None =
       Inr \<lparr>year = 1, month = 1, day = 1, hour = 0, minute = 0, second = 0,
             microsecond = 0, tzinfo = Some UTC\<rparr>"
    using t[THEN conjunct2] by simp
  show ?thesis
    by (intro conjI, (rule h)+, rule a, rule b)
qed

section \<open>Zone suffixes: proofs\<close>

lemma py_index_append_left:
  "0 \<le> i \<Longrightarrow> nat i < length c \<Longrightarrow> py_index (c @ suf) i = Inr (c ! nat i)"
  by (auto simp: py_index_def Let_def nth_append)

lemma py_index_append_right:
  "0 \<le> i \<Longrightarrow> length c \<le> nat i \<Longrightarrow>
   py_index (c @ suf) i =
     (if nat i - length c < length suf then Inr (suf ! (nat i - length c)) else Inl IndexError)"
  by (auto simp: py_index_def Let_def nth_append)

lemma py_slice_append_left:
  "0 \<le> i \<Longrightarrow> i \<le> j \<Longrightarrow> nat j \<le> length c \<Longrightarrow> py_slice (c @ suf) i j = py_slice c i j"
  by (auto simp: py_slice_def slice_bound_def Let_def min_def)

lemma py_index_neg:
  "i < 0 \<Longrightarrow> nat (- i) \<le> length s \<Longrightarrow> py_index s i = Inr (s ! (length s - nat (- i)))"
proof -
  assume a: "i < 0" "nat (- i) \<le> length s"
  then have "nat (int (length s) + i) = length s - nat (- i)" by linarith
  moreover have "0 \<le> int (length s) + i" "int (length s) + i < int (length s)"
    using a by linarith+
  ultimately show ?thesis using a by (simp add: py_index_def Let_def)
qed

lemma slice_bound_neg:
  "i < 0 \<Longrightarrow> nat (- i) \<le> length s \<Longrightarrow> slice_bound s i = length s - nat (- i)"
  by (simp add: slice_bound_def Let_def max_def) linarith

lemma tz_part_colon:
  assumes "sg = CHR ''+'' \<or> sg = CHR ''-''" and "m2 \<noteq> CHR ''Z''"
  shows "tz_part (c @ [sg, h1, h2, x, m1, m2]) = tz_offset_of sg [h1, h2] [m1, m2]"
proof -
  let ?s = "c @ [sg, h1, h2, x, m1, m2]"
  have i1: "py_index ?s (- 1) = Inr m2"
    by (simp add: py_index_neg nth_append)
  have i6: "py_index ?s (- 6) = Inr sg"
    by (simp add: py_index_neg nth_append)
  have s1: "py_slice ?s (- 5) (- 3) = [h1, h2]"
    by (simp add: py_slice_def slice_bound_neg)
  have s2: "py_slice_from ?s (- 2) = [m1, m2]"
    by (simp add: py_slice_from_def slice_bound_neg)
  show ?thesis
    using assms by (auto simp add: tz_part_def i1 i6 s1 s2)
qed

lemma tz_part_short:
  assumes "sg = CHR ''+'' \<or> sg = CHR ''-''" and "m2 \<noteq> CHR ''Z''"
    and "c \<noteq> []" and "last c \<noteq> CHR ''+''" and "last c \<noteq> CHR ''-''"
  shows "tz_part (c @ [sg, h1, h2, m1, m2]) = tz_offset_of sg [h1, h2] [m1, m2]"
proof -
  let ?s = "c @ [sg, h1, h2, m1, m2]"
  have i1: "py_index ?s (- 1) = Inr m2"
    by (simp add: py_index_neg nth_append)
  have "?s ! (length c - 1) = last c"
    using assms(3) by (simp add: nth_append last_conv_nth)
  moreover have "length ?s - nat (- (- 6)) = length c - 1"
    using assms(3) by (cases c) simp_all
  ultimately have i6: "py_index ?s (- 6) = Inr (last c)"
    using assms(3) py_index_neg[of "- 6" ?s] by (cases c) simp_all
  have i5: "py_index ?s (- 5) = Inr sg"
    by (simp add: py_index_neg nth_append)
  have s1: "py_slice ?s (- 4) (- 2) = [h1, h2]"
    by (simp add: py_slice_def slice_bound_neg)
  have s2: "py_slice_from ?s (- 2) = [m1, m2]"
    by (simp add: py_slice_from_def slice_bound_neg)
  show ?thesis
    using assms by (auto simp add: tz_part_def i1 i6 i5 s1 s2)
qed

lemma tz_part_Z: "tz_part (c @ ''Z'') = Inr (Some UTC)"
  by (simp add: tz_part_def py_index_neg)

lemma minute_coreD:
  assumes "minute_core a"
  shows "length a = 16" "a ! 4 = CHR ''-''" "a ! 7 = CHR ''-''" "a ! 10 = CHR ''T''"
    "a ! 13 = CHR '':''" "is_digit (a ! 11)" "is_digit (a ! 14)" "is_digit (a ! 15)"
  using assms by (simp_all add: minute_core_def)

lemma profile_core_cases:
  assumes "profile_core c"
  obtains (minutes) "minute_core c"
  | (seconds) a s1 s2 where "c = a @ [CHR '':'', s1, s2]" "minute_core a"
      "is_digit s1" "is_digit s2"
  | (millis) a s1 s2 f1 f2 f3 where "c = a @ [CHR '':'', s1, s2, CHR ''.'', f1, f2, f3]"
      "minute_core a" "is_digit s1" "is_digit s2" "is_digit f1" "is_digit f2" "is_digit f3"
  | (micros) a s1 s2 f1 f2 f3 f4 f5 f6 where
      "c = a @ [CHR '':'', s1, s2, CHR ''.'', f1, f2, f3, f4, f5, f6]"
      "minute_core a" "is_digit s1" "is_digit s2" "is_digit f1" "is_digit f2" "is_digit f3"
      "is_digit f4" "is_digit f5" "is_digit f6"
proof -
  let ?a = "take 16 c" and ?r = "drop 16 c"
  have c: "c = ?a @ ?r" by simp
  have a: "minute_core ?a" using assms by (simp add: profile_core_def)
  show ?thesis
  proof (cases "?r = []")
    case True
    then have "c = ?a" using c by (metis append_Nil2)
    then show ?thesis using a minutes by simp
  next
    case False
    then have st: "seconds_tail ?r" using assms by (simp add: profile_core_def)
    then obtain s1 s2 f where r: "?r = CHR '':'' # s1 # s2 # f" and d: "is_digit s1" "is_digit s2"
      and f: "f = [] \<or> fraction_tail f"
      by (auto simp: seconds_tail_def split: list.splits)
    show ?thesis
    proof (cases "f = []")
      case True
      then have "c = ?a @ [CHR '':'', s1, s2]" using c r by simp
      then show ?thesis using seconds a d by blast
    next
      case False
      then have "fraction_tail f" using f by simp
      then obtain ds where fd: "f = CHR ''.'' # ds" and all: "list_all is_digit ds"
        and len: "length ds = 3 \<or> length ds = 6"
        by (auto simp: fraction_tail_def split: list.splits)
      from len show ?thesis
      proof
        assume "length ds = 3"
        then obtain f1 f2 f3 where ds: "ds = [f1, f2, f3]"
          by (auto simp: length_Suc_conv numeral_3_eq_3)
        have "c = ?a @ [CHR '':'', s1, s2, CHR ''.'', f1, f2, f3]"
          using c r fd ds by simp
        then show ?thesis using millis[of ?a s1 s2 f1 f2 f3] a d all ds by simp
      next
        assume "length ds = 6"
        then obtain f1 f2 f3 f4 f5 f6 where ds: "ds = [f1, f2, f3, f4, f5, f6]"
          by (auto simp: length_Suc_conv eval_nat_numeral)
        have "c = ?a @ [CHR '':'', s1, s2, CHR ''.'', f1, f2, f3, f4, f5, f6]"
          using c r fd ds by simp
        then show ?thesis using micros[of ?a s1 s2 f1 f2 f3 f4 f5 f6] a d all ds by simp
      qed
    qed
  qed
qed

lemma structure_check_append:
  assumes "minute_core a"
  shows "structure_check (a @ r) = Inr True"
  using minute_coreD[OF assms]
  by (simp add: structure_check_def py_index_append_left)

lemma py_slice_core:
  assumes "minute_core a" and "0 \<le> i" and "i \<le> j" and "j \<le> 16"
  shows "py_slice (a @ r) i j = py_slice a i j"
  using minute_coreD(1)[OF assms(1)] assms(2-4) by (intro py_slice_append_left) simp_all

lemma py_index_short: "0 \<le> i \<Longrightarrow> length s \<le> nat i \<Longrightarrow> py_index s i = Inl IndexError"
  by (auto simp: py_index_def Let_def)

lemma seconds_part_suffix:
  assumes "profile_core c" and "suf = [] \<or> hd suf \<noteq> CHR '':''"
  shows "seconds_part (c @ suf) = seconds_part c"
  using assms(1)
proof (cases rule: profile_core_cases)
  case minutes
  have l: "length c = 16" using minutes by (simp add: minute_core_def)
  have "seconds_part c = Inr 0" using l by (simp add: seconds_part_def py_index_short)
  moreover have "seconds_part (c @ suf) = Inr 0"
    using l assms(2)
    by (cases suf) (simp_all add: seconds_part_def py_index_append_right py_index_short)
  ultimately show ?thesis by simp
next
  case (seconds a s1 s2)
  have l: "length a = 16" using seconds by (simp add: minute_core_def)
  show ?thesis
    using l by (simp add: seconds py_index_def seconds_part_def py_slice_def slice_bound_def nth_append)
next
  case (millis a s1 s2 f1 f2 f3)
  have l: "length a = 16" using millis by (simp add: minute_core_def)
  show ?thesis
    using l by (simp add: millis py_index_def seconds_part_def py_slice_def slice_bound_def nth_append)
next
  case (micros a s1 s2 f1 f2 f3 f4 f5 f6)
  have l: "length a = 16" using micros by (simp add: minute_core_def)
  show ?thesis
    using l by (simp add: micros py_index_def seconds_part_def py_slice_def slice_bound_def nth_append)
qed

lemma takeWhile_digits_stop:
  "list_all is_digit ds \<Longrightarrow> suf = [] \<or> \<not> is_digit (hd suf) \<Longrightarrow> takeWhile is_digit (ds @ suf) = ds"
  by (cases suf) (auto simp: list_all_iff takeWhile_append)

lemma ms_part_suffix:
  assumes "profile_core c" and "suf = [] \<or> \<not> is_digit (hd suf)"
    and "list_all (\<lambda>ch. ch \<noteq> CHR ''.'') (take 4 suf)"
  shows "ms_part (c @ suf) = ms_part c"
  using assms(1)
proof (cases rule: profile_core_cases)
  case minutes
  have l: "length c = 16" using minutes by (simp add: minute_core_def)
  have "ms_part c = Inr 0" using l by (simp add: ms_part_def py_index_short)
  moreover have "ms_part (c @ suf) = Inr 0"
  proof (cases "3 < length suf")
    case True
    then have "3 < length (take 4 suf)" and "take 4 suf ! 3 = suf ! 3" by simp_all
    then have "suf ! 3 \<in> set (take 4 suf)" using nth_mem by metis
    then have "suf ! 3 \<noteq> CHR ''.''" using assms(3) by (auto simp: list_all_iff)
    then show ?thesis using l True by (simp add: ms_part_def py_index_append_right)
  next
    case False
    then show ?thesis using l by (simp add: ms_part_def py_index_append_right)
  qed
  ultimately show ?thesis by simp
next
  case (seconds a s1 s2)
  have l: "length c = 19" using seconds by (simp add: minute_core_def)
  have "ms_part c = Inr 0" using l by (simp add: ms_part_def py_index_short)
  moreover have "ms_part (c @ suf) = Inr 0"
  proof (cases suf)
    case Nil
    then show ?thesis using l by (simp add: ms_part_def py_index_short)
  next
    case (Cons x xs)
    then have "x \<noteq> CHR ''.''" using assms(3) by simp
    then show ?thesis using l Cons by (simp add: ms_part_def py_index_append_right)
  qed
  ultimately show ?thesis by simp
next
  case (millis a s1 s2 f1 f2 f3)
  have l: "length a = 16" using millis by (simp add: minute_core_def)
  have d: "list_all is_digit [f1, f2, f3]" using millis by simp
  have i: "py_index (c @ suf) 19 = Inr (CHR ''.'')" "py_index c 19 = Inr (CHR ''.'')"
    using l by (simp_all add: millis py_index_def nth_append)
  have "py_slice_from (c @ suf) 20 = [f1, f2, f3] @ suf" "py_slice_from c 20 = [f1, f2, f3] @ []"
    using l by (simp_all add: millis py_slice_from_def slice_bound_def)
  then have "fragment_digits (c @ suf) = [f1, f2, f3]" "fragment_digits c = [f1, f2, f3]"
    unfolding fragment_digits_def
    using takeWhile_digits_stop[OF d assms(2)] takeWhile_digits_stop[OF d, of "[]"] by simp_all
  then show ?thesis using i by (simp add: ms_part_def)
next
  case (micros a s1 s2 f1 f2 f3 f4 f5 f6)
  have l: "length a = 16" using micros by (simp add: minute_core_def)
  have d: "list_all is_digit [f1, f2, f3, f4, f5, f6]" using micros by simp
  have i: "py_index (c @ suf) 19 = Inr (CHR ''.'')" "py_index c 19 = Inr (CHR ''.'')"
    using l by (simp_all add: micros py_index_def nth_append)
  have "py_slice_from (c @ suf) 20 = [f1, f2, f3, f4, f5, f6] @ suf"
    "py_slice_from c 20 = [f1, f2, f3, f4, f5, f6] @ []"
    using l by (simp_all add: micros py_slice_from_def slice_bound_def)
  then have "fragment_digits (c @ suf) = [f1, f2, f3, f4, f5, f6]"
    "fragment_digits c = [f1, f2, f3, f4, f5, f6]"
    unfolding fragment_digits_def
    using takeWhile_digits_stop[OF d assms(2)] takeWhile_digits_stop[OF d, of "[]"] by simp_all
  then show ?thesis using i by (simp add: ms_part_def)
qed

lemma tz_part_naive:
  assumes "profile_core c"
  shows "tz_part c = Inr None"
  using assms
proof (cases rule: profile_core_cases)
  case minutes
  note d = minute_coreD[OF minutes]
  have "py_index c (- 1) = Inr (c ! 15)" "py_index c (- 6) = Inr (c ! 10)"
    "py_index c (- 5) = Inr (c ! 11)"
    using d(1) by (simp_all add: py_index_neg)
  then show ?thesis
    using d is_digit_not_punct[OF d(8)] is_digit_not_sign[OF d(6)]
    by (simp add: tz_part_def)
next
  case (seconds a s1 s2)
  note d = minute_coreD[OF seconds(2)]
  have "py_index c (- 1) = Inr s2" "py_index c (- 6) = Inr (a ! 13)"
    "py_index c (- 5) = Inr (a ! 14)"
    using d(1) by (simp_all add: seconds(1) py_index_neg nth_append)
  then show ?thesis
    using d is_digit_not_punct[OF seconds(4)] is_digit_not_sign[OF d(7)]
    by (simp add: tz_part_def)
next
  case (millis a s1 s2 f1 f2 f3)
  note d = minute_coreD[OF millis(2)]
  have "py_index c (- 1) = Inr f3" "py_index c (- 6) = Inr s1" "py_index c (- 5) = Inr s2"
    using d(1) by (simp_all add: millis(1) py_index_neg nth_append)
  then show ?thesis
    using is_digit_not_punct[OF millis(7)] is_digit_not_sign[OF millis(3)]
      is_digit_not_sign[OF millis(4)]
    by (simp add: tz_part_def)
next
  case (micros a s1 s2 f1 f2 f3 f4 f5 f6)
  note d = minute_coreD[OF micros(2)]
  have "py_index c (- 1) = Inr f6" "py_index c (- 6) = Inr f1" "py_index c (- 5) = Inr f2"
    using d(1) by (simp_all add: micros(1) py_index_neg nth_append)
  then show ?thesis
    using is_digit_not_punct[OF micros(10)] is_digit_not_sign[OF micros(5)]
      is_digit_not_sign[OF micros(6)]
    by (simp add: tz_part_def)
qed

lemma profile_core_take: "profile_core c \<Longrightarrow> minute_core (take 16 c)"
  by (simp add: profile_core_def)

lemma profile_core_last:
  assumes "profile_core c"
  shows "c \<noteq> []" and "is_digit (last c)"
proof -
  have "c \<noteq> [] \<and> is_digit (last c)"
    using assms
  proof (cases rule: profile_core_cases)
    case minutes
    note d = minute_coreD[OF minutes]
    have "c \<noteq> []" using d(1) by auto
    moreover have "last c = c ! 15" using d(1) by (simp add: last_conv_nth \<open>c \<noteq> []\<close>)
    ultimately show ?thesis using d(8) by simp
  qed simp_all
  then show "c \<noteq> []" and "is_digit (last c)" by simp_all
qed

lemma datetime_new_tz:
  "datetime_new y m d hh mm ss us tz =
     map_sum id (\<lambda>dt. dt\<lparr>tzinfo := tz\<rparr>) (datetime_new y m d hh mm ss us None)"
  by (simp add: datetime_new_def)

lemma and_then_map_sum:
  "(\<And>x. f x = map_sum id h (g x)) \<Longrightarrow> and_then r f = map_sum id h (and_then r g)"
  by (cases r) simp_all

text \<open>After a profile core, a suffix that starts with neither a digit, a colon nor a
  decimal point changes nothing but the zone of the parsed value.\<close>

lemma fromisoformat_core_suffix:
  assumes "profile_core c"
    and "suf = [] \<or> (\<not> is_digit (hd suf) \<and> hd suf \<noteq> CHR '':'')"
    and "list_all (\<lambda>ch. ch \<noteq> CHR ''.'') (take 4 suf)"
    and "tz_part (c @ suf) = Inr tz"
  shows "fromisoformat (c @ suf) = map_sum id (\<lambda>dt. dt\<lparr>tzinfo := tz\<rparr>) (fromisoformat c)"
proof -
  let ?a = "take 16 c" and ?r = "drop 16 c"
  have a: "minute_core ?a" by (rule profile_core_take[OF assms(1)])
  have e: "?a @ (?r @ suf) = c @ suf" "?a @ ?r = c"
    by (metis append_assoc append_take_drop_id) simp
  have st: "structure_check (c @ suf) = Inr True" "structure_check c = Inr True"
    using structure_check_append[OF a, of "?r @ suf"] structure_check_append[OF a, of ?r]
    unfolding e by blast+
  have sl: "py_slice (c @ suf) i j = py_slice c i j" if "0 \<le> i" "i \<le> j" "j \<le> 16" for i j
    using py_slice_core[OF a that, of "?r @ suf"] py_slice_core[OF a that, of ?r]
    unfolding e by simp
  have sec: "seconds_part (c @ suf) = seconds_part c"
    using assms(2) by (intro seconds_part_suffix[OF assms(1)]) blast
  have ms: "ms_part (c @ suf) = ms_part c"
    using assms(2) by (intro ms_part_suffix[OF assms(1) _ assms(3)]) blast
  have s1: "py_slice (c @ suf) 0 4 = py_slice c 0 4" by (rule sl) simp_all
  have s2: "py_slice (c @ suf) 5 7 = py_slice c 5 7" by (rule sl) simp_all
  have s3: "py_slice (c @ suf) 8 10 = py_slice c 8 10" by (rule sl) simp_all
  have s4: "py_slice (c @ suf) 11 13 = py_slice c 11 13" by (rule sl) simp_all
  have s5: "py_slice (c @ suf) 14 16 = py_slice c 14 16" by (rule sl) simp_all
  show ?thesis
    unfolding fromisoformat_def st sec ms assms(4) tz_part_naive[OF assms(1)] and_then_Inr if_True
      s1 s2 s3 s4 s5
    by (intro and_then_map_sum) (rule datetime_new_tz)
qed

lemma py_int_sign_one:
  "py_int [CHR ''+'', CHR ''1''] = Inr 1" "py_int [CHR ''-'', CHR ''1''] = Inr (- 1)"
  by (simp_all add: py_int_def strip_def is_space_def int_body_def is_digit_def digit_val_def)

lemma tz_offset_of_digits:
  assumes "sg = CHR ''+'' \<or> sg = CHR ''-''"
    and "is_digit h1" "is_digit h2" "is_digit m1" "is_digit m2"
  shows "tz_offset_of sg [h1, h2] [m1, m2]
           = Inr (Some (TzOffset (offset_seconds sg [h1, h2] [m1, m2])))"
proof -
  have h: "py_int [h1, h2] = Inr (digits_value [h1, h2])"
    using assms by (intro py_int_digits) simp_all
  have m: "py_int [m1, m2] = Inr (digits_value [m1, m2])"
    using assms by (intro py_int_digits) simp_all
  show ?thesis
    using assms(1) by (auto simp: tz_offset_of_def offset_seconds_def h m py_int_sign_one)
qed

text \<open>
  Claim C5. After a timestamp of the profile (without suffix), the six-character suffix
  \<open>\<plusminus>hh:mm\<close> and the five-character suffix \<open>\<plusminus>hhmm\<close> with the same sign and digits give the
  same result: the value parsed from the timestamp alone with its zone set to the fixed
  offset \<open>sign * (hh * 3600 + mm * 60)\<close> seconds (or the same failure). Equal values have
  equal UTC equivalents. A trailing \<open>Z\<close> gives the same value with zone UTC, and without
  any suffix the parsed value is naive.
\<close>

theorem zone_suffix_styles:
  assumes "profile_core c" and "sg = CHR ''+'' \<or> sg = CHR ''-''"
    and "is_digit h1" and "is_digit h2" and "is_digit m1" and "is_digit m2"
  shows "fromisoformat (c @ [sg, h1, h2, CHR '':'', m1, m2])
           = map_sum id (\<lambda>dt. dt\<lparr>tzinfo := Some (TzOffset (offset_seconds sg [h1, h2] [m1, m2]))\<rparr>)
               (fromisoformat c)
       \<and> fromisoformat (c @ [sg, h1, h2, m1, m2])
           = fromisoformat (c @ [sg, h1, h2, CHR '':'', m1, m2])
       \<and> map_sum id utc_equivalent (fromisoformat (c @ [sg, h1, h2, m1, m2]))
           = map_sum id utc_equivalent (fromisoformat (c @ [sg, h1, h2, CHR '':'', m1, m2]))
       \<and> (\<forall>dt. fromisoformat c = Inr dt \<longrightarrow>
             datetime_parse catalog win_tz parse_any (c @ [sg, h1, h2, m1, m2]) None
               = Inr (dt\<lparr>tzinfo := Some (TzOffset (offset_seconds sg [h1, h2] [m1, m2]))\<rparr>)
           \<and> datetime_parse catalog win_tz parse_any (c @ [sg, h1, h2, CHR '':'', m1, m2]) None
               = Inr (dt\<lparr>tzinfo := Some (TzOffset (offset_seconds sg [h1, h2] [m1, m2]))\<rparr>))
       \<and> fromisoformat (c @ ''Z'') = map_sum id (\<lambda>dt. dt\<lparr>tzinfo := Some UTC\<rparr>) (fromisoformat c)
       \<and> (\<forall>dt. fromisoformat c = Inr dt \<longrightarrow> tzinfo dt = None)"
proof -
  let ?tz = "Some (TzOffset (offset_seconds sg [h1, h2] [m1, m2]))"
  have sgn: "\<not> is_digit sg \<and> sg \<noteq> CHR '':'' \<and> sg \<noteq> CHR ''.''"
    using assms(2) by (auto simp: is_digit_def)
  have mz: "m2 \<noteq> CHR ''Z''" using is_digit_not_punct[OF assms(6)] by simp
  have t6: "tz_part (c @ [sg, h1, h2, CHR '':'', m1, m2]) = Inr ?tz"
    using tz_part_colon[OF assms(2) mz] tz_offset_of_digits[OF assms(2-6)] by simp
  have l: "c \<noteq> []" "last c \<noteq> CHR ''+''" "last c \<noteq> CHR ''-''"
    using profile_core_last[OF assms(1)] is_digit_not_sign by blast+
  have t5: "tz_part (c @ [sg, h1, h2, m1, m2]) = Inr ?tz"
    using tz_part_short[OF assms(2) mz l] tz_offset_of_digits[OF assms(2-6)] by simp
  have f6: "fromisoformat (c @ [sg, h1, h2, CHR '':'', m1, m2])
              = map_sum id (\<lambda>dt. dt\<lparr>tzinfo := ?tz\<rparr>) (fromisoformat c)"
    using sgn is_digit_not_punct[OF assms(3)] is_digit_not_punct[OF assms(4)]
    by (intro fromisoformat_core_suffix[OF assms(1) _ _ t6]) simp_all
  have f5: "fromisoformat (c @ [sg, h1, h2, m1, m2])
              = map_sum id (\<lambda>dt. dt\<lparr>tzinfo := ?tz\<rparr>) (fromisoformat c)"
    using sgn is_digit_not_punct[OF assms(3)] is_digit_not_punct[OF assms(4)]
      is_digit_not_punct[OF assms(5)]
    by (intro fromisoformat_core_suffix[OF assms(1) _ _ t5]) simp_all
  have fz: "fromisoformat (c @ ''Z'') = map_sum id (\<lambda>dt. dt\<lparr>tzinfo := Some UTC\<rparr>) (fromisoformat c)"
    by (intro fromisoformat_core_suffix[OF assms(1) _ _ tz_part_Z]) (simp_all add: is_digit_def)
  have naive: "tzinfo dt = None" if r: "fromisoformat c = Inr dt" for dt
  proof -
    from r obtain sec ms tz y mo d hh mi where
      "tz_part c = Inr tz" "datetime_new (max 1 y) (max 1 mo) (max 1 d) hh mi sec ms tz = Inr dt"
      by (rule fromisoformat_InrD)
    then show ?thesis
      using tz_part_naive[OF assms(1)] datetime_new_InrD by fastforce
  qed
  have p: "datetime_parse catalog win_tz parse_any (c @ [sg, h1, h2, m1, m2]) None
               = Inr (dt\<lparr>tzinfo := ?tz\<rparr>)
           \<and> datetime_parse catalog win_tz parse_any (c @ [sg, h1, h2, CHR '':'', m1, m2]) None
               = Inr (dt\<lparr>tzinfo := ?tz\<rparr>)" if r: "fromisoformat c = Inr dt" for dt
    using f5 f6 r by (simp add: datetime_parse_fast)
  show ?thesis
    using f6 f5 fz naive p by simp
qed

theorem zone_suffix_styles_witness:
  "profile_core ''2017-11-13T12:15:01''
   \<and> is_digit (CHR ''0'') \<and> is_digit (CHR ''2'')
   \<and> fromisoformat ''2017-11-13T12:15:01''
       = Inr \<lparr>year = 2017, month = 11, day = 13, hour = 12, minute = 15, second = 1,
               microsecond = 0, tzinfo = None\<rparr>
   \<and> fromisoformat ''2017-11-13T12:15:01+02:00''
       = Inr \<lparr>year = 2017, month = 11, day = 13, hour = 12, minute = 15, second = 1,
               microsecond = 0, tzinfo = Some (TzOffset 7200)\<rparr>
   \<and> fromisoformat ''2017-11-13T12:15:01+0200'' = fromisoformat ''2017-11-13T12:15:01+02:00''
   \<and> fromisoformat ''2017-11-13T12:15:01Z''
       = Inr \<lparr>year = 2017, month = 11, day = 13, hour = 12, minute = 15, second = 1,
               microsecond = 0, tzinfo = Some UTC\<rparr>"
proof -
  have c: "profile_core ''2017-11-13T12:15:01''" by code_simp
  have d: "is_digit (CHR ''0'')" "is_digit (CHR ''2'')" by (simp_all add: is_digit_def)
  have s: "CHR ''+'' = CHR ''+'' \<or> CHR ''+'' = CHR ''-''" by simp
  have n: "fromisoformat ''2017-11-13T12:15:01''
       = Inr \<lparr>year = 2017, month = 11, day = 13, hour = 12, minute = 15, second = 1,
               microsecond = 0, tzinfo = None\<rparr>" by code_simp
  have o: "offset_seconds (CHR ''+'') ''02'' ''00'' = 7200" by code_simp
  note t = zone_suffix_styles[OF c s d(1) d(2) d(1) d(1), of Map.empty Map.empty
      "\<lambda>t. Inl (ValueError ''no parse'')"]
  have a: "fromisoformat ''2017-11-13T12:15:01+02:00''
       = Inr \<lparr>year = 2017, month = 11, day = 13, hour = 12, minute = 15, second = 1,
               microsecond = 0, tzinfo = Some (TzOffset 7200)\<rparr>"
    using t[THEN conjunct1] by (simp add: n o)
  have b: "fromisoformat ''2017-11-13T12:15:01+0200'' = fromisoformat ''2017-11-13T12:15:01+02:00''"
    using t[THEN conjunct2, THEN conjunct1] by simp
  have z: "fromisoformat ''2017-11-13T12:15:01Z''
       = Inr \<lparr>year = 2017, month = 11, day = 13, hour = 12, minute = 15, second = 1,
               microsecond = 0, tzinfo = Some UTC\<rparr>"
    using t[THEN conjunct2, THEN conjunct2, THEN conjunct2, THEN conjunct2, THEN conjunct1]
    by (simp add: n)
  show ?thesis
    by (intro conjI, rule c, rule d(1), rule d(2), rule n, rule a, rule b, rule z)
qed

section \<open>The duration grammar: proofs\<close>

lemma seqs_Cons: "seqs (r # rs) = Seq r (seqs rs)"
  by (simp add: seqs_def)

lemma duration_body_P: "\<exists>rest. duration_body = Seq (Chr CHR ''P'') rest"
  by (simp add: duration_body_def seqs_Cons)

lemma rmatch_Chr_prev: "rmatch (Seq (Chr c) r) (p, s) k = rmatch (Seq (Chr c) r) (p', s) k"
  by simp

lemma body_prev: "rmatch duration_body (p, s) k = rmatch duration_body (p', s) k"
proof -
  obtain rest where r: "duration_body = Seq (Chr CHR ''P'') rest"
    using duration_body_P by blast
  show ?thesis unfolding r by (rule rmatch_Chr_prev)
qed

lemma body_needs_P:
  assumes "take 1 s \<noteq> ''P''"
  shows "rmatch duration_body (p, s) k = None"
proof -
  obtain rest where r: "duration_body = Seq (Chr CHR ''P'') rest"
    using duration_body_P by blast
  show ?thesis using assms unfolding r by (cases s) auto
qed

text \<open>A text that starts with \<open>P\<close> is matched by the grammar after the sign; the same
  text behind a minus sign is matched the same way, with the group \<open>sign\<close> in front.\<close>

lemma match_unsigned:
  assumes "take 1 s = ''P''"
  shows "regex_match ISO8601_DURATION s = rmatch duration_body (None, s) (\<lambda>st. Some [])"
proof -
  obtain t where s: "s = CHR ''P'' # t" using assms by (cases s) auto
  show ?thesis by (simp add: regex_match_def ISO8601_DURATION_def s)
qed

lemma match_minus:
  "regex_match ISO8601_DURATION (CHR ''-'' # s)
     = map_option ((#) (''sign'', ''-'')) (rmatch duration_body (None, s) (\<lambda>st. Some []))"
proof -
  have n: "rmatch duration_body (None, CHR ''-'' # s) (\<lambda>st. Some []) = None"
    by (rule body_needs_P) simp
  have p: "rmatch duration_body (Some CHR ''-'', s) (\<lambda>st. Some [])
             = rmatch duration_body (None, s) (\<lambda>st. Some [])"
    by (rule body_prev)
  show ?thesis
    by (simp add: regex_match_def ISO8601_DURATION_def n p split: option.splits)
qed

text \<open>The names of the groups of a regular expression, and the groups of a match: those
  of the expression, in front of those of the continuation.\<close>

lemma star_cls_groups:
  "star_cls cs k p s = Some g \<Longrightarrow> \<exists>st. k st = Some g"
  by (induction cs k p s rule: star_cls.induct) (auto split: if_splits option.splits)

lemma rmatch_groups:
  "rmatch r st k = Some g \<Longrightarrow>
   \<exists>st' pre g'. k st' = Some g' \<and> g = pre @ g' \<and> fst ` set pre \<subseteq> group_names r"
proof (induction r arbitrary: st k g)
  case (ClsPlus cs)
  then obtain st' where "k st' = Some g"
    by (auto split: list.splits if_splits dest: star_cls_groups)
  then show ?case by (intro exI[of _ st'] exI[of _ "[]"] exI[of _ g]) simp
next
  case (Seq a b)
  from Seq.prems have "rmatch a st (\<lambda>st'. rmatch b st' k) = Some g" by simp
  from Seq.IH(1)[OF this] obtain st1 pre1 g1 where
    1: "rmatch b st1 k = Some g1" "g = pre1 @ g1" "fst ` set pre1 \<subseteq> group_names a" by blast
  from Seq.IH(2)[OF 1(1)] obtain st2 pre2 g2 where
    2: "k st2 = Some g2" "g1 = pre2 @ g2" "fst ` set pre2 \<subseteq> group_names b" by blast
  show ?case
    using 1 2 by (intro exI[of _ st2] exI[of _ "pre1 @ pre2"] exI[of _ g2]) auto
next
  case (Opt r)
  show ?case
  proof (cases "rmatch r st k")
    case None
    then have "k st = Some g" using Opt.prems by simp
    then show ?thesis by (intro exI[of _ st] exI[of _ "[]"] exI[of _ g]) simp
  next
    case (Some a)
    then have "rmatch r st k = Some g" using Opt.prems by simp
    from Opt.IH[OF this] show ?thesis by simp
  qed
next
  case (Grp name r)
  let ?k = "\<lambda>st'. map_option ((#) (name, take (length (snd st) - length (snd st')) (snd st))) (k st')"
  from Grp.prems have "rmatch r st ?k = Some g" by simp
  from Grp.IH[OF this] obtain st1 pre1 g1 where
    1: "?k st1 = Some g1" "g = pre1 @ g1" "fst ` set pre1 \<subseteq> group_names r" by blast
  from 1(1) obtain g2 where 2: "k st1 = Some g2"
    "g1 = (name, take (length (snd st) - length (snd st1)) (snd st)) # g2" by auto
  show ?case
    using 1 2
    by (intro exI[of _ st1]
        exI[of _ "pre1 @ [(name, take (length (snd st) - length (snd st1)) (snd st))]"]
        exI[of _ g2]) auto
next
  case (NegLookahead r)
  then have "k st = Some g" by (auto split: option.splits)
  then show ?case by (intro exI[of _ st] exI[of _ "[]"] exI[of _ g]) simp
qed (auto split: list.splits if_splits simp: Let_def)

lemma body_group_names: "''sign'' \<notin> group_names duration_body"
  by (simp add: duration_body_def seqs_def field_def number_def)

lemma body_no_sign:
  assumes "rmatch duration_body st (\<lambda>st. Some []) = Some m"
  shows "map_of m ''sign'' = None"
proof -
  from rmatch_groups[OF assms] have "fst ` set m \<subseteq> group_names duration_body" by auto
  then have "''sign'' \<notin> fst ` set m" using body_group_names by blast
  then show ?thesis by (simp add: map_of_eq_None_iff)
qed

section \<open>The sign of a duration: proofs\<close>

lemma binary64_neg: "binary64 (- q) = fneg (binary64 q)"
  by (cases "q = 0"; cases "q < 0") (auto simp: binary64_def fneg_def Let_def)

lemma float_of_int_unit: "float_of_int 1 = Inr (Fin 1)" "float_of_int (- 1) = Inr (Fin (- 1))"
  by code_simp+

lemma fmul_minus_one: "fmul (Fin (- 1)) f = fneg (fmul (Fin 1) f)"
  using binary64_neg[of "1 * q" for q]
  by (cases f) (simp_all add: fmul_def fneg_def)

text \<open>A number times the sign 1.\<close>

lemma py_mul_one:
  "py_mul (PyInt 1) v =
     Inr (case v of PyInt i \<Rightarrow> PyInt i | PyFloat f \<Rightarrow> PyFloat (fmul (Fin 1) f))"
  by (cases v) (simp_all add: py_mul_def to_float_def float_of_int_unit)

lemma py_mul_minus_one:
  "py_mul (PyInt (- 1)) v =
     Inr (py_neg (case v of PyInt i \<Rightarrow> PyInt i | PyFloat f \<Rightarrow> PyFloat (fmul (Fin 1) f)))"
  by (cases v) (simp_all add: py_mul_def to_float_def float_of_int_unit py_neg_def fmul_minus_one)

lemma and_then_assoc: "and_then (and_then r f) g = and_then r (\<lambda>x. and_then (f x) g)"
  by (cases r) simp_all

lemma matched_delta_minus:
  "matched_delta (- 1) matches = map_sum id delta_neg (matched_delta 1 matches)"
  unfolding matched_delta_def signed_value_def py_mul_one py_mul_minus_one and_then_assoc
    and_then_Inr case_prod_beta
  by (intro and_then_map_sum) (simp add: delta_neg_def)

lemma matched_delta_cong:
  assumes "\<And>n. n \<in> {''years'', ''months'', ''days'', ''weeks'', ''hours'', ''minutes'', ''seconds''}
            \<Longrightarrow> f n = g n"
  shows "matched_delta sign f = matched_delta sign g"
  unfolding matched_delta_def using assms by simp

lemma signed_value_missing: "signed_value sign None = Inr (PyInt 0)"
  by (simp add: signed_value_def parse_single_duration_value_def py_mul_def)

lemma matched_delta_missing:
  assumes "matched_delta sign matches = Inr d"
  shows "(matches ''years'' = None \<longrightarrow> years d = PyInt 0)
     \<and> (matches ''months'' = None \<and> matches ''years'' = None \<longrightarrow> months d = PyInt 0)
     \<and> (matches ''days'' = None \<longrightarrow> days d = PyInt 0)
     \<and> (matches ''weeks'' = None \<longrightarrow> weeks d = PyInt 0)
     \<and> (matches ''hours'' = None \<longrightarrow> hours d = PyInt 0)
     \<and> (matches ''minutes'' = None \<longrightarrow> minutes d = PyInt 0)
     \<and> (matches ''seconds'' = None \<longrightarrow> seconds d = PyInt 0)"
proof -
  from assms obtain yrs extra a_years ms total a_months a_days a_weeks a_hours a_minutes a_seconds
    where p: "parse_duration_years (matches ''years'') = Inr (yrs, extra)"
      "py_mul (PyInt sign) yrs = Inr a_years"
      "parse_duration_months (matches ''months'') = Inr ms"
      "py_add ms extra = Inr total"
      "py_mul (PyInt sign) total = Inr a_months"
      "signed_value sign (matches ''days'') = Inr a_days"
      "signed_value sign (matches ''weeks'') = Inr a_weeks"
      "signed_value sign (matches ''hours'') = Inr a_hours"
      "signed_value sign (matches ''minutes'') = Inr a_minutes"
      "signed_value sign (matches ''seconds'') = Inr a_seconds"
      and d: "d = \<lparr>years = a_years, months = a_months, days = a_days, weeks = a_weeks,
             hours = a_hours, minutes = a_minutes, seconds = a_seconds\<rparr>"
    unfolding matched_delta_def and_then_Inr_iff case_prod_beta
    by (metis prod.collapse sum.inject(2))
  have y: "matches ''years'' = None \<Longrightarrow> yrs = PyInt 0 \<and> extra = PyInt 0"
    using p(1) by (auto simp add: parse_duration_years_def)
  have mo: "matches ''months'' = None \<Longrightarrow> ms = PyInt 0"
    using p(3) by (simp add: parse_duration_months_def)
  show ?thesis
    using p y mo unfolding d
    by (auto simp: signed_value_missing py_mul_def py_add_def)
qed

text \<open>
  Claim C9. For every text \<open>s\<close> that starts with \<open>P\<close> and matches the grammar, the text
  \<open>"-" + s\<close> is parsed to the component-wise negation of the delta of \<open>s\<close> (or fails with the
  same error). The delta of \<open>s\<close> itself has every field times the factor 1, and a field
  whose group is missing is 0 (for the months: when the years group, which can contribute
  months, is missing as well).
\<close>

theorem leading_minus_negates:
  assumes "regex_match ISO8601_DURATION s = Some m" and "take 1 s = ''P''"
  shows "parse_iso_duration catalog win_tz parse_any (CHR ''-'' # s)
           = map_sum id delta_neg (parse_iso_duration catalog win_tz parse_any s)
     \<and> parse_iso_duration catalog win_tz parse_any s = matched_delta 1 (map_of m)
     \<and> parse_iso_duration catalog win_tz parse_any (CHR ''-'' # s) = matched_delta (- 1) (map_of m)
     \<and> (\<forall>d. parse_iso_duration catalog win_tz parse_any s = Inr d \<longrightarrow>
            (map_of m ''years'' = None \<longrightarrow> years d = PyInt 0)
          \<and> (map_of m ''months'' = None \<and> map_of m ''years'' = None \<longrightarrow> months d = PyInt 0)
          \<and> (map_of m ''days'' = None \<longrightarrow> days d = PyInt 0)
          \<and> (map_of m ''weeks'' = None \<longrightarrow> weeks d = PyInt 0)
          \<and> (map_of m ''hours'' = None \<longrightarrow> hours d = PyInt 0)
          \<and> (map_of m ''minutes'' = None \<longrightarrow> minutes d = PyInt 0)
          \<and> (map_of m ''seconds'' = None \<longrightarrow> seconds d = PyInt 0))"
proof -
  have b: "rmatch duration_body (None, s) (\<lambda>st. Some []) = Some m"
    using assms match_unsigned by simp
  have ns: "map_of m ''sign'' = None" by (rule body_no_sign[OF b])
  have pos: "parse_iso_duration catalog win_tz parse_any s = matched_delta 1 (map_of m)"
    by (simp add: parse_iso_duration_def assms(1) ns)
  have mm: "regex_match ISO8601_DURATION (CHR ''-'' # s) = Some ((''sign'', ''-'') # m)"
    by (simp add: match_minus b)
  have "parse_iso_duration catalog win_tz parse_any (CHR ''-'' # s)
          = matched_delta (- 1) (map_of ((''sign'', ''-'') # m))"
    by (simp add: parse_iso_duration_def mm)
  also have "\<dots> = matched_delta (- 1) (map_of m)"
    by (rule matched_delta_cong) auto
  finally have neg: "parse_iso_duration catalog win_tz parse_any (CHR ''-'' # s)
          = matched_delta (- 1) (map_of m)" .
  have rel: "parse_iso_duration catalog win_tz parse_any (CHR ''-'' # s)
           = map_sum id delta_neg (parse_iso_duration catalog win_tz parse_any s)"
    by (simp only: neg pos matched_delta_minus)
  have miss: "(map_of m ''years'' = None \<longrightarrow> years d = PyInt 0)
          \<and> (map_of m ''months'' = None \<and> map_of m ''years'' = None \<longrightarrow> months d = PyInt 0)
          \<and> (map_of m ''days'' = None \<longrightarrow> days d = PyInt 0)
          \<and> (map_of m ''weeks'' = None \<longrightarrow> weeks d = PyInt 0)
          \<and> (map_of m ''hours'' = None \<longrightarrow> hours d = PyInt 0)
          \<and> (map_of m ''minutes'' = None \<longrightarrow> minutes d = PyInt 0)
          \<and> (map_of m ''seconds'' = None \<longrightarrow> seconds d = PyInt 0)"
    if "parse_iso_duration catalog win_tz parse_any s = Inr d" for d
    using that unfolding pos by (rule matched_delta_missing)
  show ?thesis
    using rel pos neg miss by blast
qed

text \<open>The spec's example: \<^verbatim>\<open>-P1Y2M3D\<close> against \<^verbatim>\<open>P1Y2M3D\<close>.\<close>

theorem leading_minus_negates_witness:
  "regex_match ISO8601_DURATION ''P1Y2M3D''
     = Some [(''years'', ''1Y''), (''months'', ''2M''), (''days'', ''3D'')]
   \<and> take 1 ''P1Y2M3D'' = ''P''
   \<and> parse_iso_duration Map.empty Map.empty (\<lambda>t. Inl (ValueError ''no parse'')) ''P1Y2M3D''
     = Inr \<lparr>years = PyInt 1, months = PyInt 2, days = PyFloat (Fin 3), weeks = PyInt 0,
            hours = PyInt 0, minutes = PyInt 0, seconds = PyInt 0\<rparr>
   \<and> parse_iso_duration Map.empty Map.empty (\<lambda>t. Inl (ValueError ''no parse'')) ''-P1Y2M3D''
     = Inr \<lparr>years = PyInt (- 1), months = PyInt (- 2), days = PyFloat (Fin (- 3)),
            weeks = PyInt 0, hours = PyInt 0, minutes = PyInt 0, seconds = PyInt 0\<rparr>"
proof -
  let ?p = "parse_iso_duration Map.empty Map.empty (\<lambda>t. Inl (ValueError ''no parse''))"
  have m: "regex_match ISO8601_DURATION ''P1Y2M3D''
     = Some [(''years'', ''1Y''), (''months'', ''2M''), (''days'', ''3D'')]" by code_simp
  have t: "take 1 ''P1Y2M3D'' = ''P''" by simp
  have v: "matched_delta 1 (map_of [(''years'', ''1Y''), (''months'', ''2M''), (''days'', ''3D'')])
     = Inr \<lparr>years = PyInt 1, months = PyInt 2, days = PyFloat (Fin 3), weeks = PyInt 0,
            hours = PyInt 0, minutes = PyInt 0, seconds = PyInt 0\<rparr>" by code_simp
  note r = leading_minus_negates[OF m t, of Map.empty Map.empty "\<lambda>t. Inl (ValueError ''no parse'')"]
  have a: "?p ''P1Y2M3D''
     = Inr \<lparr>years = PyInt 1, months = PyInt 2, days = PyFloat (Fin 3), weeks = PyInt 0,
            hours = PyInt 0, minutes = PyInt 0, seconds = PyInt 0\<rparr>"
    using r[THEN conjunct2, THEN conjunct1] v by simp
  have b: "?p ''-P1Y2M3D''
     = Inr \<lparr>years = PyInt (- 1), months = PyInt (- 2), days = PyFloat (Fin (- 3)),
            weeks = PyInt 0, hours = PyInt 0, minutes = PyInt 0, seconds = PyInt 0\<rparr>"
    using r[THEN conjunct1] a by (simp add: delta_neg_def py_neg_def fneg_def)
  show ?thesis
    by (intro conjI, rule m, rule t, rule a, rule b)
qed

section \<open>The text P alone: proofs\<close>

lemma fromisoformat_empty: "fromisoformat [] = Inl IndexError"
  by (simp add: fromisoformat_def structure_check_def py_index_def)

lemma no_match_P: "regex_match ISO8601_DURATION ''P'' = None"
  by code_simp

lemma match_PT: "regex_match ISO8601_DURATION ''PT'' = Some [(''separator'', ''T'')]"
  by code_simp

lemma matched_delta_empty: "matched_delta 1 (map_of [(''separator'', ''T'')]) = Inr zero_delta"
  by code_simp

text \<open>
  Claim C1 (amended). The text \<open>P\<close> alone is not matched by the grammar: the lookahead
  after \<open>P\<close> refuses the end of the text. The parse goes to the fallback, which hands the
  empty remainder to the timestamp parser; its fast path fails on the empty text, so the
  outcome is the generic parser's: when that fails, the parse fails with
  \<open>ValueError\<close> (\<open>Could not parse P\<close>), and when it returns a date-time, its fields become
  the delta. The text \<open>PT\<close> is matched, with no field, and is parsed to the all-zero delta.
\<close>

theorem bare_P_rejected:
  "regex_match ISO8601_DURATION ''P'' = None
   \<and> (\<forall>e. parse_any [] = Inl e \<longrightarrow>
         parse_iso_duration catalog win_tz parse_any ''P'' = Inl (ValueError ''Could not parse P''))
   \<and> (\<forall>dt. parse_any [] = Inr dt \<longrightarrow>
         parse_iso_duration catalog win_tz parse_any ''P'' = Inr (delta_of_datetime dt))
   \<and> regex_match ISO8601_DURATION ''PT'' = Some [(''separator'', ''T'')]
   \<and> parse_iso_duration catalog win_tz parse_any ''PT'' = Inr zero_delta"
proof (intro conjI allI impI)
  show "regex_match ISO8601_DURATION ''P'' = None" by (rule no_match_P)
  show "regex_match ISO8601_DURATION ''PT'' = Some [(''separator'', ''T'')]" by (rule match_PT)
  have fb: "datetime_parse catalog win_tz parse_any (py_slice_from ''P'' 1) None = parse_any []"
    using datetime_parse_fallback[OF fromisoformat_empty]
    by (simp add: py_slice_from_def slice_bound_def)
  {
    fix e assume "parse_any [] = Inl e"
    then show "parse_iso_duration catalog win_tz parse_any ''P'' = Inl (ValueError ''Could not parse P'')"
      by (simp add: parse_iso_duration_def no_match_P fb)
  }
  {
    fix dt assume "parse_any [] = Inr dt"
    then show "parse_iso_duration catalog win_tz parse_any ''P'' = Inr (delta_of_datetime dt)"
      by (simp add: parse_iso_duration_def no_match_P fb)
  }
  show "parse_iso_duration catalog win_tz parse_any ''PT'' = Inr zero_delta"
    using matched_delta_empty by (simp add: parse_iso_duration_def match_PT)
qed

theorem bare_P_rejected_witness:
  "(\<lambda>t. Inl (ValueError ''String does not contain a date'') :: error + datetime) []
      = Inl (ValueError ''String does not contain a date'')
   \<and> parse_iso_duration Map.empty Map.empty
        (\<lambda>t. Inl (ValueError ''String does not contain a date'')) ''P''
      = Inl (ValueError ''Could not parse P'')
   \<and> parse_iso_duration Map.empty Map.empty
        (\<lambda>t. Inl (ValueError ''String does not contain a date'')) ''PT''
      = Inr zero_delta"
proof -
  let ?f = "\<lambda>t. Inl (ValueError ''String does not contain a date'') :: error + datetime"
  have h: "?f [] = Inl (ValueError ''String does not contain a date'')" by simp
  note t = bare_P_rejected[of ?f Map.empty Map.empty]
  show ?thesis
    by (intro conjI, rule h, rule t[THEN conjunct2, THEN conjunct1, THEN spec, THEN mp, OF h],
        rule t[THEN conjunct2, THEN conjunct2, THEN conjunct2, THEN conjunct2])
qed

text \<open>The claim as stated fails: the grammar-level match of \<open>P\<close> alone is no match, and with
  a generic parser that rejects the empty text the parse is an error, not the all-zero
  delta.\<close>

theorem bare_P_rejected_counterexample:
  "regex_match ISO8601_DURATION ''P'' = None
   \<and> parse_iso_duration Map.empty Map.empty
        (\<lambda>t. Inl (ValueError ''String does not contain a date'')) ''P''
      = Inl (ValueError ''Could not parse P'')
   \<and> parse_iso_duration Map.empty Map.empty
        (\<lambda>t. Inl (ValueError ''String does not contain a date'')) ''P''
      \<noteq> Inr zero_delta"
  by (simp add: parse_iso_duration_def no_match_P datetime_parse_def fromisoformat_empty
      py_slice_from_def slice_bound_def)

section \<open>Rounding to binary64: proofs\<close>

lemma bitlen_rat_bounds:
  assumes "0 < (x :: int)"
  shows "2 powi (bitlen x - 1) \<le> (of_int x :: rat)" and "(of_int x :: rat) < 2 powi (bitlen x)"
proof -
  have b: "2 ^ nat (bitlen x - 1) \<le> x" "x < 2 ^ nat (bitlen x)"
    using bitlen_bounds[OF assms] by simp_all
  have ge: "1 \<le> bitlen x" using assms by (auto simp: bitlen_alt_def)
  have "(of_int (2 ^ nat (bitlen x - 1)) :: rat) \<le> of_int x" using b(1) by (simp only: of_int_le_iff)
  then show "2 powi (bitlen x - 1) \<le> (of_int x :: rat)"
    using ge by (simp add: power_int_nonneg_exp)
  have "(of_int x :: rat) < of_int (2 ^ nat (bitlen x))" using b(2) by (simp only: of_int_less_iff)
  then show "(of_int x :: rat) < 2 powi (bitlen x)"
    using ge by (simp add: power_int_nonneg_exp)
qed

lemma floor_log2_bounds:
  assumes "0 < a"
  shows "2 powi (floor_log2 a) \<le> a" and "a < 2 powi (floor_log2 a + 1)"
proof -
  obtain n d where qd: "quotient_of a = (n, d)" by (cases "quotient_of a") auto
  have d: "0 < d" using quotient_of_denom_pos[OF qd] .
  have a: "a = of_int n / of_int d" using quotient_of_div[OF qd] .
  have n: "0 < n" using assms d unfolding a by (simp add: zero_less_divide_iff)
  let ?k = "bitlen n - bitlen d"
  note bn = bitlen_rat_bounds[OF n] and bd = bitlen_rat_bounds[OF d]
  have dpos: "(0 :: rat) < of_int d" using d by simp
  have p: "(0 :: rat) < 2 powi j" for j by (simp add: zero_less_power_int)
  have npos: "(0 :: rat) \<le> of_int n" using n by simp
  have "a < 2 powi (bitlen n) / 2 powi (bitlen d - 1)"
    unfolding a by (rule frac_less[OF npos bn(2) p bd(1)])
  also have "\<dots> = 2 powi (?k + 1)"
    by (simp add: power_int_diff[symmetric] algebra_simps)
  finally have up: "a < 2 powi (?k + 1)" .
  have "2 powi (bitlen n - 1) / 2 powi (bitlen d) \<le> a"
    unfolding a by (rule frac_le[OF npos bn(1) dpos less_imp_le[OF bd(2)]])
  moreover have "2 powi (bitlen n - 1) / 2 powi (bitlen d) = (2 :: rat) powi (?k - 1)"
    by (simp add: power_int_diff[symmetric] algebra_simps)
  ultimately have lo: "2 powi (?k - 1) \<le> a" by simp
  have f: "floor_log2 a = (if 2 powi ?k \<le> a then ?k else ?k - 1)"
    by (simp add: floor_log2_def qd)
  show "2 powi (floor_log2 a) \<le> a" using lo by (simp add: f)
  show "a < 2 powi (floor_log2 a + 1)" using up by (auto simp: f not_le)
qed

lemma round_half_even_error: "\<bar>of_int (round_half_even t) - t\<bar> \<le> 1 / 2"
proof -
  have "of_int \<lfloor>t\<rfloor> \<le> t" "t < of_int \<lfloor>t\<rfloor> + 1" by linarith+
  then show ?thesis
    by (auto simp: round_half_even_def Let_def abs_le_iff)
qed

lemma round_half_even_of_int [simp]: "round_half_even (of_int m) = m"
  by (simp add: round_half_even_def)

text \<open>The error of rounding a value below \<open>2 ^ n\<close>, for \<open>n\<close> up to 1023: at most half a unit in
  the last place of the binade below \<open>2 ^ n\<close>. Such a value does not overflow.\<close>

lemma binary64_error:
  assumes "\<bar>q\<bar> < 2 ^ n" and "n \<le> 1023"
  shows "\<exists>r. binary64 q = Fin r \<and> \<bar>r - q\<bar> \<le> 2 ^ n / 2 ^ 54"
proof (cases "q = 0")
  case True
  then show ?thesis by (simp add: binary64_def)
next
  case False
  let ?a = "\<bar>q\<bar>"
  let ?e = "max (floor_log2 ?a) (- 1022)"
  let ?m = "round_half_even (?a / 2 powi (?e - 52))"
  have a: "0 < ?a" using False by simp
  have "2 powi (floor_log2 ?a) \<le> ?a" by (rule floor_log2_bounds(1)[OF a])
  also have "?a < 2 powi (int n)" using assms(1) by simp
  finally have "floor_log2 ?a < int n"
    by (intro power_int_le_imp_less_exp[of "2 :: rat"]) simp_all
  then have e: "?e \<le> int n - 1" by simp
  then have e': "?e \<le> 1022" using assms(2) by simp
  have u: "(0 :: rat) < 2 powi (?e - 52)" by (simp add: zero_less_power_int)
  have "of_int ?m * 2 powi (?e - 52) - ?a = (of_int ?m - ?a / 2 powi (?e - 52)) * 2 powi (?e - 52)"
    using u by (simp add: field_simps)
  then have "\<bar>of_int ?m * 2 powi (?e - 52) - ?a\<bar>
          = \<bar>of_int ?m - ?a / 2 powi (?e - 52)\<bar> * \<bar>2 powi (?e - 52) :: rat\<bar>"
    by (simp only: abs_mult)
  also have "\<dots> = \<bar>of_int ?m - ?a / 2 powi (?e - 52)\<bar> * 2 powi (?e - 52)"
    using u by simp
  also have "\<dots> \<le> 1 / 2 * 2 powi (?e - 52)"
    using round_half_even_error[of "?a / 2 powi (?e - 52)"] u
    by (intro mult_right_mono) simp_all
  also have "\<dots> = 2 powi (?e - 53)"
    using power_int_add[of "2 :: rat" "?e - 53" 1] by simp
  also have "\<dots> \<le> 2 powi (int n - 54)"
    using e by (intro power_int_increasing) simp_all
  also have "\<dots> = 2 ^ n / 2 ^ 54"
    using power_int_diff[of "2 :: rat" "int n" 54] by simp
  finally have err: "\<bar>of_int ?m * 2 powi (?e - 52) - ?a\<bar> \<le> 2 ^ n / 2 ^ 54" .
  have no: "\<not> (1024 \<le> ?e \<or> (?e = 1023 \<and> 2 ^ 53 \<le> ?m))" using e' by linarith
  have v: "binary64 q = Fin ((if q < 0 then - 1 else 1) * (of_int ?m * 2 powi (?e - 52)))"
    unfolding binary64_def Let_def by (simp only: False no if_False)
  show ?thesis
  proof (cases "q < 0")
    case True
    then have "\<bar>- (of_int ?m * 2 powi (?e - 52)) - q\<bar> = \<bar>of_int ?m * 2 powi (?e - 52) - ?a\<bar>"
      by (simp add: abs_minus_commute)
    then show ?thesis using v True err by simp
  next
    case False
    then have "?a = q" by simp
    then show ?thesis using v False err by simp
  qed
qed

text \<open>An integer below \<open>2 ^ 53\<close> in magnitude is represented exactly.\<close>

lemma binary64_of_int:
  assumes "\<bar>i\<bar> < 2 ^ 53"
  shows "binary64 (of_int i) = Fin (of_int i)"
proof (cases "i = 0")
  case True
  then show ?thesis by (simp add: binary64_def)
next
  case False
  let ?a = "\<bar>of_int i :: rat\<bar>"
  let ?f = "floor_log2 ?a"
  have a: "0 < ?a" using False by simp
  have a1: "1 \<le> ?a" using False by (simp flip: of_int_abs) 
  have a2: "?a < 2 powi 53" using assms by (simp flip: of_int_abs)
  note b = floor_log2_bounds[OF a]
  have "2 powi ?f < (2 :: rat) powi 53" using b(1) a2 by simp
  then have f53: "?f < 53" by (intro power_int_le_imp_less_exp[of "2 :: rat"]) simp_all
  have "(2 :: rat) powi 0 < 2 powi (?f + 1)" using b(2) a1 by simp
  then have gt: "(1 :: rat) < 2 powi (?f + 1)" by simp
  have "\<not> ?f + 1 \<le> 0"
  proof
    assume "?f + 1 \<le> 0"
    then have "2 powi (?f + 1) \<le> (2 :: rat) powi 0" by (intro power_int_increasing) simp_all
    then show False using gt by simp
  qed
  then have f0: "0 \<le> ?f" by simp
  have e: "max ?f (- 1022) = ?f" using f0 by simp
  have ulp: "2 powi (?f - 52) = 1 / (2 :: rat) ^ nat (52 - ?f)"
    using f53 power_int_minus_divide[of "2 :: rat" "52 - ?f"] by (simp add: power_int_nonneg_exp)
  then have "?a / 2 powi (?f - 52) = of_int (\<bar>i\<bar> * 2 ^ nat (52 - ?f))" by simp
  then have m: "round_half_even (?a / 2 powi (?f - 52)) = \<bar>i\<bar> * 2 ^ nat (52 - ?f)"
    by (simp only: round_half_even_of_int)
  have undo: "of_int (\<bar>i\<bar> * 2 ^ nat (52 - ?f)) * 2 powi (?f - 52) = ?a"
    using ulp by simp
  have "binary64 (of_int i) = Fin ((if (of_int i :: rat) < 0 then - 1 else 1) * ?a)"
    using False f53 unfolding binary64_def Let_def e m undo by simp
  then show ?thesis by (cases "i < 0") simp_all
qed

section \<open>The current offset in hours: proofs\<close>

lemma trunc_stable:
  assumes "of_int k < h" and "h < of_int k + 1" and "of_int k < y" and "y < of_int k + 1"
  shows "trunc y = trunc h"
proof -
  have fl: "\<lfloor>y\<rfloor> = k" "\<lfloor>h\<rfloor> = k" using assms by linarith+
  have ce: "\<lceil>y\<rceil> = k + 1" "\<lceil>h\<rceil> = k + 1" using assms by linarith+
  show ?thesis
  proof (cases "0 \<le> k")
    case True
    then have "0 \<le> y" "0 \<le> h" using assms(1,3) by (simp_all add: order.trans[of 0 "of_int k"] less_imp_le) 
    then show ?thesis by (simp add: trunc_def fl)
  next
    case False
    then have "k + 1 \<le> 0" by simp
    then have "(of_int k :: rat) + 1 \<le> 0" by (metis of_int_0 of_int_1 of_int_add of_int_le_iff)
    then have "y < 0" "h < 0" using assms(2,4) by linarith+
    then show ?thesis by (simp add: trunc_def ce)
  qed
qed

lemma trunc_of_int [simp]: "trunc (of_int k) = k"
  by (simp add: trunc_def)

lemma float_of_int_3600: "float_of_int 3600 = Inr (Fin 3600)"
  using binary64_of_int[of 3600] by (simp add: float_of_int_def)

text \<open>For an offset of less than a day in magnitude, the two roundings of
  \<^verbatim>\<open>total_seconds() / 3600\<close> do not move the quotient across an integer: the result is the
  exact quotient truncated toward zero.\<close>

lemma offset_hours_trunc:
  assumes "\<bar>us\<bar> < 86400000000"
  shows "and_then (float_of_int 3600) (\<lambda>d.
           and_then (fdiv (total_seconds us) d) (\<lambda>hours. int_of_num (PyFloat hours)))
         = Inr (trunc (of_int us / 3600000000))"
proof -
  define x :: rat where "x = of_int us / 1000000"
  define h :: rat where "h = of_int us / 3600000000"
  have hx: "h = x / 3600" by (simp add: h_def x_def)
  have "\<bar>of_int us :: rat\<bar> < 86400000000" using assms by (simp flip: of_int_abs)
  then have xb: "x < 86400" "- 86400 < x"
    unfolding x_def by (simp_all add: abs_less_iff)
  then have "\<bar>x\<bar> < 2 ^ 17" by (simp add: abs_less_iff)
  from binary64_error[OF this] obtain X where
    X: "binary64 x = Fin X" and Xe: "\<bar>X - x\<bar> \<le> 2 ^ 17 / 2 ^ 54" by auto
  have "(2 :: rat) ^ 17 / 2 ^ 54 = 1 / 137438953472" by simp
  then have "\<bar>X - x\<bar> \<le> 1 / 137438953472" using Xe by (simp only:)
  then have Xb: "X - x \<le> 1 / 137438953472" "x - X \<le> 1 / 137438953472"
    by linarith+
  have "X / 3600 < 32" "- 32 < X / 3600" using xb Xb by linarith+
  then have "\<bar>X / 3600\<bar> < 2 ^ 5" by (simp add: abs_less_iff)
  from binary64_error[OF this] obtain Y where
    Y: "binary64 (X / 3600) = Fin Y" and Ye: "\<bar>Y - X / 3600\<bar> \<le> 2 ^ 5 / 2 ^ 54" by auto
  have "(2 :: rat) ^ 5 / 2 ^ 54 = 1 / 562949953421312" by simp
  then have "\<bar>Y - X / 3600\<bar> \<le> 1 / 562949953421312" using Ye by (simp only:)
  then have Yb: "Y - X / 3600 \<le> 1 / 562949953421312" "X / 3600 - Y \<le> 1 / 562949953421312"
    by linarith+
  have res: "and_then (float_of_int 3600) (\<lambda>d.
           and_then (fdiv (total_seconds us) d) (\<lambda>hours. int_of_num (PyFloat hours)))
         = Inr (trunc Y)"
    using X Y by (simp add: float_of_int_3600 total_seconds_def x_def fdiv_def int_of_num_def)
  have "trunc Y = trunc h"
  proof (cases "us mod 3600000000 = 0")
    case True
    then obtain k where k: "us = 3600000000 * k" by (auto simp: mod_eq_0_iff_dvd)
    have kb: "\<bar>k\<bar> < 24" using assms k by (simp add: abs_mult)
    have xk: "x = of_int (3600 * k)" by (simp add: x_def k)
    have "\<bar>3600 * k\<bar> < 2 ^ 53" using kb by (simp add: abs_mult)
    then have "X = of_int (3600 * k)" using X binary64_of_int[of "3600 * k"] by (simp add: xk)
    then have "X / 3600 = of_int k" by simp
    moreover have "\<bar>k\<bar> < 2 ^ 53" using kb by simp
    ultimately have "Y = of_int k" using Y binary64_of_int[of k] by simp
    moreover have "h = of_int k" by (simp add: h_def k)
    ultimately show ?thesis by simp
  next
    case False
    define k where "k = us div 3600000000"
    define r where "r = us mod 3600000000"
    have "0 \<le> r" "r < 3600000000" by (simp_all add: r_def)
    then have r: "1 \<le> r" "r \<le> 3599999999" using False by (simp_all add: r_def)
    have "us = k * 3600000000 + r" by (simp add: k_def r_def)
    then have "(of_int us :: rat) = of_int k * 3600000000 + of_int r"
      by (metis of_int_add of_int_mult of_int_numeral)
    then have hk: "h = of_int k + of_int r / 3600000000" by (simp add: h_def field_simps)
    have "(of_int 1 :: rat) \<le> of_int r" "(of_int r :: rat) \<le> of_int 3599999999"
      using r by (simp_all only: of_int_le_iff)
    then have rr: "(1 :: rat) \<le> of_int r" "(of_int r :: rat) \<le> 3599999999" by simp_all
    show ?thesis
    proof (rule trunc_stable[of k])
      show "of_int k < h" using rr unfolding hk by simp
      show "h < of_int k + 1" using rr unfolding hk by simp
      show "of_int k < Y" using rr Xb Yb hx hk by linarith
      show "Y < of_int k + 1" using rr Xb Yb hx hk by linarith
    qed
  qed
  then show ?thesis using res by (simp add: h_def)
qed

lemma trunc_div_nonneg:
  assumes "0 \<le> us"
  shows "trunc (of_int us / 3600000000) = us div 3600000000"
proof -
  have "(0 :: rat) \<le> of_int us / 3600000000" using assms by simp
  moreover have "\<lfloor>(of_int us :: rat) / of_int 3600000000\<rfloor> = us div 3600000000"
    by (rule floor_divide_of_int_eq)
  ultimately show ?thesis by (simp add: trunc_def)
qed

lemma trunc_div_neg:
  assumes "us < 0"
  shows "trunc (of_int us / 3600000000) = - ((- us) div 3600000000)"
proof -
  have n: "(of_int us :: rat) / 3600000000 < 0" using assms by simp
  have "\<lceil>(of_int us :: rat) / 3600000000\<rceil> = - \<lfloor>(of_int (- us) :: rat) / of_int 3600000000\<rfloor>"
    by (simp add: ceiling_def)
  also have "\<dots> = - ((- us) div 3600000000)"
    by (simp only: floor_divide_of_int_eq)
  finally show ?thesis using n by (simp add: trunc_def)
qed

text \<open>
  Claim C10. For a zone whose current offset is less than a day in magnitude,
  \<open>get_current_utc_offset\<close> returns the offset in hours truncated toward zero: the whole
  hours of the magnitude with the sign of the offset. For a negative offset that is not
  a whole number of hours this is one more than the floor of the quotient (UTC-05:30
  gives -5, not -6); for a positive offset the minutes are dropped (UTC+05:30 gives 5).
\<close>

theorem offset_truncates_toward_zero:
  assumes "ensure_tz_object catalog win_tz tz_string_or_tz_obj = Inr tz"
    and "utcoffset tz utcnow = Inr us"
    and "\<bar>us\<bar> < 86400000000"
  shows "get_current_utc_offset catalog win_tz utcoffset utcnow tz_string_or_tz_obj
           = Inr (trunc (of_int us / 3600000000))
     \<and> (0 \<le> us \<longrightarrow> trunc (of_int us / 3600000000) = us div 3600000000)
     \<and> (us < 0 \<longrightarrow> trunc (of_int us / 3600000000) = - ((- us) div 3600000000))
     \<and> (us < 0 \<and> us mod 3600000000 \<noteq> 0 \<longrightarrow>
           trunc (of_int us / 3600000000) = us div 3600000000 + 1)"
proof (intro conjI impI)
  show "get_current_utc_offset catalog win_tz utcoffset utcnow tz_string_or_tz_obj
           = Inr (trunc (of_int us / 3600000000))"
    using offset_hours_trunc[OF assms(3)]
    by (simp add: get_current_utc_offset_def assms(1,2))
  show "trunc (of_int us / 3600000000) = us div 3600000000" if "0 \<le> us"
    by (rule trunc_div_nonneg[OF that])
  show "trunc (of_int us / 3600000000) = - ((- us) div 3600000000)" if "us < 0"
    by (rule trunc_div_neg[OF that])
  show "trunc (of_int us / 3600000000) = us div 3600000000 + 1"
    if "us < 0 \<and> us mod 3600000000 \<noteq> 0"
  proof -
    have "- ((- us) div 3600000000) = us div 3600000000 + 1"
      using that by (simp add: zdiv_zminus1_eq_if)
    then show ?thesis using trunc_div_neg[of us] that by simp
  qed
qed

text \<open>The fixed zones UTC-05:30 and UTC+05:30.\<close>

theorem offset_truncates_toward_zero_witness:
  "ensure_tz_object Map.empty Map.empty (TzObj (TzOffset (- 19800))) = Inr (TzOffset (- 19800))
   \<and> fixed_zone_utcoffset (TzOffset (- 19800)) \<lparr>wall_us = 0, zone = None\<rparr> = Inr (- 19800000000)
   \<and> \<bar>- 19800000000 :: int\<bar> < 86400000000
   \<and> get_current_utc_offset Map.empty Map.empty fixed_zone_utcoffset \<lparr>wall_us = 0, zone = None\<rparr>
        (TzObj (TzOffset (- 19800))) = Inr (- 5)
   \<and> (- 19800000000 :: int) div 3600000000 = - 6
   \<and> get_current_utc_offset Map.empty Map.empty fixed_zone_utcoffset \<lparr>wall_us = 0, zone = None\<rparr>
        (TzObj (TzOffset 19800)) = Inr 5"
proof -
  let ?now = "\<lparr>wall_us = 0, zone = None\<rparr>"
  have e: "ensure_tz_object Map.empty Map.empty (TzObj (TzOffset (- 19800))) = Inr (TzOffset (- 19800))"
    "ensure_tz_object Map.empty Map.empty (TzObj (TzOffset 19800)) = Inr (TzOffset 19800)"
    by (simp_all add: ensure_tz_object_def)
  have u: "fixed_zone_utcoffset (TzOffset (- 19800)) ?now = Inr (- 19800000000)"
    "fixed_zone_utcoffset (TzOffset 19800) ?now = Inr 19800000000"
    by (simp_all add: fixed_zone_utcoffset_def fixed_utcoffset_def)
  have b: "\<bar>- 19800000000 :: int\<bar> < 86400000000" "\<bar>19800000000 :: int\<bar> < 86400000000"
    by simp_all
  have t: "trunc (of_int (- 19800000000) / 3600000000) = - 5"
    "trunc (of_int 19800000000 / 3600000000) = 5"
    using trunc_div_neg[of "- 19800000000"] trunc_div_nonneg[of 19800000000] by simp_all
  have d: "(- 19800000000 :: int) div 3600000000 = - 6" by simp
  have n: "get_current_utc_offset Map.empty Map.empty fixed_zone_utcoffset ?now
        (TzObj (TzOffset (- 19800))) = Inr (- 5)"
    using offset_truncates_toward_zero[where utcoffset = fixed_zone_utcoffset and utcnow = ?now,
        OF e(1) u(1) b(1), THEN conjunct1] t(1) by simp
  have p: "get_current_utc_offset Map.empty Map.empty fixed_zone_utcoffset ?now
        (TzObj (TzOffset 19800)) = Inr 5"
    using offset_truncates_toward_zero[where utcoffset = fixed_zone_utcoffset and utcnow = ?now,
        OF e(2) u(2) b(2), THEN conjunct1] t(2) by simp
  show ?thesis
    by (intro conjI, rule e(1), rule u(1), rule b(1), rule n, rule d, rule p)
qed

section \<open>Fractional years: proofs\<close>

lemma trunc_bounds: "\<bar>of_int (trunc x) :: rat\<bar> \<le> \<bar>x\<bar>" "\<bar>x - of_int (trunc x)\<bar> < 1"
proof -
  have f: "of_int \<lfloor>x\<rfloor> \<le> x" "x < of_int \<lfloor>x\<rfloor> + 1" by linarith+
  have c: "x \<le> of_int \<lceil>x\<rceil>" "of_int \<lceil>x\<rceil> < x + 1" by linarith+
  show "\<bar>of_int (trunc x) :: rat\<bar> \<le> \<bar>x\<bar>"
  proof (cases "0 \<le> x")
    case True
    then have "0 \<le> \<lfloor>x\<rfloor>" by simp
    then have "(0 :: rat) \<le> of_int \<lfloor>x\<rfloor>" by simp
    then show ?thesis using True f by (simp add: trunc_def)
  next
    case False
    then have "\<lceil>x\<rceil> \<le> 0" by (simp add: ceiling_le_iff)
    then have "(of_int \<lceil>x\<rceil> :: rat) \<le> 0" by simp
    then show ?thesis using False c by (simp add: trunc_def)
  qed
  show "\<bar>x - of_int (trunc x)\<bar> < 1"
    using f c by (cases "0 \<le> x") (simp_all add: trunc_def abs_less_iff)
qed

lemma float_of_int_12: "float_of_int 12 = Inr (Fin 12)"
  using binary64_of_int[of 12] by (simp add: float_of_int_def)

lemma parse_duration_years_float:
  assumes "float_of_decimal (unit_stripped v) = Inr (Fin x)" and "\<bar>x\<bar> < 2 ^ 53"
  shows "\<exists>f w. binary64 (x - of_int (trunc x)) = Fin f \<and> binary64 (f * 12) = Fin w
     \<and> parse_duration_years (Some v) =
         (if of_int (trunc x) = x then Inr (PyInt (trunc x), PyInt 0)
          else if of_int (trunc w) = w then Inr (PyInt (trunc x), PyFloat (Fin w))
          else Inl (ValueError (''Decimal reprecentation \"'' @ v
                      @ ''\" of year is ambiguous, and not supported'')))"
proof -
  let ?y = "trunc x"
  have "\<bar>x - of_int ?y\<bar> < 2 ^ 0" using trunc_bounds(2)[of x] by simp
  from binary64_error[OF this] obtain f where
    f: "binary64 (x - of_int ?y) = Fin f" and fe: "\<bar>f - (x - of_int ?y)\<bar> \<le> 2 ^ 0 / 2 ^ 54"
    by auto
  have "\<bar>f - (x - of_int ?y)\<bar> \<le> 1" using fe by simp
  then have "\<bar>f\<bar> < 2" using trunc_bounds(2)[of x] by linarith
  then have "\<bar>f * 12\<bar> < 2 ^ 5" by (simp add: abs_mult)
  from binary64_error[OF this] obtain w where w: "binary64 (f * 12) = Fin w" by auto
  have "\<bar>of_int ?y :: rat\<bar> < 2 ^ 53" using trunc_bounds(1)[of x] assms(2) by linarith
  then have "\<bar>?y\<bar> < 2 ^ 53"
    by (metis of_int_abs of_int_less_iff of_int_numeral of_int_power)
  then have yf: "float_of_int ?y = Inr (Fin (of_int ?y))"
    using binary64_of_int[of ?y] by (simp add: float_of_int_def)
  have sub: "py_sub (PyFloat (Fin x)) (PyInt ?y) = Inr (PyFloat (Fin f))"
    using f by (simp add: py_sub_def to_float_def yf fsub_def fneg_def fadd_def)
  have mul: "py_mul (PyFloat (Fin f)) (PyInt 12) = Inr (PyFloat (Fin w))"
    using w by (simp add: py_mul_def to_float_def float_of_int_12 fmul_def)
  have "parse_duration_years (Some v) =
         (if of_int (trunc x) = x then Inr (PyInt (trunc x), PyInt 0)
          else if of_int (trunc w) = w then Inr (PyInt (trunc x), PyFloat (Fin w))
          else Inl (ValueError (''Decimal reprecentation \"'' @ v
                      @ ''\" of year is ambiguous, and not supported'')))"
    by (simp add: parse_duration_years_def parse_single_duration_value_def assms(1)
        int_of_num_def int_eq_num_def sub mul)
  then show ?thesis using f w by blast
qed

lemma parse_half_year:
  "parse_iso_duration catalog win_tz parse_any ''P0.5Y''
     = Inr \<lparr>years = PyInt 0, months = PyFloat (Fin 6), days = PyInt 0, weeks = PyInt 0,
            hours = PyInt 0, minutes = PyInt 0, seconds = PyInt 0\<rparr>"
proof -
  have m: "regex_match ISO8601_DURATION ''P0.5Y'' = Some [(''years'', ''0.5Y'')]" by code_simp
  have d: "matched_delta 1 (map_of [(''years'', ''0.5Y'')])
     = Inr \<lparr>years = PyInt 0, months = PyFloat (Fin 6), days = PyInt 0, weeks = PyInt 0,
            hours = PyInt 0, minutes = PyInt 0, seconds = PyInt 0\<rparr>" by code_simp
  show ?thesis using d by (simp add: parse_iso_duration_def m)
qed

lemma parse_four_tenths_year:
  "parse_iso_duration catalog win_tz parse_any ''P0.4Y''
     = Inl (ValueError ''Decimal reprecentation \"0.4Y\" of year is ambiguous, and not supported'')"
proof -
  have m: "regex_match ISO8601_DURATION ''P0.4Y'' = Some [(''years'', ''0.4Y'')]" by code_simp
  have d: "matched_delta 1 (map_of [(''years'', ''0.4Y'')])
     = Inl (ValueError ''Decimal reprecentation \"0.4Y\" of year is ambiguous, and not supported'')"
    by code_simp
  show ?thesis using d by (simp add: parse_iso_duration_def m)
qed

lemma parse_year_and_half_with_months:
  "parse_iso_duration catalog win_tz parse_any ''P1.5Y3M''
     = Inr \<lparr>years = PyInt 1, months = PyFloat (Fin 9), days = PyInt 0, weeks = PyInt 0,
            hours = PyInt 0, minutes = PyInt 0, seconds = PyInt 0\<rparr>"
proof -
  have m: "regex_match ISO8601_DURATION ''P1.5Y3M''
             = Some [(''years'', ''1.5Y''), (''months'', ''3M'')]" by code_simp
  have d: "matched_delta 1 (map_of [(''years'', ''1.5Y''), (''months'', ''3M'')])
     = Inr \<lparr>years = PyInt 1, months = PyFloat (Fin 9), days = PyInt 0, weeks = PyInt 0,
            hours = PyInt 0, minutes = PyInt 0, seconds = PyInt 0\<rparr>" by code_simp
  show ?thesis using d by (simp add: parse_iso_duration_def m)
qed

lemma parse_rounded_twelfth:
  "parse_iso_duration catalog win_tz parse_any ''P0.08333333333333333Y''
     = Inr \<lparr>years = PyInt 0, months = PyFloat (Fin 1), days = PyInt 0, weeks = PyInt 0,
            hours = PyInt 0, minutes = PyInt 0, seconds = PyInt 0\<rparr>"
proof -
  have m: "regex_match ISO8601_DURATION ''P0.08333333333333333Y''
             = Some [(''years'', ''0.08333333333333333Y'')]" by code_simp
  have d: "matched_delta 1 (map_of [(''years'', ''0.08333333333333333Y'')])
     = Inr \<lparr>years = PyInt 0, months = PyFloat (Fin 1), days = PyInt 0, weeks = PyInt 0,
            hours = PyInt 0, minutes = PyInt 0, seconds = PyInt 0\<rparr>" by code_simp
  show ?thesis using d by (simp add: parse_iso_duration_def m)
qed

text \<open>
  Claim C2 (amended). The years text is converted to a binary64 float \<open>x\<close>. Its integer part
  \<open>trunc x\<close> is the year count. When \<open>x\<close> is not whole, the remainder \<open>x - trunc x\<close> and its
  product with 12 are computed in binary64; the rounded product \<open>w\<close> must be a whole
  number and is then the extra months, added to the months field; otherwise the parse
  fails with the \<open>ValueError\<close> of an ambiguous decimal year. (Stated for a year count below
  \<open>2 ^ 53\<close>.) So \<open>P0.5Y\<close> gives exactly 6 months, \<open>P1.5Y3M\<close> gives 1 year and 9 months, and
  \<open>P0.4Y\<close> fails; but \<open>P0.08333333333333333Y\<close>, whose exact remainder times 12 is not an
  integer, gives 1 month, because the rounded product is 1.
\<close>

theorem fractional_years:
  assumes "float_of_decimal (unit_stripped v) = Inr (Fin x)" and "\<bar>x\<bar> < 2 ^ 53"
  shows "(\<exists>f w. binary64 (x - of_int (trunc x)) = Fin f \<and> binary64 (f * 12) = Fin w
           \<and> parse_duration_years (Some v) =
               (if of_int (trunc x) = x then Inr (PyInt (trunc x), PyInt 0)
                else if of_int (trunc w) = w then Inr (PyInt (trunc x), PyFloat (Fin w))
                else Inl (ValueError (''Decimal reprecentation \"'' @ v
                            @ ''\" of year is ambiguous, and not supported''))))
     \<and> parse_iso_duration catalog win_tz parse_any ''P0.5Y''
           = Inr \<lparr>years = PyInt 0, months = PyFloat (Fin 6), days = PyInt 0, weeks = PyInt 0,
                  hours = PyInt 0, minutes = PyInt 0, seconds = PyInt 0\<rparr>
     \<and> parse_iso_duration catalog win_tz parse_any ''P1.5Y3M''
           = Inr \<lparr>years = PyInt 1, months = PyFloat (Fin 9), days = PyInt 0, weeks = PyInt 0,
                  hours = PyInt 0, minutes = PyInt 0, seconds = PyInt 0\<rparr>
     \<and> parse_iso_duration catalog win_tz parse_any ''P0.4Y''
           = Inl (ValueError
                   ''Decimal reprecentation \"0.4Y\" of year is ambiguous, and not supported'')
     \<and> parse_iso_duration catalog win_tz parse_any ''P0.08333333333333333Y''
           = Inr \<lparr>years = PyInt 0, months = PyFloat (Fin 1), days = PyInt 0, weeks = PyInt 0,
                  hours = PyInt 0, minutes = PyInt 0, seconds = PyInt 0\<rparr>"
  by (intro conjI, rule parse_duration_years_float[OF assms], rule parse_half_year,
      rule parse_year_and_half_with_months, rule parse_four_tenths_year,
      rule parse_rounded_twelfth)

theorem fractional_years_witness:
  "float_of_decimal (unit_stripped ''0.5Y'') = Inr (Fin (1 / 2))
   \<and> \<bar>1 / 2 :: rat\<bar> < 2 ^ 53
   \<and> parse_duration_years (Some ''0.5Y'') = Inr (PyInt 0, PyFloat (Fin 6))
   \<and> parse_iso_duration Map.empty Map.empty (\<lambda>t. Inl (ValueError ''no parse'')) ''P0.5Y''
        = Inr \<lparr>years = PyInt 0, months = PyFloat (Fin 6), days = PyInt 0, weeks = PyInt 0,
               hours = PyInt 0, minutes = PyInt 0, seconds = PyInt 0\<rparr>
   \<and> parse_iso_duration Map.empty Map.empty (\<lambda>t. Inl (ValueError ''no parse'')) ''P0.4Y''
        = Inl (ValueError
                ''Decimal reprecentation \"0.4Y\" of year is ambiguous, and not supported'')"
proof -
  have a: "float_of_decimal (unit_stripped ''0.5Y'') = Inr (Fin (1 / 2))" by code_simp
  have b: "\<bar>1 / 2 :: rat\<bar> < 2 ^ 53" by simp
  note t = fractional_years[OF a b, of Map.empty Map.empty "\<lambda>t. Inl (ValueError ''no parse'')"]
  have t0: "trunc (1 / 2) = 0" by code_simp
  have f: "binary64 (1 / 2 - of_int (trunc (1 / 2))) = Fin (1 / 2)"
    unfolding t0 by code_simp
  have w: "binary64 (1 / 2 * 12) = Fin 6" by code_simp
  have t6: "trunc 6 = 6" by code_simp
  from t[THEN conjunct1] obtain f' w' where
    r: "binary64 (1 / 2 - of_int (trunc (1 / 2))) = Fin f'" "binary64 (f' * 12) = Fin w'"
      "parse_duration_years (Some ''0.5Y'') =
         (if of_int (trunc (1 / 2)) = (1 / 2 :: rat) then Inr (PyInt (trunc (1 / 2)), PyInt 0)
          else if of_int (trunc w') = w' then Inr (PyInt (trunc (1 / 2)), PyFloat (Fin w'))
          else Inl (ValueError (''Decimal reprecentation \"'' @ ''0.5Y''
                      @ ''\" of year is ambiguous, and not supported'')))"
    by blast
  have f': "f' = 1 / 2" using r(1) f by simp
  have "Fin w' = Fin 6" using r(2) w unfolding f' by (rule trans[OF sym])
  then have "w' = 6" by simp
  then have c: "parse_duration_years (Some ''0.5Y'') = Inr (PyInt 0, PyFloat (Fin 6))"
    using r(3) t0 t6 by simp
  show ?thesis
    by (intro conjI, rule a, rule b, rule c, rule t[THEN conjunct2, THEN conjunct1],
        rule t[THEN conjunct2, THEN conjunct2, THEN conjunct2, THEN conjunct1])
qed

text \<open>
  The claim as stated fails for a years value close to one twelfth: the exact remainder
  times 12 lies strictly between 0 and 1, so it is not an integer, yet the parse does
  not fail and yields one month.
\<close>

theorem fractional_years_counterexample:
  "parse_iso_duration Map.empty Map.empty (\<lambda>t. Inl (ValueError ''no parse''))
       ''P0.08333333333333333Y''
     = Inr \<lparr>years = PyInt 0, months = PyFloat (Fin 1), days = PyInt 0, weeks = PyInt 0,
            hours = PyInt 0, minutes = PyInt 0, seconds = PyInt 0\<rparr>
   \<and> 0 < (8333333333333333 / 100000000000000000 :: rat) * 12
   \<and> (8333333333333333 / 100000000000000000 :: rat) * 12 < 1"
  by (intro conjI, rule parse_rounded_twelfth) simp_all

end
